theory Spec2Isabelle
  imports Complex_Main "HOL-Library.Stream"
begin

section \<open>Python values the two scripts work with\<close>

text \<open>
  The repository is two batch scripts: \<^verbatim>\<open>generate_data.py\<close> writes five CSV files of
  synthetic records and reconciles the order totals, \<^verbatim>\<open>ingest_to_db.py\<close> loads the
  files into an SQLite database and checks references. Every exception the scripts
  can raise is a value of \<open>error\<close>; a function that can raise returns \<open>error + 'a\<close>
  with \<open>Inl\<close> for the exception.
\<close>

datatype error =
    ValueError string
  | IndexError string
  | KeyError string
  | FileNotFoundError string
  | OverflowError string
  | IntegrityError string

subsection \<open>\<^verbatim>\<open>int(s)\<close> and \<^verbatim>\<open>str(n)\<close>\<close>

text \<open>
  \<^verbatim>\<open>int\<close> of a string strips the ASCII white space (tab, line feed, vertical tab,
  form feed, carriage return, space), reads an optional sign and then decimal
  digits, where single underscores may stand between digits. The model covers ASCII
  text; digits of other scripts and the interpreter's limit on the number of digits
  are left out.
\<close>

definition is_space :: "char \<Rightarrow> bool" where
  "is_space c \<longleftrightarrow>
     c \<in> set [CHR 0x09, CHR 0x0A, CHR 0x0B, CHR 0x0C, CHR 0x0D, CHR 0x20]"

definition strip :: "string \<Rightarrow> string" where
  "strip s = rev (dropWhile is_space (rev (dropWhile is_space s)))"

definition digit_val :: "char \<Rightarrow> nat option" where
  "digit_val c = map_of (zip ''0123456789'' [0, 1, 2, 3, 4, 5, 6, 7, 8, 9]) c"

fun py_digits :: "string \<Rightarrow> nat \<Rightarrow> nat option" where
  "py_digits [] acc = Some acc"
| "py_digits (c # cs) acc =
     (case digit_val c of
        Some d \<Rightarrow> py_digits cs (10 * acc + d)
      | None \<Rightarrow>
          if c = CHR ''_'' then
            (case cs of
               [] \<Rightarrow> None
             | d # _ \<Rightarrow> if digit_val d = None then None else py_digits cs acc)
          else None)"

definition py_nat :: "string \<Rightarrow> nat option" where
  "py_nat s =
     (case s of
        [] \<Rightarrow> None
      | c # _ \<Rightarrow> if digit_val c = None then None else py_digits s 0)"

definition py_int :: "string \<Rightarrow> error + int" where
  "py_int s =
     (let t = strip s;
          r = (case t of
                 [] \<Rightarrow> None
               | c # cs \<Rightarrow>
                   if c = CHR ''-'' then map_option (\<lambda>n. - int n) (py_nat cs)
                   else if c = CHR ''+'' then map_option int (py_nat cs)
                   else map_option int (py_nat t))
      in case r of
           None \<Rightarrow> Inl (ValueError ''invalid literal for int() with base 10'')
         | Some n \<Rightarrow> Inr n)"

fun str_nat :: "nat \<Rightarrow> string" where
  "str_nat n =
     (if n < 10 then [''0123456789'' ! n]
      else str_nat (n div 10) @ [''0123456789'' ! (n mod 10)])"

declare str_nat.simps [simp del]

definition py_str :: "int \<Rightarrow> string" where
  "py_str n = (if n < 0 then CHR ''-'' # str_nat (nat (- n)) else str_nat (nat n))"

definition str_bool :: "bool \<Rightarrow> string" where
  "str_bool b = (if b then ''True'' else ''False'')"

subsection \<open>\<^verbatim>\<open>str.lower\<close>\<close>

text \<open>
  On ASCII text \<^verbatim>\<open>lower\<close> maps the capital letters to the small ones and keeps every
  other character. A character outside ASCII is several bytes of a \<open>string\<close> here and
  is kept as it is.
\<close>

definition lower_char :: "char \<Rightarrow> char" where
  "lower_char c =
     (case map_of (zip ''ABCDEFGHIJKLMNOPQRSTUVWXYZ'' ''abcdefghijklmnopqrstuvwxyz'') c of
        None \<Rightarrow> c
      | Some l \<Rightarrow> l)"

definition lower :: "string \<Rightarrow> string" where
  "lower s = map lower_char s"

subsection \<open>Floating-point numbers\<close>

text \<open>
  Prices and totals are Python floats. The operations on them that the scripts use
  are taken as a parameter \<open>F\<close>, so that what is proved for every \<open>F\<close> holds for the
  IEEE doubles of the interpreter as well as for exact arithmetic:
  \<^item> \<open>fadd\<close>, \<open>fsub\<close>, \<open>fmul\<close>: \<^verbatim>\<open>+\<close>, \<^verbatim>\<open>-\<close>, \<^verbatim>\<open>*\<close>;
  \<^item> \<open>round2\<close>: \<^verbatim>\<open>round(x, 2)\<close>;
  \<^item> \<open>flt\<close>: the float of a literal or of an integer (\<^verbatim>\<open>0.3\<close>, \<^verbatim>\<open>float(5)\<close>);
  \<^item> \<open>frandom\<close>: the float in \<open>[0, 1)\<close> that \<^verbatim>\<open>random.random()\<close> makes of a raw draw;
  \<^item> \<open>parse_float\<close>: \<^verbatim>\<open>float(s)\<close>, \<open>None\<close> where it raises;
  \<^item> \<open>repr\<close>: \<^verbatim>\<open>str(x)\<close>, which the CSV writer applies to a float;
  \<^item> \<open>isnan\<close>: whether the value is a NaN.
\<close>

record 'f arith =
  fadd :: "'f \<Rightarrow> 'f \<Rightarrow> 'f"
  fsub :: "'f \<Rightarrow> 'f \<Rightarrow> 'f"
  fmul :: "'f \<Rightarrow> 'f \<Rightarrow> 'f"
  round2 :: "'f \<Rightarrow> 'f"
  flt :: "rat \<Rightarrow> 'f"
  frandom :: "nat \<Rightarrow> 'f"
  parse_float :: "string \<Rightarrow> 'f option"
  repr :: "'f \<Rightarrow> string"
  isnan :: "'f \<Rightarrow> bool"

definition py_float :: "'f arith \<Rightarrow> string \<Rightarrow> error + 'f" where
  "py_float F s =
     (case parse_float F s of
        None \<Rightarrow> Inl (ValueError ''could not convert string to float'')
      | Some x \<Rightarrow> Inr x)"

text \<open>
  \<open>py_sum\<close> is \<^verbatim>\<open>sum(xs)\<close> taken from the left, starting at \<open>0\<close>: the order in which
  the generator accumulates the subtotals of an order.
\<close>

definition py_sum :: "'f arith \<Rightarrow> 'f list \<Rightarrow> 'f" where
  "py_sum F xs = foldl (fadd F) (flt F 0) xs"

subsection \<open>Exact decimal arithmetic\<close>

text \<open>
  One interpretation of \<open>F\<close>: the rationals, with \<^verbatim>\<open>round(x, 2)\<close> rounding to the
  nearest hundredth and ties to the even hundredth. It reads and prints plain decimal
  text (\<^verbatim>\<open>12.5\<close>, \<^verbatim>\<open>-3\<close>, \<^verbatim>\<open>.25\<close>), prints a number by its hundredths with at least one
  decimal place as Python prints \<^verbatim>\<open>29.0\<close> and \<^verbatim>\<open>7.5\<close>, and has no NaN.
  It is not the arithmetic of the interpreter, whose doubles round in binary:
  \<^verbatim>\<open>round(2.675, 2)\<close> is 2.68 here and 2.67 there. It serves as the instance on
  which the sample inputs are evaluated.
\<close>

definition round_half_even :: "rat \<Rightarrow> int" where
  "round_half_even x =
     (let f = \<lfloor>x\<rfloor>; d = x - of_int f
      in if d < 1 / 2 then f
         else if 1 / 2 < d then f + 1
         else if even f then f else f + 1)"

definition exact_round2 :: "rat \<Rightarrow> rat" where
  "exact_round2 x = of_int (round_half_even (x * 100)) / 100"

definition exact_random :: "nat \<Rightarrow> rat" where
  "exact_random n = of_nat (n mod 2 ^ 53) / 2 ^ 53"

definition exact_repr :: "rat \<Rightarrow> string" where
  "exact_repr x =
     (let c = \<lfloor>x * 100\<rfloor>; a = nat \<bar>c\<bar>; fp = a mod 100
      in (if c < 0 then ''-'' else '''') @ str_nat (a div 100) @ ''.'' @
         (if fp mod 10 = 0 then [''0123456789'' ! (fp div 10)]
          else [''0123456789'' ! (fp div 10), ''0123456789'' ! (fp mod 10)]))"

definition exact_unsigned :: "string \<Rightarrow> rat option" where
  "exact_unsigned s =
     (let ip = takeWhile (\<lambda>c. c \<noteq> CHR ''.'') s;
          rest = dropWhile (\<lambda>c. c \<noteq> CHR ''.'') s
      in case rest of
           [] \<Rightarrow> map_option of_nat (py_nat ip)
         | _ # fp \<Rightarrow>
             if ip = [] \<and> fp = [] then None
             else
               (case (if ip = [] then Some 0 else py_nat ip,
                      if fp = [] then Some 0 else py_nat fp) of
                  (Some a, Some b) \<Rightarrow>
                    Some (of_nat a + of_nat b / 10 ^ length (filter (\<lambda>c. c \<noteq> CHR ''_'') fp))
                | _ \<Rightarrow> None))"

definition exact_parse :: "string \<Rightarrow> rat option" where
  "exact_parse s =
     (case strip s of
        [] \<Rightarrow> None
      | c # cs \<Rightarrow>
          if c = CHR ''-'' then map_option uminus (exact_unsigned cs)
          else if c = CHR ''+'' then exact_unsigned cs
          else exact_unsigned (c # cs))"

definition exact :: "rat arith" where
  "exact =
     \<lparr>fadd = (+), fsub = (-), fmul = (*), round2 = exact_round2, flt = (\<lambda>q. q),
      frandom = exact_random, parse_float = exact_parse, repr = exact_repr,
      isnan = (\<lambda>_. False)\<rparr>"

section \<open>The \<^verbatim>\<open>random\<close> module\<close>

text \<open>
  The state of the seeded generator is the stream of raw draws it will deliver. Each
  library function takes draws from the front and maps them into its range, so every
  result the library can give is the result for some stream, and a property proved for
  all streams holds for the seeded run.
\<close>

type_synonym rng = "nat stream"

definition random :: "'f arith \<Rightarrow> rng \<Rightarrow> 'f \<times> rng" where
  "random F g = (frandom F (shd g), stl g)"

text \<open>\<^verbatim>\<open>uniform(a, b)\<close> is \<^verbatim>\<open>a + (b - a) * random()\<close>.\<close>

definition uniform :: "'f arith \<Rightarrow> 'f \<Rightarrow> 'f \<Rightarrow> rng \<Rightarrow> 'f \<times> rng" where
  "uniform F a b g = (case random F g of (r, g') \<Rightarrow> (fadd F a (fmul F (fsub F b a) r), g'))"

definition randint :: "int \<Rightarrow> int \<Rightarrow> rng \<Rightarrow> error + (int \<times> rng)" where
  "randint a b g =
     (if b < a then Inl (ValueError ''empty range for randrange()'')
      else Inr (a + int (shd g mod nat (b - a + 1)), stl g))"

definition choice :: "'a list \<Rightarrow> rng \<Rightarrow> error + ('a \<times> rng)" where
  "choice xs g =
     (if xs = [] then Inl (IndexError ''Cannot choose from an empty sequence'')
      else Inr (xs ! (shd g mod length xs), stl g))"

text \<open>
  \<^verbatim>\<open>sample(population, k)\<close> picks \<open>k\<close> positions without replacement, in the order
  drawn, and raises when \<open>k\<close> is negative or larger than the population.
\<close>

fun pick :: "'a list \<Rightarrow> nat \<Rightarrow> rng \<Rightarrow> 'a list \<times> rng" where
  "pick xs 0 g = ([], g)"
| "pick xs (Suc k) g =
     (if xs = [] then ([], g)
      else
        let i = shd g mod length xs
        in case pick (take i xs @ drop (Suc i) xs) k (stl g) of
             (ys, g') \<Rightarrow> (xs ! i # ys, g'))"

definition sample :: "'a list \<Rightarrow> int \<Rightarrow> rng \<Rightarrow> error + ('a list \<times> rng)" where
  "sample population k g =
     (if k < 0 \<or> int (length population) < k
      then Inl (ValueError ''Sample larger than population or is negative'')
      else Inr (pick population (nat k) g))"

section \<open>Loops that thread a state and may raise\<close>

fun fold_err :: "('a \<Rightarrow> 's \<Rightarrow> error + 's) \<Rightarrow> 'a list \<Rightarrow> 's \<Rightarrow> error + 's" where
  "fold_err f [] s = Inr s"
| "fold_err f (x # xs) s =
     (case f x s of Inl e \<Rightarrow> Inl e | Inr s' \<Rightarrow> fold_err f xs s')"

fun map_err :: "('a \<Rightarrow> error + 'b) \<Rightarrow> 'a list \<Rightarrow> error + 'b list" where
  "map_err f [] = Inr []"
| "map_err f (x # xs) =
     (case f x of
        Inl e \<Rightarrow> Inl e
      | Inr y \<Rightarrow> (case map_err f xs of Inl e \<Rightarrow> Inl e | Inr ys \<Rightarrow> Inr (y # ys)))"

fun map_st :: "('a \<Rightarrow> 's \<Rightarrow> error + ('b \<times> 's)) \<Rightarrow> 'a list \<Rightarrow> 's \<Rightarrow> error + ('b list \<times> 's)" where
  "map_st f [] s = Inr ([], s)"
| "map_st f (x # xs) s =
     (case f x s of
        Inl e \<Rightarrow> Inl e
      | Inr (y, s') \<Rightarrow>
          (case map_st f xs s' of Inl e \<Rightarrow> Inl e | Inr (ys, s'') \<Rightarrow> Inr (y # ys, s'')))"

section \<open>The files\<close>

text \<open>
  A CSV file is the list of its data rows; a row carries one text per column of the
  header that the scripts write and read (section 6 of the specification). The
  database file holds the five tables, a table being the list of its rows in the
  order of insertion. A row of a table is the tuple that the loader binds to the
  \<^verbatim>\<open>INSERT\<close>; a \<^verbatim>\<open>REAL\<close> column holds \<open>None\<close> for \<^verbatim>\<open>NULL\<close>.
\<close>

record customers_row =
  c_customer_id :: string
  c_first_name :: string
  c_last_name :: string
  c_email :: string
  c_phone :: string
  c_address :: string
  c_city :: string
  c_state :: string
  c_zip_code :: string
  c_country :: string
  c_date_joined :: string

record products_row =
  p_product_id :: string
  p_name :: string
  p_description :: string
  p_category :: string
  p_price :: string
  p_cost :: string
  p_stock_quantity :: string
  p_brand :: string
  p_sku :: string
  p_created_at :: string

record orders_row =
  o_order_id :: string
  o_customer_id :: string
  o_order_date :: string
  o_status :: string
  o_shipping_address :: string
  o_shipping_city :: string
  o_shipping_state :: string
  o_shipping_zip :: string
  o_shipping_cost :: string
  o_total_amount :: string

record order_items_row =
  i_order_item_id :: string
  i_order_id :: string
  i_product_id :: string
  i_quantity :: string
  i_unit_price :: string
  i_subtotal :: string

record reviews_row =
  r_review_id :: string
  r_product_id :: string
  r_customer_id :: string
  r_rating :: string
  r_review_text :: string
  r_review_date :: string
  r_verified_purchase :: string

type_synonym customer_tuple =
  "int \<times> string \<times> string \<times> string \<times> string \<times> string \<times> string \<times> string \<times> string \<times> string \<times> string"

type_synonym 'f product_tuple =
  "int \<times> string \<times> string \<times> string \<times> 'f option \<times> 'f option \<times> int \<times> string \<times> string \<times> string"

type_synonym 'f order_tuple =
  "int \<times> int \<times> string \<times> string \<times> string \<times> string \<times> string \<times> string \<times> 'f option \<times> 'f option"

type_synonym 'f order_item_tuple =
  "int \<times> int \<times> int \<times> int \<times> 'f option \<times> 'f option"

type_synonym review_tuple =
  "int \<times> int \<times> int \<times> int \<times> string \<times> string \<times> int"

record 'f database =
  t_customers :: "customer_tuple list"
  t_products :: "'f product_tuple list"
  t_orders :: "'f order_tuple list"
  t_order_items :: "'f order_item_tuple list"
  t_reviews :: "review_tuple list"

record 'f files =
  customers_csv :: "customers_row list option"
  products_csv :: "products_row list option"
  orders_csv :: "orders_row list option"
  order_items_csv :: "order_items_row list option"
  reviews_csv :: "reviews_row list option"
  ecom_db :: "'f database option"

section \<open>\<^verbatim>\<open>generate_data.py\<close>: order items and the reconciliation of totals\<close>

text \<open>
  An order item as the generator holds it in memory, before the CSV writer turns its
  values into text.
\<close>

record 'f order_item =
  gi_order_item_id :: int
  gi_order_id :: int
  gi_product_id :: int
  gi_quantity :: int
  gi_unit_price :: "'f"
  gi_subtotal :: "'f"

definition order_item_csv :: "'f arith \<Rightarrow> 'f order_item \<Rightarrow> order_items_row" where
  "order_item_csv F it =
     \<lparr>i_order_item_id = py_str (gi_order_item_id it),
      i_order_id = py_str (gi_order_id it),
      i_product_id = py_str (gi_product_id it),
      i_quantity = py_str (gi_quantity it),
      i_unit_price = repr F (gi_unit_price it),
      i_subtotal = repr F (gi_subtotal it)\<rparr>"

text \<open>
  The state of the two nested loops of \<^verbatim>\<open>generate_order_items\<close>: the list
  \<^verbatim>\<open>order_items\<close>, the dictionary \<^verbatim>\<open>order_totals\<close> and the random generator.
\<close>

type_synonym 'f items_state = "'f order_item list \<times> (int \<rightharpoonup> 'f) \<times> rng"

text \<open>The body of the inner loop, for one selected product.\<close>

definition add_item :: "'f arith \<Rightarrow> int \<Rightarrow> int \<Rightarrow> 'f items_state \<Rightarrow> error + 'f items_state" where
  "add_item F order_id product_id st =
     (case st of (order_items, order_totals, g) \<Rightarrow>
     (case randint 1 5 g of
        Inl e \<Rightarrow> Inl e
      | Inr (quantity, g1) \<Rightarrow>
     (case uniform F (flt F 10) (flt F 500) g1 of (u, g2) \<Rightarrow>
     (let unit_price = round2 F u;
          subtotal = round2 F (fmul F unit_price (flt F (of_int quantity)));
          item = \<lparr>gi_order_item_id = int (length order_items) + 1,
                  gi_order_id = order_id,
                  gi_product_id = product_id,
                  gi_quantity = quantity,
                  gi_unit_price = unit_price,
                  gi_subtotal = subtotal\<rparr>;
          totals1 = (if order_totals order_id = None
                     then (order_totals(order_id \<mapsto> flt F 0)) else order_totals)
      in
     (case totals1 order_id of
        None \<Rightarrow> Inl (KeyError (py_str order_id))
      | Some t \<Rightarrow>
          Inr (order_items @ [item], (totals1(order_id \<mapsto> fadd F t subtotal)), g2))))))"

text \<open>The body of the outer loop, for one order.\<close>

definition order_step :: "'f arith \<Rightarrow> int list \<Rightarrow> int \<Rightarrow> 'f items_state \<Rightarrow> error + 'f items_state" where
  "order_step F product_ids order_id st =
     (case st of (order_items, order_totals, g) \<Rightarrow>
        (case randint 1 5 g of
           Inl e \<Rightarrow> Inl e
         | Inr (num_items, g1) \<Rightarrow>
             (case sample product_ids (min num_items (int (length product_ids))) g1 of
                Inl e \<Rightarrow> Inl e
              | Inr (selected_products, g2) \<Rightarrow>
                  fold_err (add_item F order_id) selected_products
                    (order_items, order_totals, g2))))"

definition order_items_loop :: "'f arith \<Rightarrow> int list \<Rightarrow> int list \<Rightarrow> rng \<Rightarrow> error + 'f items_state" where
  "order_items_loop F order_ids product_ids g =
     fold_err (order_step F product_ids) order_ids ([], Map.empty, g)"

text \<open>
  \<^verbatim>\<open>update_order_totals\<close> reads \<^verbatim>\<open>orders.csv\<close>, changes the rows whose order id is a
  key of \<^verbatim>\<open>order_totals\<close> and writes all rows back. The CSV writer writes the float
  it finds in \<^verbatim>\<open>row['total_amount']\<close> as \<^verbatim>\<open>str\<close> of it. An exception while the rows
  are read leaves the file as it was.
\<close>

definition update_row :: "'f arith \<Rightarrow> (int \<rightharpoonup> 'f) \<Rightarrow> orders_row \<Rightarrow> error + orders_row" where
  "update_row F order_totals row =
     (case py_int (o_order_id row) of
        Inl e \<Rightarrow> Inl e
      | Inr order_id \<Rightarrow>
          (case order_totals order_id of
             None \<Rightarrow> Inr row
           | Some t \<Rightarrow>
               (case py_float F (o_shipping_cost row) of
                  Inl e \<Rightarrow> Inl e
                | Inr shipping_cost \<Rightarrow>
                    Inr (row\<lparr>o_total_amount := repr F (round2 F (fadd F t shipping_cost))\<rparr>))))"

definition update_order_totals :: "'f arith \<Rightarrow> (int \<rightharpoonup> 'f) \<Rightarrow> 'f files \<Rightarrow> error + 'f files" where
  "update_order_totals F order_totals fs =
     (case orders_csv fs of
        None \<Rightarrow> Inl (FileNotFoundError ''orders.csv'')
      | Some rows \<Rightarrow>
          (case map_err (update_row F order_totals) rows of
             Inl e \<Rightarrow> Inl e
           | Inr rows' \<Rightarrow> Inr (fs\<lparr>orders_csv := Some rows'\<rparr>)))"

text \<open>
  \<^verbatim>\<open>generate_order_items\<close>: the loops, the write of \<^verbatim>\<open>order_items.csv\<close>, the
  reconciliation of \<^verbatim>\<open>orders.csv\<close>; it returns \<^verbatim>\<open>order_totals\<close>.
\<close>

definition generate_order_items ::
  "'f arith \<Rightarrow> int list \<Rightarrow> int list \<Rightarrow> 'f files \<Rightarrow> rng \<Rightarrow> error + ((int \<rightharpoonup> 'f) \<times> 'f files \<times> rng)" where
  "generate_order_items F order_ids product_ids fs g =
     (case order_items_loop F order_ids product_ids g of
        Inl e \<Rightarrow> Inl e
      | Inr (order_items, order_totals, g') \<Rightarrow>
          (case update_order_totals F order_totals
                  (fs\<lparr>order_items_csv := Some (map (order_item_csv F) order_items)\<rparr>) of
             Inl e \<Rightarrow> Inl e
           | Inr fs' \<Rightarrow> Inr (order_totals, fs', g')))"

section \<open>\<^verbatim>\<open>generate_data.py\<close>: customers, products, orders and reviews\<close>

text \<open>
  Faker fills the text columns. It keeps a random generator of its own, so it is a
  second state \<open>'k\<close> beside the stream of \<^verbatim>\<open>random\<close>, and a parameter \<open>fake\<close> gives
  the text and the next state for each provider the script calls.
\<close>

datatype provider =
    FirstName | LastName | UniqueEmail | PhoneNumber | StreetAddress | City | StateAbbr
  | Zipcode | Country | DateBetween string | CatchPhrase | Text nat | Company
  | UniqueBothify string

type_synonym 'k faker = "provider \<Rightarrow> 'k \<Rightarrow> string \<times> 'k"

text \<open>The counts that the script reads from its global constants.\<close>

record config =
  NUM_CUSTOMERS :: int
  NUM_PRODUCTS :: int
  NUM_ORDERS :: int
  NUM_REVIEWS :: int

definition default_config :: config where
  "default_config =
     \<lparr>NUM_CUSTOMERS = 1000, NUM_PRODUCTS = 500, NUM_ORDERS = 2000, NUM_REVIEWS = 1500\<rparr>"

record customer =
  gc_customer_id :: int
  gc_first_name :: string
  gc_last_name :: string
  gc_email :: string
  gc_phone :: string
  gc_address :: string
  gc_city :: string
  gc_state :: string
  gc_zip_code :: string
  gc_country :: string
  gc_date_joined :: string

record 'f product =
  gp_product_id :: int
  gp_name :: string
  gp_description :: string
  gp_category :: string
  gp_price :: "'f"
  gp_cost :: "'f"
  gp_stock_quantity :: int
  gp_brand :: string
  gp_sku :: string
  gp_created_at :: string

record 'f order =
  go_order_id :: int
  go_customer_id :: int
  go_order_date :: string
  go_status :: string
  go_shipping_address :: string
  go_shipping_city :: string
  go_shipping_state :: string
  go_shipping_zip :: string
  go_shipping_cost :: "'f"
  go_total_amount :: int

record review =
  gr_review_id :: int
  gr_product_id :: int
  gr_customer_id :: int
  gr_rating :: int
  gr_review_text :: string
  gr_review_date :: string
  gr_verified_purchase :: bool

text \<open>What the CSV writer makes of a row: \<^verbatim>\<open>str\<close> of every value.\<close>

definition customer_csv :: "customer \<Rightarrow> customers_row" where
  "customer_csv c =
     \<lparr>c_customer_id = py_str (gc_customer_id c), c_first_name = gc_first_name c,
      c_last_name = gc_last_name c, c_email = gc_email c, c_phone = gc_phone c,
      c_address = gc_address c, c_city = gc_city c, c_state = gc_state c,
      c_zip_code = gc_zip_code c, c_country = gc_country c,
      c_date_joined = gc_date_joined c\<rparr>"

definition product_csv :: "'f arith \<Rightarrow> 'f product \<Rightarrow> products_row" where
  "product_csv F p =
     \<lparr>p_product_id = py_str (gp_product_id p), p_name = gp_name p,
      p_description = gp_description p, p_category = gp_category p,
      p_price = repr F (gp_price p), p_cost = repr F (gp_cost p),
      p_stock_quantity = py_str (gp_stock_quantity p), p_brand = gp_brand p,
      p_sku = gp_sku p, p_created_at = gp_created_at p\<rparr>"

definition order_csv :: "'f arith \<Rightarrow> 'f order \<Rightarrow> orders_row" where
  "order_csv F ord =
     \<lparr>o_order_id = py_str (go_order_id ord), o_customer_id = py_str (go_customer_id ord),
      o_order_date = go_order_date ord, o_status = go_status ord,
      o_shipping_address = go_shipping_address ord, o_shipping_city = go_shipping_city ord,
      o_shipping_state = go_shipping_state ord, o_shipping_zip = go_shipping_zip ord,
      o_shipping_cost = repr F (go_shipping_cost ord),
      o_total_amount = py_str (go_total_amount ord)\<rparr>"

definition review_csv :: "review \<Rightarrow> reviews_row" where
  "review_csv r =
     \<lparr>r_review_id = py_str (gr_review_id r), r_product_id = py_str (gr_product_id r),
      r_customer_id = py_str (gr_customer_id r), r_rating = py_str (gr_rating r),
      r_review_text = gr_review_text r, r_review_date = gr_review_date r,
      r_verified_purchase = str_bool (gr_verified_purchase r)\<rparr>"

subsection \<open>\<^verbatim>\<open>generate_customers\<close>\<close>

definition customer_row :: "'k faker \<Rightarrow> int \<Rightarrow> 'k \<Rightarrow> error + (customer \<times> 'k)" where
  "customer_row fake i k =
     (case fake FirstName k of (first_name, k1) \<Rightarrow>
     (case fake LastName k1 of (last_name, k2) \<Rightarrow>
     (case fake UniqueEmail k2 of (email, k3) \<Rightarrow>
     (case fake PhoneNumber k3 of (phone, k4) \<Rightarrow>
     (case fake StreetAddress k4 of (address, k5) \<Rightarrow>
     (case fake City k5 of (city, k6) \<Rightarrow>
     (case fake StateAbbr k6 of (state, k7) \<Rightarrow>
     (case fake Zipcode k7 of (zip_code, k8) \<Rightarrow>
     (case fake Country k8 of (country, k9) \<Rightarrow>
     (case fake (DateBetween ''-2y'') k9 of (date_joined, k10) \<Rightarrow>
        Inr (\<lparr>gc_customer_id = i, gc_first_name = first_name, gc_last_name = last_name,
              gc_email = email, gc_phone = phone, gc_address = address, gc_city = city,
              gc_state = state, gc_zip_code = zip_code, gc_country = country,
              gc_date_joined = date_joined\<rparr>, k10)))))))))))"

definition customers_loop :: "config \<Rightarrow> 'k faker \<Rightarrow> 'k \<Rightarrow> error + (customer list \<times> 'k)" where
  "customers_loop cfg fake k = map_st (customer_row fake) [1 .. NUM_CUSTOMERS cfg] k"

definition generate_customers ::
  "config \<Rightarrow> 'k faker \<Rightarrow> 'f files \<Rightarrow> 'k \<Rightarrow> error + ('f files \<times> 'k)" where
  "generate_customers cfg fake fs k =
     (case customers_loop cfg fake k of
        Inl e \<Rightarrow> Inl e
      | Inr (rows, k') \<Rightarrow> Inr (fs\<lparr>customers_csv := Some (map customer_csv rows)\<rparr>, k'))"

subsection \<open>\<^verbatim>\<open>generate_products\<close>\<close>

definition categories :: "string list" where
  "categories =
     [''Electronics'', ''Clothing'', ''Home & Garden'', ''Sports & Outdoors'', ''Books'',
      ''Toys & Games'', ''Health & Beauty'', ''Automotive'', ''Food & Beverages'',
      ''Office Supplies'']"

definition product_row ::
  "'f arith \<Rightarrow> 'k faker \<Rightarrow> int \<Rightarrow> rng \<times> 'k \<Rightarrow> error + ('f product \<times> rng \<times> 'k)" where
  "product_row F fake i st =
     (case st of (g, k) \<Rightarrow>
     (case uniform F (flt F 10) (flt F 500) g of (u, g1) \<Rightarrow>
     (case uniform F (flt F (3 / 10)) (flt F (7 / 10)) g1 of (factor, g2) \<Rightarrow>
     (let price = round2 F u; cost = round2 F (fmul F price factor) in
     (case fake CatchPhrase k of (name, k1) \<Rightarrow>
     (case fake (Text 200) k1 of (description, k2) \<Rightarrow>
     (case choice categories g2 of
        Inl e \<Rightarrow> Inl e
      | Inr (category, g3) \<Rightarrow>
     (case randint 0 1000 g3 of
        Inl e \<Rightarrow> Inl e
      | Inr (stock_quantity, g4) \<Rightarrow>
     (case fake Company k2 of (brand, k3) \<Rightarrow>
     (case fake (UniqueBothify ''SKU-####-????'') k3 of (sku, k4) \<Rightarrow>
     (case fake (DateBetween ''-1y'') k4 of (created_at, k5) \<Rightarrow>
        Inr (\<lparr>gp_product_id = i, gp_name = name, gp_description = description,
              gp_category = category, gp_price = price, gp_cost = cost,
              gp_stock_quantity = stock_quantity, gp_brand = brand, gp_sku = sku,
              gp_created_at = created_at\<rparr>, g4, k5))))))))))))"

definition products_loop ::
  "config \<Rightarrow> 'f arith \<Rightarrow> 'k faker \<Rightarrow> rng \<times> 'k \<Rightarrow> error + ('f product list \<times> rng \<times> 'k)" where
  "products_loop cfg F fake st = map_st (product_row F fake) [1 .. NUM_PRODUCTS cfg] st"

definition generate_products ::
  "config \<Rightarrow> 'f arith \<Rightarrow> 'k faker \<Rightarrow> 'f files \<Rightarrow> rng \<times> 'k \<Rightarrow> error + ('f files \<times> rng \<times> 'k)" where
  "generate_products cfg F fake fs st =
     (case products_loop cfg F fake st of
        Inl e \<Rightarrow> Inl e
      | Inr (rows, st') \<Rightarrow> Inr (fs\<lparr>products_csv := Some (map (product_csv F) rows)\<rparr>, st'))"

subsection \<open>\<^verbatim>\<open>generate_orders\<close>\<close>

definition statuses :: "string list" where
  "statuses = [''pending'', ''processing'', ''shipped'', ''delivered'', ''cancelled'']"

definition order_row ::
  "'f arith \<Rightarrow> 'k faker \<Rightarrow> int list \<Rightarrow> int \<Rightarrow> rng \<times> 'k \<Rightarrow> error + ('f order \<times> rng \<times> 'k)" where
  "order_row F fake customer_ids i st =
     (case st of (g, k) \<Rightarrow>
     (case fake (DateBetween ''-1y'') k of (order_date, k1) \<Rightarrow>
     (case choice customer_ids g of
        Inl e \<Rightarrow> Inl e
      | Inr (customer_id, g1) \<Rightarrow>
     (case choice statuses g1 of
        Inl e \<Rightarrow> Inl e
      | Inr (status, g2) \<Rightarrow>
     (case fake StreetAddress k1 of (shipping_address, k2) \<Rightarrow>
     (case fake City k2 of (shipping_city, k3) \<Rightarrow>
     (case fake StateAbbr k3 of (shipping_state, k4) \<Rightarrow>
     (case fake Zipcode k4 of (shipping_zip, k5) \<Rightarrow>
     (case uniform F (flt F 5) (flt F 25) g2 of (u, g3) \<Rightarrow>
        Inr (\<lparr>go_order_id = i, go_customer_id = customer_id, go_order_date = order_date,
              go_status = status, go_shipping_address = shipping_address,
              go_shipping_city = shipping_city, go_shipping_state = shipping_state,
              go_shipping_zip = shipping_zip, go_shipping_cost = round2 F u,
              go_total_amount = 0\<rparr>, g3, k5))))))))))"

definition orders_loop ::
  "config \<Rightarrow> 'f arith \<Rightarrow> 'k faker \<Rightarrow> int list \<Rightarrow> rng \<times> 'k \<Rightarrow> error + ('f order list \<times> rng \<times> 'k)" where
  "orders_loop cfg F fake customer_ids st =
     map_st (order_row F fake customer_ids) [1 .. NUM_ORDERS cfg] st"

definition generate_orders ::
  "config \<Rightarrow> 'f arith \<Rightarrow> 'k faker \<Rightarrow> int list \<Rightarrow> 'f files \<Rightarrow> rng \<times> 'k \<Rightarrow>
     error + ('f files \<times> rng \<times> 'k)" where
  "generate_orders cfg F fake customer_ids fs st =
     (case orders_loop cfg F fake customer_ids st of
        Inl e \<Rightarrow> Inl e
      | Inr (rows, st') \<Rightarrow> Inr (fs\<lparr>orders_csv := Some (map (order_csv F) rows)\<rparr>, st'))"

subsection \<open>\<^verbatim>\<open>generate_reviews\<close>\<close>

definition review_row ::
  "'k faker \<Rightarrow> int list \<Rightarrow> int list \<Rightarrow> int \<Rightarrow> rng \<times> 'k \<Rightarrow> error + (review \<times> rng \<times> 'k)" where
  "review_row fake customer_ids product_ids i st =
     (case st of (g, k) \<Rightarrow>
     (case choice product_ids g of
        Inl e \<Rightarrow> Inl e
      | Inr (product_id, g1) \<Rightarrow>
     (case choice customer_ids g1 of
        Inl e \<Rightarrow> Inl e
      | Inr (customer_id, g2) \<Rightarrow>
     (case choice [1, 2, 3, 4, 5] g2 of
        Inl e \<Rightarrow> Inl e
      | Inr (rating, g3) \<Rightarrow>
     (case fake (Text 500) k of (review_text, k1) \<Rightarrow>
     (case fake (DateBetween ''-1y'') k1 of (review_date, k2) \<Rightarrow>
     (case choice [True, False] g3 of
        Inl e \<Rightarrow> Inl e
      | Inr (verified_purchase, g4) \<Rightarrow>
        Inr (\<lparr>gr_review_id = i, gr_product_id = product_id, gr_customer_id = customer_id,
              gr_rating = rating, gr_review_text = review_text, gr_review_date = review_date,
              gr_verified_purchase = verified_purchase\<rparr>, g4, k2))))))))"

definition reviews_loop ::
  "config \<Rightarrow> 'k faker \<Rightarrow> int list \<Rightarrow> int list \<Rightarrow> rng \<times> 'k \<Rightarrow> error + (review list \<times> rng \<times> 'k)" where
  "reviews_loop cfg fake customer_ids product_ids st =
     map_st (review_row fake customer_ids product_ids) [1 .. NUM_REVIEWS cfg] st"

definition generate_reviews ::
  "config \<Rightarrow> 'k faker \<Rightarrow> int list \<Rightarrow> int list \<Rightarrow> 'f files \<Rightarrow> rng \<times> 'k \<Rightarrow>
     error + ('f files \<times> rng \<times> 'k)" where
  "generate_reviews cfg fake customer_ids product_ids fs st =
     (case reviews_loop cfg fake customer_ids product_ids st of
        Inl e \<Rightarrow> Inl e
      | Inr (rows, st') \<Rightarrow> Inr (fs\<lparr>reviews_csv := Some (map review_csv rows)\<rparr>, st'))"

subsection \<open>\<^verbatim>\<open>main\<close> of \<^verbatim>\<open>generate_data.py\<close>\<close>

definition generate_data_main ::
  "config \<Rightarrow> 'f arith \<Rightarrow> 'k faker \<Rightarrow> 'f files \<Rightarrow> rng \<times> 'k \<Rightarrow> error + ('f files \<times> rng \<times> 'k)" where
  "generate_data_main cfg F fake fs st =
     (case st of (g, k) \<Rightarrow>
     (case generate_customers cfg fake fs k of
        Inl e \<Rightarrow> Inl e
      | Inr (fs1, k1) \<Rightarrow>
     (let customer_ids = [1 .. NUM_CUSTOMERS cfg] in
     (case generate_products cfg F fake fs1 (g, k1) of
        Inl e \<Rightarrow> Inl e
      | Inr (fs2, st2) \<Rightarrow>
     (let product_ids = [1 .. NUM_PRODUCTS cfg] in
     (case generate_orders cfg F fake customer_ids fs2 st2 of
        Inl e \<Rightarrow> Inl e
      | Inr (fs3, g3, k3) \<Rightarrow>
     (let order_ids = [1 .. NUM_ORDERS cfg] in
     (case generate_order_items F order_ids product_ids fs3 g3 of
        Inl e \<Rightarrow> Inl e
      | Inr (order_totals, fs4, g4) \<Rightarrow>
        generate_reviews cfg fake customer_ids product_ids fs4 (g4, k3)))))))))"

section \<open>\<^verbatim>\<open>ingest_to_db.py\<close>\<close>

subsection \<open>The database connection\<close>

text \<open>
  A connection sees the database file (\<open>disk\<close>) and the state inside its open
  transaction (\<open>txn\<close>), on which the cursor works. The \<^verbatim>\<open>sqlite3\<close> module opens the
  transaction before the first \<^verbatim>\<open>INSERT\<close>; \<^verbatim>\<open>commit\<close> writes it to the file,
  \<^verbatim>\<open>rollback\<close> drops it, and \<^verbatim>\<open>close\<close> leaves the file as the last commit made it.
\<close>

record 'f connection =
  disk :: "'f database"
  txn :: "'f database"

definition commit :: "'f connection \<Rightarrow> 'f connection" where
  "commit conn = conn\<lparr>disk := txn conn\<rparr>"

definition rollback :: "'f connection \<Rightarrow> 'f connection" where
  "rollback conn = conn\<lparr>txn := disk conn\<rparr>"

text \<open>What the script prints, line by line (the banners and the size of the file left out).\<close>

datatype message =
    MissingFiles "string list"
  | RunGenerateFirst
  | RemovedExisting
  | CreatedDatabase
  | InsertingData
  | Reading string
  | Inserted nat string
  | AllInserted
  | Verifying
  | TableCount string nat
  | ConstraintsValid
  | OrphanWarning nat nat nat
  | IngestionComplete
  | ErrorOccurred error

text \<open>
  \<^verbatim>\<open>executemany\<close> runs the \<^verbatim>\<open>INSERT\<close> once per tuple. A statement that fails changes
  nothing and raises; the rows inserted before it stay in the transaction.
\<close>

fun executemany :: "('a \<Rightarrow> 'd \<Rightarrow> error + 'd) \<Rightarrow> 'a list \<Rightarrow> 'd \<Rightarrow> error option \<times> 'd" where
  "executemany ins [] db = (None, db)"
| "executemany ins (t # ts) db =
     (case ins t db of
        Inl e \<Rightarrow> (Some e, db)
      | Inr db' \<Rightarrow> executemany ins ts db')"

text \<open>
  An integer is bound as a 64-bit value, and a larger one raises. A NaN is bound as
  \<^verbatim>\<open>NULL\<close>. The schema's foreign keys are declared and not enforced: the script never
  turns \<^verbatim>\<open>PRAGMA foreign_keys\<close> on.
\<close>

definition fits_int64 :: "int \<Rightarrow> bool" where
  "fits_int64 n \<longleftrightarrow> - (2 ^ 63) \<le> n \<and> n < 2 ^ 63"

definition too_large :: error where
  "too_large = OverflowError ''Python int too large to convert to SQLite INTEGER''"

definition bind_real :: "'f arith \<Rightarrow> 'f \<Rightarrow> 'f option" where
  "bind_real F x = (if isnan F x then None else Some x)"

subsection \<open>\<^verbatim>\<open>create_database\<close>\<close>

definition empty_database :: "'f database" where
  "empty_database =
     \<lparr>t_customers = [], t_products = [], t_orders = [], t_order_items = [], t_reviews = []\<rparr>"

definition create_database :: "'f files \<Rightarrow> 'f connection \<times> message list" where
  "create_database fs =
     (\<lparr>disk = empty_database, txn = empty_database\<rparr>,
      (if ecom_db fs \<noteq> None then [RemovedExisting] else []) @ [CreatedDatabase])"

subsection \<open>\<^verbatim>\<open>insert_customers\<close>\<close>

definition customer_email :: "customer_tuple \<Rightarrow> string" where
  "customer_email t = (case t of (customer_id, first_name, last_name, email, rest) \<Rightarrow> email)"

definition customer_of_row :: "customers_row \<Rightarrow> error + customer_tuple" where
  "customer_of_row row =
     (case py_int (c_customer_id row) of
        Inl e \<Rightarrow> Inl e
      | Inr customer_id \<Rightarrow>
          Inr (customer_id, c_first_name row, c_last_name row, c_email row, c_phone row,
               c_address row, c_city row, c_state row, c_zip_code row, c_country row,
               c_date_joined row))"

definition insert_customer :: "customer_tuple \<Rightarrow> 'f database \<Rightarrow> error + 'f database" where
  "insert_customer t db =
     (if \<not> fits_int64 (fst t) then Inl too_large
      else if fst t \<in> set (map fst (t_customers db))
      then Inl (IntegrityError ''UNIQUE constraint failed: customers.customer_id'')
      else if customer_email t \<in> set (map customer_email (t_customers db))
      then Inl (IntegrityError ''UNIQUE constraint failed: customers.email'')
      else Inr (db\<lparr>t_customers := t_customers db @ [t]\<rparr>))"

text \<open>
  Every \<^verbatim>\<open>insert_*\<close> function reads its file, builds the whole list of tuples (where
  \<^verbatim>\<open>int\<close> and \<^verbatim>\<open>float\<close> may raise) and then runs \<^verbatim>\<open>executemany\<close>. It returns the
  exception, if one was raised, the connection, and what it printed.
\<close>

definition insert_rows ::
  "string \<Rightarrow> string \<Rightarrow> 'r list option \<Rightarrow> ('r \<Rightarrow> error + 't) \<Rightarrow>
   ('t \<Rightarrow> 'f database \<Rightarrow> error + 'f database) \<Rightarrow> 'f connection \<Rightarrow>
   error option \<times> 'f connection \<times> message list" where
  "insert_rows filename table file of_row ins conn =
     (case file of
        None \<Rightarrow> (Some (FileNotFoundError filename), conn, [Reading filename])
      | Some rows \<Rightarrow>
          (case map_err of_row rows of
             Inl e \<Rightarrow> (Some e, conn, [Reading filename])
           | Inr tuples \<Rightarrow>
               (case executemany ins tuples (txn conn) of
                  (Some e, db) \<Rightarrow> (Some e, conn\<lparr>txn := db\<rparr>, [Reading filename])
                | (None, db) \<Rightarrow>
                    (None, conn\<lparr>txn := db\<rparr>,
                     [Reading filename, Inserted (length tuples) table]))))"

definition insert_customers ::
  "'f files \<Rightarrow> 'f connection \<Rightarrow> error option \<times> 'f connection \<times> message list" where
  "insert_customers fs conn =
     insert_rows ''customers.csv'' ''customers'' (customers_csv fs) customer_of_row
       insert_customer conn"

subsection \<open>\<^verbatim>\<open>insert_products\<close>\<close>

type_synonym 'f product_params =
  "int \<times> string \<times> string \<times> string \<times> 'f \<times> 'f \<times> int \<times> string \<times> string \<times> string"

definition product_sku :: "'f product_tuple \<Rightarrow> string" where
  "product_sku t =
     (case t of (product_id, name, description, category, price, cost, stock_quantity, brand,
                 sku, created_at) \<Rightarrow> sku)"

definition product_of_row :: "'f arith \<Rightarrow> products_row \<Rightarrow> error + 'f product_params" where
  "product_of_row F row =
     (case py_int (p_product_id row) of
        Inl e \<Rightarrow> Inl e
      | Inr product_id \<Rightarrow>
     (case py_float F (p_price row) of
        Inl e \<Rightarrow> Inl e
      | Inr price \<Rightarrow>
     (case py_float F (p_cost row) of
        Inl e \<Rightarrow> Inl e
      | Inr cost \<Rightarrow>
     (case py_int (p_stock_quantity row) of
        Inl e \<Rightarrow> Inl e
      | Inr stock_quantity \<Rightarrow>
          Inr (product_id, p_name row, p_description row, p_category row, price, cost,
               stock_quantity, p_brand row, p_sku row, p_created_at row)))))"

definition insert_product :: "'f arith \<Rightarrow> 'f product_params \<Rightarrow> 'f database \<Rightarrow> error + 'f database" where
  "insert_product F t db =
     (case t of (product_id, name, description, category, price, cost, stock_quantity, brand,
                 sku, created_at) \<Rightarrow>
        if \<not> fits_int64 product_id \<or> \<not> fits_int64 stock_quantity then Inl too_large
        else if bind_real F price = None
        then Inl (IntegrityError ''NOT NULL constraint failed: products.price'')
        else if product_id \<in> set (map fst (t_products db))
        then Inl (IntegrityError ''UNIQUE constraint failed: products.product_id'')
        else if sku \<in> set (map product_sku (t_products db))
        then Inl (IntegrityError ''UNIQUE constraint failed: products.sku'')
        else Inr (db\<lparr>t_products := t_products db @
                    [(product_id, name, description, category, bind_real F price,
                      bind_real F cost, stock_quantity, brand, sku, created_at)]\<rparr>))"

definition insert_products ::
  "'f arith \<Rightarrow> 'f files \<Rightarrow> 'f connection \<Rightarrow> error option \<times> 'f connection \<times> message list" where
  "insert_products F fs conn =
     insert_rows ''products.csv'' ''products'' (products_csv fs) (product_of_row F)
       (insert_product F) conn"

subsection \<open>\<^verbatim>\<open>insert_orders\<close>\<close>

type_synonym 'f order_params =
  "int \<times> int \<times> string \<times> string \<times> string \<times> string \<times> string \<times> string \<times> 'f \<times> 'f"

definition order_customer :: "'f order_tuple \<Rightarrow> int" where
  "order_customer t = (case t of (order_id, customer_id, rest) \<Rightarrow> customer_id)"

definition order_of_row :: "'f arith \<Rightarrow> orders_row \<Rightarrow> error + 'f order_params" where
  "order_of_row F row =
     (case py_int (o_order_id row) of
        Inl e \<Rightarrow> Inl e
      | Inr order_id \<Rightarrow>
     (case py_int (o_customer_id row) of
        Inl e \<Rightarrow> Inl e
      | Inr customer_id \<Rightarrow>
     (case py_float F (o_shipping_cost row) of
        Inl e \<Rightarrow> Inl e
      | Inr shipping_cost \<Rightarrow>
     (case py_float F (o_total_amount row) of
        Inl e \<Rightarrow> Inl e
      | Inr total_amount \<Rightarrow>
          Inr (order_id, customer_id, o_order_date row, o_status row, o_shipping_address row,
               o_shipping_city row, o_shipping_state row, o_shipping_zip row, shipping_cost,
               total_amount)))))"

definition insert_order :: "'f arith \<Rightarrow> 'f order_params \<Rightarrow> 'f database \<Rightarrow> error + 'f database" where
  "insert_order F t db =
     (case t of (order_id, customer_id, order_date, status, shipping_address, shipping_city,
                 shipping_state, shipping_zip, shipping_cost, total_amount) \<Rightarrow>
        if \<not> fits_int64 order_id \<or> \<not> fits_int64 customer_id then Inl too_large
        else if order_id \<in> set (map fst (t_orders db))
        then Inl (IntegrityError ''UNIQUE constraint failed: orders.order_id'')
        else Inr (db\<lparr>t_orders := t_orders db @
                    [(order_id, customer_id, order_date, status, shipping_address,
                      shipping_city, shipping_state, shipping_zip, bind_real F shipping_cost,
                      bind_real F total_amount)]\<rparr>))"

definition insert_orders ::
  "'f arith \<Rightarrow> 'f files \<Rightarrow> 'f connection \<Rightarrow> error option \<times> 'f connection \<times> message list" where
  "insert_orders F fs conn =
     insert_rows ''orders.csv'' ''orders'' (orders_csv fs) (order_of_row F) (insert_order F) conn"

subsection \<open>\<^verbatim>\<open>insert_order_items\<close>\<close>

type_synonym 'f order_item_params = "int \<times> int \<times> int \<times> int \<times> 'f \<times> 'f"

definition item_order :: "'f order_item_tuple \<Rightarrow> int" where
  "item_order t = (case t of (order_item_id, order_id, rest) \<Rightarrow> order_id)"

definition item_product :: "'f order_item_tuple \<Rightarrow> int" where
  "item_product t = (case t of (order_item_id, order_id, product_id, rest) \<Rightarrow> product_id)"

definition order_item_of_row :: "'f arith \<Rightarrow> order_items_row \<Rightarrow> error + 'f order_item_params" where
  "order_item_of_row F row =
     (case py_int (i_order_item_id row) of
        Inl e \<Rightarrow> Inl e
      | Inr order_item_id \<Rightarrow>
     (case py_int (i_order_id row) of
        Inl e \<Rightarrow> Inl e
      | Inr order_id \<Rightarrow>
     (case py_int (i_product_id row) of
        Inl e \<Rightarrow> Inl e
      | Inr product_id \<Rightarrow>
     (case py_int (i_quantity row) of
        Inl e \<Rightarrow> Inl e
      | Inr quantity \<Rightarrow>
     (case py_float F (i_unit_price row) of
        Inl e \<Rightarrow> Inl e
      | Inr unit_price \<Rightarrow>
     (case py_float F (i_subtotal row) of
        Inl e \<Rightarrow> Inl e
      | Inr subtotal \<Rightarrow>
          Inr (order_item_id, order_id, product_id, quantity, unit_price, subtotal)))))))"

definition insert_order_item ::
  "'f arith \<Rightarrow> 'f order_item_params \<Rightarrow> 'f database \<Rightarrow> error + 'f database" where
  "insert_order_item F t db =
     (case t of (order_item_id, order_id, product_id, quantity, unit_price, subtotal) \<Rightarrow>
        if \<not> fits_int64 order_item_id \<or> \<not> fits_int64 order_id \<or> \<not> fits_int64 product_id \<or>
           \<not> fits_int64 quantity
        then Inl too_large
        else if bind_real F unit_price = None
        then Inl (IntegrityError ''NOT NULL constraint failed: order_items.unit_price'')
        else if bind_real F subtotal = None
        then Inl (IntegrityError ''NOT NULL constraint failed: order_items.subtotal'')
        else if order_item_id \<in> set (map fst (t_order_items db))
        then Inl (IntegrityError ''UNIQUE constraint failed: order_items.order_item_id'')
        else Inr (db\<lparr>t_order_items := t_order_items db @
                    [(order_item_id, order_id, product_id, quantity, bind_real F unit_price,
                      bind_real F subtotal)]\<rparr>))"

definition insert_order_items ::
  "'f arith \<Rightarrow> 'f files \<Rightarrow> 'f connection \<Rightarrow> error option \<times> 'f connection \<times> message list" where
  "insert_order_items F fs conn =
     insert_rows ''order_items.csv'' ''order items'' (order_items_csv fs) (order_item_of_row F)
       (insert_order_item F) conn"

subsection \<open>\<^verbatim>\<open>insert_reviews\<close>\<close>

text \<open>The text of the \<^verbatim>\<open>verified_purchase\<close> column becomes the integer that is stored.\<close>

definition verified_of :: "string \<Rightarrow> int" where
  "verified_of s = (if lower s = ''true'' then 1 else 0)"

definition review_of_row :: "reviews_row \<Rightarrow> error + review_tuple" where
  "review_of_row row =
     (let verified = verified_of (r_verified_purchase row) in
     (case py_int (r_review_id row) of
        Inl e \<Rightarrow> Inl e
      | Inr review_id \<Rightarrow>
     (case py_int (r_product_id row) of
        Inl e \<Rightarrow> Inl e
      | Inr product_id \<Rightarrow>
     (case py_int (r_customer_id row) of
        Inl e \<Rightarrow> Inl e
      | Inr customer_id \<Rightarrow>
     (case py_int (r_rating row) of
        Inl e \<Rightarrow> Inl e
      | Inr rating \<Rightarrow>
          Inr (review_id, product_id, customer_id, rating, r_review_text row,
               r_review_date row, verified))))))"

definition insert_review :: "review_tuple \<Rightarrow> 'f database \<Rightarrow> error + 'f database" where
  "insert_review t db =
     (case t of (review_id, product_id, customer_id, rating, rest) \<Rightarrow>
        if \<not> fits_int64 review_id \<or> \<not> fits_int64 product_id \<or> \<not> fits_int64 customer_id \<or>
           \<not> fits_int64 rating
        then Inl too_large
        else if \<not> (1 \<le> rating \<and> rating \<le> 5)
        then Inl (IntegrityError ''CHECK constraint failed: rating >= 1 AND rating <= 5'')
        else if review_id \<in> set (map fst (t_reviews db))
        then Inl (IntegrityError ''UNIQUE constraint failed: reviews.review_id'')
        else Inr (db\<lparr>t_reviews := t_reviews db @ [t]\<rparr>))"

definition insert_reviews ::
  "'f files \<Rightarrow> 'f connection \<Rightarrow> error option \<times> 'f connection \<times> message list" where
  "insert_reviews fs conn =
     insert_rows ''reviews.csv'' ''reviews'' (reviews_csv fs) review_of_row insert_review conn"

subsection \<open>\<^verbatim>\<open>verify_data\<close>\<close>

text \<open>
  The row counts, then three queries: the orders without their customer, the order
  items without their order, the order items without their product.
\<close>

definition orphan_orders :: "'f database \<Rightarrow> nat" where
  "orphan_orders db =
     length (filter (\<lambda>ord. order_customer ord \<notin> set (map fst (t_customers db))) (t_orders db))"

definition orphan_items :: "'f database \<Rightarrow> nat" where
  "orphan_items db =
     length (filter (\<lambda>oi. item_order oi \<notin> set (map fst (t_orders db))) (t_order_items db))"

definition invalid_products :: "'f database \<Rightarrow> nat" where
  "invalid_products db =
     length (filter (\<lambda>oi. item_product oi \<notin> set (map fst (t_products db))) (t_order_items db))"

definition verify_data :: "'f connection \<Rightarrow> message list" where
  "verify_data conn =
     (let db = txn conn in
      [Verifying,
       TableCount ''customers'' (length (t_customers db)),
       TableCount ''products'' (length (t_products db)),
       TableCount ''orders'' (length (t_orders db)),
       TableCount ''order_items'' (length (t_order_items db)),
       TableCount ''reviews'' (length (t_reviews db))] @
      (if orphan_orders db = 0 \<and> orphan_items db = 0 \<and> invalid_products db = 0
       then [ConstraintsValid]
       else [OrphanWarning (orphan_orders db) (orphan_items db) (invalid_products db)]))"

subsection \<open>\<^verbatim>\<open>main\<close> of \<^verbatim>\<open>ingest_to_db.py\<close>\<close>

definition csv_files :: "string list" where
  "csv_files =
     [''customers.csv'', ''products.csv'', ''orders.csv'', ''order_items.csv'', ''reviews.csv'']"

definition path_exists :: "'f files \<Rightarrow> string \<Rightarrow> bool" where
  "path_exists fs f \<longleftrightarrow>
     (if f = ''customers.csv'' then customers_csv fs \<noteq> None
      else if f = ''products.csv'' then products_csv fs \<noteq> None
      else if f = ''orders.csv'' then orders_csv fs \<noteq> None
      else if f = ''order_items.csv'' then order_items_csv fs \<noteq> None
      else if f = ''reviews.csv'' then reviews_csv fs \<noteq> None
      else if f = ''ecom.db'' then ecom_db fs \<noteq> None
      else False)"

text \<open>The statements of the \<^verbatim>\<open>try\<close> block up to the commit: the first exception ends them.\<close>

fun run_steps ::
  "('c \<Rightarrow> error option \<times> 'c \<times> message list) list \<Rightarrow> 'c \<Rightarrow> error option \<times> 'c \<times> message list" where
  "run_steps [] conn = (None, conn, [])"
| "run_steps (step # steps) conn =
     (case step conn of
        (Some e, conn', out) \<Rightarrow> (Some e, conn', out)
      | (None, conn', out) \<Rightarrow>
          (case run_steps steps conn' of (r, conn'', out') \<Rightarrow> (r, conn'', out @ out')))"

definition insert_all ::
  "'f arith \<Rightarrow> 'f files \<Rightarrow> 'f connection \<Rightarrow> error option \<times> 'f connection \<times> message list" where
  "insert_all F fs conn =
     run_steps
       [insert_customers fs, insert_products F fs, insert_orders F fs,
        insert_order_items F fs, insert_reviews fs] conn"

text \<open>
  \<^verbatim>\<open>main\<close> returns the files, the lines printed, and how the process ends: \<open>Inr ()\<close>
  when \<^verbatim>\<open>main\<close> returns, \<open>Inl e\<close> when the exception \<open>e\<close> leaves it. The interpreter
  exits with status 0 in the first case and with status 1, after the traceback, in
  the second.
\<close>

definition ingest_to_db_main ::
  "'f arith \<Rightarrow> 'f files \<Rightarrow> 'f files \<times> message list \<times> (error + unit)" where
  "ingest_to_db_main F fs =
     (let missing_files = filter (\<lambda>f. \<not> path_exists fs f) csv_files in
      if missing_files \<noteq> [] then (fs, [MissingFiles missing_files, RunGenerateFirst], Inr ())
      else
        (case create_database fs of (conn, out0) \<Rightarrow>
        (case insert_all F fs conn of
           (Some e, conn1, out1) \<Rightarrow>
             (fs\<lparr>ecom_db := Some (disk (rollback conn1))\<rparr>,
              out0 @ [InsertingData] @ out1 @ [ErrorOccurred e], Inl e)
         | (None, conn1, out1) \<Rightarrow>
             (let conn2 = commit conn1 in
              (fs\<lparr>ecom_db := Some (disk conn2)\<rparr>,
               out0 @ [InsertingData] @ out1 @ [AllInserted] @ verify_data conn2 @
               [IngestionComplete],
               Inr ())))))"

definition exit_status :: "error + unit \<Rightarrow> nat" where
  "exit_status r = (case r of Inl e \<Rightarrow> 1 | Inr u \<Rightarrow> 0)"

section \<open>The vocabulary of the properties\<close>

text \<open>The items of one order, in the order of their generation.\<close>

definition items_of :: "int \<Rightarrow> 'f order_item list \<Rightarrow> 'f order_item list" where
  "items_of order_id its = filter (\<lambda>it. gi_order_id it = order_id) its"

text \<open>
  What the dictionary \<^verbatim>\<open>order_totals\<close> holds while the items are generated: for an
  order with items the sum of their subtotals, and no key for an order without.
\<close>

definition totals_agree :: "'f arith \<Rightarrow> 'f order_item list \<Rightarrow> (int \<rightharpoonup> 'f) \<Rightarrow> bool" where
  "totals_agree F its tot \<longleftrightarrow>
     (\<forall>oid. tot oid =
        (if items_of oid its = [] then None
         else Some (py_sum F (map gi_subtotal (items_of oid its)))))"

definition subtotal_ok :: "'f arith \<Rightarrow> 'f order_item \<Rightarrow> bool" where
  "subtotal_ok F it \<longleftrightarrow>
     gi_subtotal it = round2 F (fmul F (gi_unit_price it) (flt F (of_int (gi_quantity it))))"

text \<open>The items that one pass of the outer loop appends for an order.\<close>

definition block_ok :: "int list \<Rightarrow> int \<Rightarrow> 'f order_item list \<Rightarrow> bool" where
  "block_ok product_ids order_id block \<longleftrightarrow>
     list_all (\<lambda>it. gi_order_id it = order_id) block \<and>
     set (map gi_product_id block) \<subseteq> set product_ids \<and>
     (distinct product_ids \<longrightarrow> distinct (map gi_product_id block)) \<and>
     (\<exists>n \<in> {1 .. 5}. length block = min n (length product_ids))"

text \<open>References on file: each is the text of an identifier that its target file holds.\<close>

definition references_on_file :: "'f files \<Rightarrow> bool" where
  "references_on_file fs \<longleftrightarrow>
     (\<exists>cs ps os its rs.
        customers_csv fs = Some cs \<and> products_csv fs = Some ps \<and> orders_csv fs = Some os \<and>
        order_items_csv fs = Some its \<and> reviews_csv fs = Some rs \<and>
        list_all (\<lambda>r. o_customer_id r \<in> set (map c_customer_id cs)) os \<and>
        list_all (\<lambda>r. i_order_id r \<in> set (map o_order_id os) \<and>
                      i_product_id r \<in> set (map p_product_id ps)) its \<and>
        list_all (\<lambda>r. r_customer_id r \<in> set (map c_customer_id cs) \<and>
                      r_product_id r \<in> set (map p_product_id ps)) rs)"

text \<open>The product and the customer that a row of the table of reviews names.\<close>

definition review_product :: "review_tuple \<Rightarrow> int" where
  "review_product t = (case t of (review_id, product_id, rest) \<Rightarrow> product_id)"

definition review_customer :: "review_tuple \<Rightarrow> int" where
  "review_customer t = (case t of (review_id, product_id, customer_id, rest) \<Rightarrow> customer_id)"

text \<open>
  The tables hold, row for row, the identifiers that \<^verbatim>\<open>int\<close> reads from the files.
\<close>

definition loaded :: "'f files \<Rightarrow> 'f database \<Rightarrow> bool" where
  "loaded fs db \<longleftrightarrow>
     (\<exists>cs ps os its rs.
        customers_csv fs = Some cs \<and> products_csv fs = Some ps \<and> orders_csv fs = Some os \<and>
        order_items_csv fs = Some its \<and> reviews_csv fs = Some rs \<and>
        list_all2 (\<lambda>row t. py_int (c_customer_id row) = Inr (fst t)) cs (t_customers db) \<and>
        list_all2 (\<lambda>row t. py_int (p_product_id row) = Inr (fst t)) ps (t_products db) \<and>
        list_all2 (\<lambda>row t. py_int (o_order_id row) = Inr (fst t) \<and>
                     py_int (o_customer_id row) = Inr (order_customer t)) os (t_orders db) \<and>
        list_all2 (\<lambda>row t. py_int (i_order_id row) = Inr (item_order t) \<and>
                     py_int (i_product_id row) = Inr (item_product t)) its (t_order_items db) \<and>
        list_all2 (\<lambda>row t. py_int (r_product_id row) = Inr (review_product t) \<and>
                     py_int (r_customer_id row) = Inr (review_customer t)) rs (t_reviews db))"

text \<open>
  How accurate the float operations are. Each value \<open>x\<close> of \<open>F\<close> stands for the number
  \<open>val x\<close>, and on numbers of magnitude up to 1000 every operation gives its
  mathematical result up to an error of \<open>e\<close>: \<^verbatim>\<open>random()\<close> lies between 0 and 1, a
  literal and each of \<^verbatim>\<open>+\<close>, \<^verbatim>\<open>-\<close>, \<^verbatim>\<open>*\<close> is off by at most \<open>e\<close>, and \<^verbatim>\<open>round(x, 2)\<close> is
  off by at most half a cent and \<open>e\<close>. Exact arithmetic meets this with \<open>e = 0\<close>. IEEE
  doubles meet it with \<open>e = 1 / 2 ^ 34\<close>, when \<open>val\<close> is the number a finite double
  stands for and a number above 1000 for an infinity or a NaN: their operations are
  correctly rounded, no result in this range exceeds a million, and \<^verbatim>\<open>round\<close> gives
  the double next to the nearest hundredth.
\<close>

definition accurate :: "'f arith \<Rightarrow> ('f \<Rightarrow> rat) \<Rightarrow> rat \<Rightarrow> bool" where
  "accurate F val e \<longleftrightarrow>
     0 \<le> e \<and> e \<le> 1 / 100 \<and>
     (\<forall>n. 0 \<le> val (frandom F n) \<and> val (frandom F n) \<le> 1) \<and>
     (\<forall>q. \<bar>q\<bar> \<le> 1000 \<longrightarrow> \<bar>val (flt F q) - q\<bar> \<le> e) \<and>
     (\<forall>a b. \<bar>val a\<bar> \<le> 1000 \<and> \<bar>val b\<bar> \<le> 1000 \<longrightarrow>
        \<bar>val (fadd F a b) - (val a + val b)\<bar> \<le> e \<and>
        \<bar>val (fsub F a b) - (val a - val b)\<bar> \<le> e \<and>
        \<bar>val (fmul F a b) - val a * val b\<bar> \<le> e) \<and>
     (\<forall>x. \<bar>val x\<bar> \<le> 1000 \<longrightarrow> \<bar>val (round2 F x) - val x\<bar> \<le> 1 / 200 + e)"

section \<open>Sample inputs\<close>

text \<open>
  Two orders on file, the second with a shipping cost of 7.50, and a stream of draws
  that gives the first order two items.
\<close>

definition demo_orders :: "orders_row list" where
  "demo_orders =
     [\<lparr>o_order_id = ''1'', o_customer_id = ''3'', o_order_date = ''2024-05-01'',
       o_status = ''shipped'', o_shipping_address = ''1 Main St'', o_shipping_city = ''Springfield'',
       o_shipping_state = ''IL'', o_shipping_zip = ''62701'', o_shipping_cost = ''4.0'',
       o_total_amount = ''0''\<rparr>,
      \<lparr>o_order_id = ''2'', o_customer_id = ''1'', o_order_date = ''2024-06-11'',
       o_status = ''pending'', o_shipping_address = ''9 Elm Rd'', o_shipping_city = ''Dover'',
       o_shipping_state = ''DE'', o_shipping_zip = ''19901'', o_shipping_cost = ''7.5'',
       o_total_amount = ''0''\<rparr>]"

definition demo_files :: "rat files" where
  "demo_files =
     \<lparr>customers_csv = None, products_csv = None, orders_csv = Some demo_orders,
      order_items_csv = None, reviews_csv = None, ecom_db = None\<rparr>"

definition demo_draws :: rng where
  "demo_draws = 1 ## 1 ## 0 ## 1 ## 2 ^ 52 ## 0 ## 2 ^ 51 ## sconst 0"

definition demo_items :: "rat order_item list" where
  "demo_items =
     [\<lparr>gi_order_item_id = 1, gi_order_id = 1, gi_product_id = 2, gi_quantity = 2,
       gi_unit_price = 255, gi_subtotal = 510\<rparr>,
      \<lparr>gi_order_item_id = 2, gi_order_id = 1, gi_product_id = 1, gi_quantity = 1,
       gi_unit_price = 265 / 2, gi_subtotal = 265 / 2\<rparr>]"



definition demo_review :: reviews_row where
  "demo_review =
     \<lparr>r_review_id = ''1'', r_product_id = ''2'', r_customer_id = ''1'', r_rating = ''5'',
      r_review_text = ''Works well.'', r_review_date = ''2024-07-04'',
      r_verified_purchase = ''maybe''\<rparr>"

text \<open>
  A run with one record of each kind, and a Faker that answers every call with the
  number of the call. With the draws given to it below, the one product gets the
  price 10.01 and the cost 3.00.
\<close>

definition small_config :: config where
  "small_config = \<lparr>NUM_CUSTOMERS = 1, NUM_PRODUCTS = 1, NUM_ORDERS = 1, NUM_REVIEWS = 1\<rparr>"

definition demo_fake :: "nat faker" where
  "demo_fake p k = (str_nat k, k + 1)"

definition cheap_product :: "rat product" where
  "cheap_product =
     \<lparr>gp_product_id = 1, gp_name = ''0'', gp_description = ''1'', gp_category = ''Electronics'',
      gp_price = 1001 / 100, gp_cost = 3, gp_stock_quantity = 0, gp_brand = ''2'',
      gp_sku = ''3'', gp_created_at = ''4''\<rparr>"

text \<open>
  The files that the small run writes when Faker counts from 100, the database that
  the load makes of them, and what the load prints.
\<close>

definition no_files :: "rat files" where
  "no_files =
     \<lparr>customers_csv = None, products_csv = None, orders_csv = None, order_items_csv = None,
      reviews_csv = None, ecom_db = None\<rparr>"

definition small_run_files :: "rat files" where
  "small_run_files =
     \<lparr>customers_csv = Some
        [\<lparr>c_customer_id = ''1'', c_first_name = ''100'', c_last_name = ''101'', c_email = ''102'',
          c_phone = ''103'', c_address = ''104'', c_city = ''105'', c_state = ''106'',
          c_zip_code = ''107'', c_country = ''108'', c_date_joined = ''109''\<rparr>],
      products_csv = Some
        [\<lparr>p_product_id = ''1'', p_name = ''110'', p_description = ''111'',
          p_category = ''Electronics'', p_price = ''10.0'', p_cost = ''3.0'',
          p_stock_quantity = ''1'', p_brand = ''112'', p_sku = ''113'', p_created_at = ''114''\<rparr>],
      orders_csv = Some
        [\<lparr>o_order_id = ''1'', o_customer_id = ''1'', o_order_date = ''115'',
          o_status = ''pending'', o_shipping_address = ''116'', o_shipping_city = ''117'',
          o_shipping_state = ''118'', o_shipping_zip = ''119'', o_shipping_cost = ''10.0'',
          o_total_amount = ''20.0''\<rparr>],
      order_items_csv = Some
        [\<lparr>i_order_item_id = ''1'', i_order_id = ''1'', i_product_id = ''1'', i_quantity = ''1'',
          i_unit_price = ''10.0'', i_subtotal = ''10.0''\<rparr>],
      reviews_csv = Some
        [\<lparr>r_review_id = ''1'', r_product_id = ''1'', r_customer_id = ''1'', r_rating = ''1'',
          r_review_text = ''120'', r_review_date = ''121'', r_verified_purchase = ''True''\<rparr>],
      ecom_db = None\<rparr>"

definition small_run_db :: "rat database" where
  "small_run_db =
     \<lparr>t_customers =
        [(1, ''100'', ''101'', ''102'', ''103'', ''104'', ''105'', ''106'', ''107'', ''108'',
          ''109'')],
      t_products =
        [(1, ''110'', ''111'', ''Electronics'', Some 10, Some 3, 1, ''112'', ''113'', ''114'')],
      t_orders =
        [(1, 1, ''115'', ''pending'', ''116'', ''117'', ''118'', ''119'', Some 10, Some 20)],
      t_order_items = [(1, 1, 1, 1, Some 10, Some 10)],
      t_reviews = [(1, 1, 1, 1, ''120'', ''121'', 1)]\<rparr>"

definition small_run_output :: "message list" where
  "small_run_output =
     [CreatedDatabase, InsertingData,
      Reading ''customers.csv'', Inserted 1 ''customers'',
      Reading ''products.csv'', Inserted 1 ''products'',
      Reading ''orders.csv'', Inserted 1 ''orders'',
      Reading ''order_items.csv'', Inserted 1 ''order items'',
      Reading ''reviews.csv'', Inserted 1 ''reviews'',
      AllInserted, Verifying,
      TableCount ''customers'' 1, TableCount ''products'' 1, TableCount ''orders'' 1,
      TableCount ''order_items'' 1, TableCount ''reviews'' 1,
      ConstraintsValid, IngestionComplete]"

text \<open>A directory whose only record is a review of a product and a customer that do not exist.\<close>

definition stray_review_files :: "rat files" where
  "stray_review_files =
     \<lparr>customers_csv = Some [], products_csv = Some [], orders_csv = Some [],
      order_items_csv = Some [], reviews_csv = Some [demo_review], ecom_db = None\<rparr>"

section \<open>Lemmas on the loops\<close>

lemma fold_err_inv:
  assumes "fold_err f xs s = Inr s'" and "P s"
    and "\<And>x t t'. x \<in> set xs \<Longrightarrow> P t \<Longrightarrow> f x t = Inr t' \<Longrightarrow> P t'"
  shows "P s'"
  using assms
proof (induction xs arbitrary: s)
  case Nil
  then show ?case by simp
next
  case (Cons x xs)
  from Cons.prems(1) obtain t where t: "f x s = Inr t" and rest: "fold_err f xs t = Inr s'"
    by (auto split: sum.splits)
  have "P t" using Cons.prems(2,3) t by auto
  then show ?case using Cons.IH [OF rest] Cons.prems(3) by auto
qed

lemma map_err_Inr:
  "map_err f xs = Inr ys \<Longrightarrow> list_all2 (\<lambda>x y. f x = Inr y) xs ys"
  by (induction xs arbitrary: ys) (auto split: sum.splits)

lemma map_err_Inr_iff:
  "map_err f xs = Inr ys \<longleftrightarrow> list_all2 (\<lambda>x y. f x = Inr y) xs ys"
proof
  show "map_err f xs = Inr ys \<Longrightarrow> list_all2 (\<lambda>x y. f x = Inr y) xs ys"
    by (rule map_err_Inr)
  show "list_all2 (\<lambda>x y. f x = Inr y) xs ys \<Longrightarrow> map_err f xs = Inr ys"
    by (induction xs ys rule: list_all2_induct) auto
qed

lemma randint_1_5:
  "randint 1 5 g = Inr (1 + int (shd g mod 5), stl g)"
  by (simp add: randint_def)


lemma add_item_cases:
  obtains it g' where
    "add_item F oid pid (its, tot, g) =
       Inr (its @ [it],
            tot(oid \<mapsto> fadd F (case tot oid of None \<Rightarrow> flt F 0 | Some t \<Rightarrow> t) (gi_subtotal it)),
            g')"
    and "gi_order_id it = oid" and "gi_product_id it = pid"
    and "1 \<le> gi_quantity it" and "gi_quantity it \<le> 5"
    and "subtotal_ok F it"
    and "gi_order_item_id it = int (length its) + 1"
proof -
  obtain u g2 where u: "uniform F (flt F 10) (flt F 500) (stl g) = (u, g2)"
    by (cases "uniform F (flt F 10) (flt F 500) (stl g)")
  let ?q = "1 + int (shd g mod 5)"
  let ?it = "\<lparr>gi_order_item_id = int (length its) + 1, gi_order_id = oid, gi_product_id = pid,
              gi_quantity = ?q, gi_unit_price = round2 F u,
              gi_subtotal = round2 F (fmul F (round2 F u) (flt F (of_int ?q)))\<rparr>"
  have "add_item F oid pid (its, tot, g) =
       Inr (its @ [?it],
            tot(oid \<mapsto> fadd F (case tot oid of None \<Rightarrow> flt F 0 | Some t \<Rightarrow> t) (gi_subtotal ?it)),
            g2)"
    by (auto simp: add_item_def randint_1_5 u Let_def split: option.splits)
  moreover have "1 \<le> gi_quantity ?it" "gi_quantity ?it \<le> 5" by simp_all
  moreover have "subtotal_ok F ?it" by (simp add: subtotal_ok_def)
  ultimately show ?thesis using that [of ?it g2] by simp
qed

lemma py_sum_snoc: "py_sum F (xs @ [x]) = fadd F (py_sum F xs) x"
  by (simp add: py_sum_def)

lemma totals_agree_empty: "totals_agree F [] Map.empty"
  by (simp add: totals_agree_def items_of_def)

lemma add_item_totals_agree:
  assumes "add_item F oid pid (its, tot, g) = Inr (its', tot', g')"
    and "totals_agree F its tot"
  shows "totals_agree F its' tot'"
proof -
  obtain it g2 where
    eq: "add_item F oid pid (its, tot, g) =
       Inr (its @ [it],
            tot(oid \<mapsto> fadd F (case tot oid of None \<Rightarrow> flt F 0 | Some t \<Rightarrow> t) (gi_subtotal it)),
            g2)"
    and oid: "gi_order_id it = oid"
    by (rule add_item_cases)
  from eq assms(1) have its': "its' = its @ [it]"
    and tot': "tot' = tot(oid \<mapsto> fadd F (case tot oid of None \<Rightarrow> flt F 0 | Some t \<Rightarrow> t) (gi_subtotal it))"
    by simp_all
  have old: "(case tot oid of None \<Rightarrow> flt F 0 | Some t \<Rightarrow> t) = py_sum F (map gi_subtotal (items_of oid its))"
    using assms(2) by (simp add: totals_agree_def py_sum_def)
  show ?thesis
    unfolding totals_agree_def
  proof
    fix k
    show "tot' k = (if items_of k its' = [] then None
                    else Some (py_sum F (map gi_subtotal (items_of k its'))))"
    proof (cases "k = oid")
      case True
      have "items_of k its' = items_of oid its @ [it]"
        using True oid by (simp add: items_of_def its')
      then show ?thesis using True old by (simp add: tot' py_sum_snoc)
    next
      case False
      have "items_of k its' = items_of k its"
        using False oid by (simp add: items_of_def its')
      then show ?thesis using False assms(2) by (simp add: tot' totals_agree_def)
    qed
  qed
qed

lemma add_item_all:
  assumes "add_item F oid pid (its, tot, g) = Inr (its', tot', g')"
    and "\<forall>it \<in> set its. P it"
    and "\<And>it. gi_order_id it = oid \<Longrightarrow> gi_product_id it = pid \<Longrightarrow> 1 \<le> gi_quantity it \<Longrightarrow>
           gi_quantity it \<le> 5 \<Longrightarrow> subtotal_ok F it \<Longrightarrow> P it"
  shows "\<forall>it \<in> set its'. P it"
proof -
  obtain it g2 where
    eq: "add_item F oid pid (its, tot, g) =
       Inr (its @ [it],
            tot(oid \<mapsto> fadd F (case tot oid of None \<Rightarrow> flt F 0 | Some t \<Rightarrow> t) (gi_subtotal it)),
            g2)"
    and props: "gi_order_id it = oid" "gi_product_id it = pid" "1 \<le> gi_quantity it"
      "gi_quantity it \<le> 5" "subtotal_ok F it"
    by (rule add_item_cases)
  from eq assms(1) have "its' = its @ [it]" by simp
  then show ?thesis using assms(2) assms(3) [OF props] by simp
qed

text \<open>The inner loop appends one item per selected product, in order.\<close>

lemma inner_loop_block:
  "\<exists>block tot' g'.
     fold_err (add_item F oid) sel (its, tot, g) = Inr (its @ block, tot', g') \<and>
     map gi_product_id block = sel \<and> (\<forall>it \<in> set block. gi_order_id it = oid)"
proof (induction sel arbitrary: its tot g)
  case Nil
  then show ?case by simp
next
  case (Cons pid sel)
  obtain it g2 where
    eq: "add_item F oid pid (its, tot, g) =
       Inr (its @ [it],
            tot(oid \<mapsto> fadd F (case tot oid of None \<Rightarrow> flt F 0 | Some t \<Rightarrow> t) (gi_subtotal it)),
            g2)"
    and props: "gi_order_id it = oid" "gi_product_id it = pid"
    by (rule add_item_cases)
  let ?tot = "tot(oid \<mapsto> fadd F (case tot oid of None \<Rightarrow> flt F 0 | Some t \<Rightarrow> t) (gi_subtotal it))"
  from Cons.IH [of "its @ [it]" ?tot g2] obtain block tot' g' where
    r: "fold_err (add_item F oid) sel (its @ [it], ?tot, g2) = Inr ((its @ [it]) @ block, tot', g')"
    and b: "map gi_product_id block = sel" "\<forall>it \<in> set block. gi_order_id it = oid"
    by blast
  have "fold_err (add_item F oid) (pid # sel) (its, tot, g) = Inr (its @ (it # block), tot', g') \<and>
        map gi_product_id (it # block) = pid # sel \<and>
        (\<forall>x \<in> set (it # block). gi_order_id x = oid)"
    using eq r props b by simp
  then show ?case by (intro exI)
qed

lemma length_pick: "length (fst (pick xs k g)) = min k (length xs)"
proof (induction k arbitrary: xs g)
  case 0
  then show ?case by simp
next
  case (Suc k)
  show ?case
  proof (cases "xs = []")
    case True
    then show ?thesis by simp
  next
    case False
    let ?i = "shd g mod length xs"
    have i: "?i < length xs" using False by simp
    let ?r = "take ?i xs @ drop (Suc ?i) xs"
    obtain ys g' where p: "pick ?r k (stl g) = (ys, g')" by (cases "pick ?r k (stl g)")
    have r: "length ?r = length xs - 1" using i by simp
    have "length ys = min k (length ?r)" using Suc.IH [of ?r "stl g"] p by simp
    then have "length ys = min k (length xs - 1)" using r by simp
    moreover have "fst (pick xs (Suc k) g) = xs ! ?i # ys" using False p by (simp add: Let_def)
    ultimately show ?thesis using i by simp
  qed
qed

lemma set_pick: "set (fst (pick xs k g)) \<subseteq> set xs"
proof (induction k arbitrary: xs g)
  case 0
  then show ?case by simp
next
  case (Suc k)
  show ?case
  proof (cases "xs = []")
    case True
    then show ?thesis by simp
  next
    case False
    let ?i = "shd g mod length xs"
    let ?r = "take ?i xs @ drop (Suc ?i) xs"
    have i: "?i < length xs" using False by simp
    have "set ?r \<subseteq> set xs" by (auto dest: in_set_takeD in_set_dropD)
    then have "set (fst (pick ?r k (stl g))) \<subseteq> set xs" using Suc.IH [of ?r "stl g"] by blast
    then show ?thesis using False i by (auto simp: Let_def split: prod.splits)
  qed
qed

lemma distinct_pick: "distinct xs \<Longrightarrow> distinct (fst (pick xs k g))"
proof (induction k arbitrary: xs g)
  case 0
  then show ?case by simp
next
  case (Suc k)
  show ?case
  proof (cases "xs = []")
    case True
    then show ?thesis by simp
  next
    case False
    let ?i = "shd g mod length xs"
    let ?r = "take ?i xs @ drop (Suc ?i) xs"
    have i: "?i < length xs" using False by simp
    have xs: "xs = take ?i xs @ (xs ! ?i) # drop (Suc ?i) xs"
      using i by (simp add: id_take_nth_drop)
    have d: "distinct (take ?i xs @ (xs ! ?i) # drop (Suc ?i) xs)" using Suc.prems xs by simp
    then have dr: "distinct ?r" and notin: "xs ! ?i \<notin> set ?r" by auto
    have "xs ! ?i \<notin> set (fst (pick ?r k (stl g)))" using notin set_pick [of ?r k "stl g"] by blast
    then show ?thesis using False Suc.IH [OF dr, of "stl g"]
      by (auto simp: Let_def split: prod.splits)
  qed
qed


lemma order_step_block:
  "\<exists>block tot' g'.
     order_step F pids oid (its, tot, g) = Inr (its @ block, tot', g') \<and> block_ok pids oid block"
proof -
  let ?m = "shd g mod 5"
  let ?k = "min (1 + int ?m) (int (length pids))"
  let ?sel = "fst (pick pids (nat ?k) (stl g))"
  let ?g2 = "snd (pick pids (nat ?k) (stl g))"
  have k: "nat ?k = min (Suc ?m) (length pids)" by simp
  have s: "sample pids ?k (stl g) = Inr (?sel, ?g2)"
    by (simp add: sample_def)
  obtain block tot' g' where
    r: "fold_err (add_item F oid) ?sel (its, tot, ?g2) = Inr (its @ block, tot', g')"
    and b: "map gi_product_id block = ?sel" "\<forall>it \<in> set block. gi_order_id it = oid"
    using inner_loop_block [of F oid ?sel its tot ?g2] by blast
  have step: "order_step F pids oid (its, tot, g) = Inr (its @ block, tot', g')"
    using r by (simp add: order_step_def randint_1_5 s case_prod_beta)
  have "length block = length ?sel" using b(1) by (metis length_map)
  also have "\<dots> = min (nat ?k) (length pids)" by (rule length_pick)
  also have "\<dots> = min (Suc ?m) (length pids)" unfolding k by simp
  finally have len: "length block = min (Suc ?m) (length pids)" .
  have "Suc ?m \<in> {1 .. 5}" by simp
  then have "\<exists>n \<in> {1 .. 5}. length block = min n (length pids)" using len by blast
  moreover have "set (map gi_product_id block) \<subseteq> set pids"
    using set_pick [of pids "nat ?k" "stl g"] b(1) by simp
  moreover have "distinct pids \<longrightarrow> distinct (map gi_product_id block)"
    using distinct_pick [of pids "nat ?k" "stl g"] b(1) by simp
  ultimately have "block_ok pids oid block"
    using b(2) by (simp add: block_ok_def list_all_iff)
  with step show ?thesis by (intro exI conjI)
qed

lemma order_step_add_items:
  assumes "order_step F pids oid (its, tot, g) = Inr (its', tot', g')"
  shows "\<exists>sel g2. fold_err (add_item F oid) sel (its, tot, g2) = Inr (its', tot', g')"
  using assms by (auto simp: order_step_def split: sum.splits prod.splits)

lemma order_step_totals_agree:
  assumes "order_step F pids oid (its, tot, g) = Inr (its', tot', g')"
    and "totals_agree F its tot"
  shows "totals_agree F its' tot'"
proof -
  obtain sel g2 where f: "fold_err (add_item F oid) sel (its, tot, g2) = Inr (its', tot', g')"
    using order_step_add_items [OF assms(1)] by blast
  have "(\<lambda>(a, b, c). totals_agree F a b) (its', tot', g')"
  proof (rule fold_err_inv [OF f])
    show "(\<lambda>(a, b, c). totals_agree F a b) (its, tot, g2)" using assms(2) by simp
  next
    fix x t t'
    assume "(\<lambda>(a, b, c). totals_agree F a b) t" and "add_item F oid x t = Inr t'"
    then show "(\<lambda>(a, b, c). totals_agree F a b) t'"
      by (cases t, cases t') (auto dest: add_item_totals_agree)
  qed
  then show ?thesis by simp
qed

lemma order_step_subtotal_ok:
  assumes "order_step F pids oid (its, tot, g) = Inr (its', tot', g')"
    and "\<forall>it \<in> set its. subtotal_ok F it"
  shows "\<forall>it \<in> set its'. subtotal_ok F it"
proof -
  obtain sel g2 where f: "fold_err (add_item F oid) sel (its, tot, g2) = Inr (its', tot', g')"
    using order_step_add_items [OF assms(1)] by blast
  have "(\<lambda>(a, b, c). \<forall>it \<in> set a. subtotal_ok F it) (its', tot', g')"
  proof (rule fold_err_inv [OF f])
    show "(\<lambda>(a, b, c). \<forall>it \<in> set a. subtotal_ok F it) (its, tot, g2)" using assms(2) by simp
  next
    fix x t t'
    assume "(\<lambda>(a, b, c). \<forall>it \<in> set a. subtotal_ok F it) t" and "add_item F oid x t = Inr t'"
    then show "(\<lambda>(a, b, c). \<forall>it \<in> set a. subtotal_ok F it) t'"
      by (cases t, cases t') (auto dest: add_item_all [where P = "subtotal_ok F"])
  qed
  then show ?thesis by simp
qed

lemma loop_totals_agree:
  assumes "order_items_loop F oids pids g = Inr (its, tot, g')"
  shows "totals_agree F its tot"
proof -
  have "(\<lambda>(a, b, c). totals_agree F a b) (its, tot, g')"
  proof (rule fold_err_inv [OF assms [unfolded order_items_loop_def]])
    show "(\<lambda>(a, b, c). totals_agree F a b) ([], Map.empty, g)"
      by (simp add: totals_agree_empty)
  next
    fix x t t'
    assume "(\<lambda>(a, b, c). totals_agree F a b) t" and "order_step F pids x t = Inr t'"
    then show "(\<lambda>(a, b, c). totals_agree F a b) t'"
      by (cases t, cases t') (auto dest: order_step_totals_agree)
  qed
  then show ?thesis by simp
qed

lemma loop_subtotal_ok:
  assumes "order_items_loop F oids pids g = Inr (its, tot, g')"
  shows "\<forall>it \<in> set its. subtotal_ok F it"
proof -
  have "(\<lambda>(a, b, c). \<forall>it \<in> set a. subtotal_ok F it) (its, tot, g')"
  proof (rule fold_err_inv [OF assms [unfolded order_items_loop_def]])
    show "(\<lambda>(a, b, c). \<forall>it \<in> set a. subtotal_ok F it) ([], Map.empty, g)" by simp
  next
    fix x t t'
    assume "(\<lambda>(a, b, c). \<forall>it \<in> set a. subtotal_ok F it) t" and "order_step F pids x t = Inr t'"
    then show "(\<lambda>(a, b, c). \<forall>it \<in> set a. subtotal_ok F it) t'"
      by (cases t, cases t') (auto dest: order_step_subtotal_ok)
  qed
  then show ?thesis by simp
qed

lemma items_of_append: "items_of oid (xs @ ys) = items_of oid xs @ items_of oid ys"
  by (simp add: items_of_def)

lemma items_of_block:
  "list_all (\<lambda>it. gi_order_id it = k) block \<Longrightarrow>
   items_of oid block = (if oid = k then block else [])"
  by (induction block) (auto simp: items_of_def)

lemma loop_blocks:
  assumes "distinct oids"
  shows "\<exists>its' tot' g'.
     fold_err (order_step F pids) oids (its, tot, g) = Inr (its', tot', g') \<and>
     (\<forall>oid. if oid \<in> set oids
            then \<exists>block. items_of oid its' = items_of oid its @ block \<and> block_ok pids oid block
            else items_of oid its' = items_of oid its)"
  using assms
proof (induction oids arbitrary: its tot g)
  case Nil
  then show ?case by simp
next
  case (Cons x xs)
  obtain bx tot1 g1 where
    step: "order_step F pids x (its, tot, g) = Inr (its @ bx, tot1, g1)"
    and bx: "block_ok pids x bx"
    using order_step_block [of F pids x its tot g] by blast
  from Cons.prems have d: "distinct xs" and nx: "x \<notin> set xs" by simp_all
  from Cons.IH [OF d, of "its @ bx" tot1 g1] obtain its' tot' g' where
    r: "fold_err (order_step F pids) xs (its @ bx, tot1, g1) = Inr (its', tot', g')"
    and rest: "\<forall>oid. if oid \<in> set xs
            then \<exists>block. items_of oid its' = items_of oid (its @ bx) @ block \<and> block_ok pids oid block
            else items_of oid its' = items_of oid (its @ bx)"
    by blast
  have bxo: "items_of oid bx = (if oid = x then bx else [])" for oid
    using bx by (simp add: block_ok_def items_of_block)
  have "if oid \<in> set (x # xs)
        then \<exists>block. items_of oid its' = items_of oid its @ block \<and> block_ok pids oid block
        else items_of oid its' = items_of oid its" for oid
  proof (cases "oid = x")
    case True
    then have "items_of oid its' = items_of oid its @ bx"
      using rest nx by (simp add: items_of_append bxo)
    then show ?thesis using True bx by auto
  next
    case False
    then show ?thesis using rest [rule_format, of oid]
      by (auto simp: items_of_append bxo split: if_splits)
  qed
  moreover have "fold_err (order_step F pids) (x # xs) (its, tot, g) = Inr (its', tot', g')"
    using step r by simp
  ultimately show ?case by blast
qed

section \<open>Lemmas on the reconciliation\<close>

lemma update_order_totals_rows:
  assumes "update_order_totals F tot fs = Inr fs'" and "orders_csv fs = Some rows"
  shows "\<exists>rows'. fs' = fs\<lparr>orders_csv := Some rows'\<rparr> \<and>
                 list_all2 (\<lambda>r r'. update_row F tot r = Inr r') rows rows'"
  using assms by (auto simp: update_order_totals_def split: sum.splits dest: map_err_Inr)

lemma update_row_idem:
  assumes "update_row F tot r = Inr r'"
  shows "update_row F tot r' = Inr r'"
  using assms by (auto simp: update_row_def split: sum.splits option.splits)

lemma update_row_untouched:
  assumes "update_row F tot r = Inr r'" and "py_int (o_order_id r) = Inr oid" and "tot oid = None"
  shows "r' = r"
  using assms by (simp add: update_row_def)

lemma update_row_total:
  assumes "update_row F tot r = Inr r'" and "py_int (o_order_id r) = Inr oid" and "tot oid = Some t"
  shows "\<exists>sc. py_float F (o_shipping_cost r) = Inr sc \<and>
              r' = r\<lparr>o_total_amount := repr F (round2 F (fadd F t sc))\<rparr>"
  using assms by (auto simp: update_row_def split: sum.splits)

lemma generate_order_items_Inr:
  assumes "generate_order_items F order_ids product_ids fs g = Inr (order_totals, fs', g')"
  shows "\<exists>its. order_items_loop F order_ids product_ids g = Inr (its, order_totals, g') \<and>
           update_order_totals F order_totals
             (fs\<lparr>order_items_csv := Some (map (order_item_csv F) its)\<rparr>) = Inr fs'"
  using assms by (auto simp: generate_order_items_def split: sum.splits)

lemma block_ok_length:
  assumes "block_ok product_ids oid block"
  shows "length block \<le> 5" and "product_ids \<noteq> [] \<Longrightarrow> 1 \<le> length block"
proof -
  from assms obtain n where n: "1 \<le> n" "n \<le> 5" and len: "length block = min n (length product_ids)"
    by (auto simp: block_ok_def)
  show "length block \<le> 5" using n len by simp
  show "1 \<le> length block" if "product_ids \<noteq> []"
  proof -
    have "1 \<le> length product_ids" using that by (cases product_ids) simp_all
    then show ?thesis using n len by simp
  qed
qed

section \<open>Evaluation of the sample inputs\<close>

lemma exact_simps:
  "fadd exact = (+)" "fsub exact = (-)" "fmul exact = (*)" "round2 exact = exact_round2"
  "flt exact = (\<lambda>q. q)" "frandom exact = exact_random" "parse_float exact = exact_parse"
  "repr exact = exact_repr" "isnan exact = (\<lambda>_. False)"
  by (simp_all add: exact_def)

lemmas exact_defs = exact_simps exact_round2_def round_half_even_def exact_random_def
  exact_repr_def exact_parse_def exact_unsigned_def py_nat_def digit_val_def strip_def is_space_def
  py_int_def py_float_def py_str_def str_nat.simps

lemmas random_defs = random_def uniform_def randint_def choice_def sample_def

lemmas loop_defs = order_items_loop_def order_step_def add_item_def Let_def numeral_2_eq_2

lemma demo_loop:
  "order_items_loop exact [1] [1, 2] demo_draws = Inr (demo_items, [1 \<mapsto> 1285 / 2], sconst 0)"
  by (simp add: loop_defs demo_draws_def demo_items_def random_defs exact_simps exact_round2_def
      round_half_even_def exact_random_def)

lemma demo_update:
  "update_order_totals exact [1 \<mapsto> 1285 / 2] (demo_files\<lparr>order_items_csv := x\<rparr>) =
     Inr (demo_files\<lparr>order_items_csv := x,
            orders_csv := Some [(demo_orders ! 0)\<lparr>o_total_amount := ''646.5''\<rparr>, demo_orders ! 1]\<rparr>)"
  by (simp add: update_order_totals_def update_row_def demo_files_def demo_orders_def exact_defs)

lemma demo_generate:
  "generate_order_items exact [1] [1, 2] demo_files demo_draws =
     Inr ([1 \<mapsto> 1285 / 2],
          demo_files\<lparr>order_items_csv := Some (map (order_item_csv exact) demo_items),
            orders_csv := Some [(demo_orders ! 0)\<lparr>o_total_amount := ''646.5''\<rparr>, demo_orders ! 1]\<rparr>,
          sconst 0)"
  by (simp add: generate_order_items_def demo_loop demo_update)

lemma demo_orders_csv: "orders_csv demo_files = Some demo_orders"
  by (simp add: demo_files_def)

lemma demo_no_products:
  "generate_order_items exact [1, 2] [] demo_files demo_draws =
     Inr (Map.empty, demo_files\<lparr>order_items_csv := Some []\<rparr>, stl (stl demo_draws))"
  by (simp add: generate_order_items_def loop_defs random_defs update_order_totals_def
      update_row_def demo_files_def demo_orders_def py_int_def py_nat_def digit_val_def
      strip_def is_space_def)

section \<open>Order items and order totals\<close>

text \<open>
  Claim C1. For every order that has at least one order item, the reconciliation sets
  its \<^verbatim>\<open>total_amount\<close> to \<^verbatim>\<open>round(s + shipping_cost, 2)\<close>, where \<open>s\<close> is the sum of the
  subtotals of all items of that order: one rounding, after the summation. The row on
  file is the original row with the text of that number in its \<^verbatim>\<open>total_amount\<close> column.
\<close>

theorem total_amount_is_rounded_sum:
  assumes gen: "generate_order_items F order_ids product_ids fs g = Inr (order_totals, fs', g')"
    and rows: "orders_csv fs = Some rows"
  shows "\<exists>its rows'.
           order_items_loop F order_ids product_ids g = Inr (its, order_totals, g') \<and>
           order_items_csv fs' = Some (map (order_item_csv F) its) \<and>
           orders_csv fs' = Some rows' \<and> length rows' = length rows \<and>
           (\<forall>n < length rows. \<forall>order_id.
              py_int (o_order_id (rows ! n)) = Inr order_id \<longrightarrow> items_of order_id its \<noteq> [] \<longrightarrow>
              (\<exists>shipping_cost.
                 py_float F (o_shipping_cost (rows ! n)) = Inr shipping_cost \<and>
                 rows' ! n = (rows ! n)
                   \<lparr>o_total_amount :=
                      repr F (round2 F
                        (fadd F (py_sum F (map gi_subtotal (items_of order_id its)))
                           shipping_cost))\<rparr>))"
proof -
  obtain its where loop: "order_items_loop F order_ids product_ids g = Inr (its, order_totals, g')"
    and upd: "update_order_totals F order_totals
                (fs\<lparr>order_items_csv := Some (map (order_item_csv F) its)\<rparr>) = Inr fs'"
    using generate_order_items_Inr [OF gen] by blast
  let ?fs1 = "fs\<lparr>order_items_csv := Some (map (order_item_csv F) its)\<rparr>"
  have "orders_csv ?fs1 = Some rows" using rows by simp
  from update_order_totals_rows [OF upd this] obtain rows' where
    fs': "fs' = ?fs1\<lparr>orders_csv := Some rows'\<rparr>"
    and all2: "list_all2 (\<lambda>r r'. update_row F order_totals r = Inr r') rows rows'"
    by blast
  have agree: "totals_agree F its order_totals" by (rule loop_totals_agree [OF loop])
  have len: "length rows' = length rows" using all2 by (simp add: list_all2_lengthD)
  have main: "\<exists>shipping_cost.
                 py_float F (o_shipping_cost (rows ! n)) = Inr shipping_cost \<and>
                 rows' ! n = (rows ! n)
                   \<lparr>o_total_amount :=
                      repr F (round2 F
                        (fadd F (py_sum F (map gi_subtotal (items_of order_id its)))
                           shipping_cost))\<rparr>"
    if n: "n < length rows" and oid: "py_int (o_order_id (rows ! n)) = Inr order_id"
      and ne: "items_of order_id its \<noteq> []" for n order_id
  proof -
    have u: "update_row F order_totals (rows ! n) = Inr (rows' ! n)"
      using list_all2_nthD [OF all2 n] by simp
    have t: "order_totals order_id = Some (py_sum F (map gi_subtotal (items_of order_id its)))"
      using agree ne by (simp add: totals_agree_def)
    show ?thesis using update_row_total [OF u oid t] .
  qed
  show ?thesis
    using loop fs' len main by (intro exI [of _ its] exI [of _ rows']) simp
qed

theorem total_amount_is_rounded_sum_witness:
  "orders_csv demo_files = Some demo_orders \<and>
   (\<exists>order_totals fs' g' rows'.
      generate_order_items exact [1] [1, 2] demo_files demo_draws = Inr (order_totals, fs', g') \<and>
      orders_csv fs' = Some rows' \<and> o_shipping_cost (demo_orders ! 0) = ''4.0'' \<and>
      o_total_amount (rows' ! 0) = ''646.5'')"
proof -
  from total_amount_is_rounded_sum [OF demo_generate demo_orders_csv] obtain its rows' where
    loop: "order_items_loop exact [1] [1, 2] demo_draws = Inr (its, [1 \<mapsto> 1285 / 2], sconst 0)"
    and rows': "orders_csv
          (demo_files\<lparr>order_items_csv := Some (map (order_item_csv exact) demo_items),
            orders_csv := Some [(demo_orders ! 0)\<lparr>o_total_amount := ''646.5''\<rparr>, demo_orders ! 1]\<rparr>)
        = Some rows'"
    and tot: "\<forall>n < length demo_orders. \<forall>order_id.
              py_int (o_order_id (demo_orders ! n)) = Inr order_id \<longrightarrow> items_of order_id its \<noteq> [] \<longrightarrow>
              (\<exists>shipping_cost.
                 py_float exact (o_shipping_cost (demo_orders ! n)) = Inr shipping_cost \<and>
                 rows' ! n = (demo_orders ! n)
                   \<lparr>o_total_amount :=
                      repr exact (round2 exact
                        (fadd exact (py_sum exact (map gi_subtotal (items_of order_id its)))
                           shipping_cost))\<rparr>)"
    by blast
  have its: "its = demo_items" using loop demo_loop by simp
  have "o_total_amount (rows' ! 0) = ''646.5''"
    using tot [rule_format, of 0 1]
    by (simp add: its demo_orders_def demo_items_def items_of_def py_sum_def exact_defs)
  then show ?thesis
    using demo_generate demo_orders_csv rows' by (auto simp: demo_orders_def)
qed

text \<open>
  Claim C2, as the specification states it: an order without items ends with a
  \<^verbatim>\<open>total_amount\<close> equal to its shipping cost. With no products to choose from, the
  two orders on file get no items; the second one has the shipping cost 7.50 and keeps
  the total 0 after the reconciliation.
\<close>

theorem zero_items_counterexample:
  "generate_order_items exact [1, 2] [] demo_files demo_draws =
     Inr (Map.empty, demo_files\<lparr>order_items_csv := Some []\<rparr>, stl (stl demo_draws)) \<and>
   orders_csv (demo_files\<lparr>order_items_csv := Some []\<rparr>) = Some demo_orders \<and>
   o_order_id (demo_orders ! 1) = ''2'' \<and>
   o_shipping_cost (demo_orders ! 1) = ''7.5'' \<and>
   o_total_amount (demo_orders ! 1) = ''0'' \<and>
   parse_float exact ''0'' = Some 0 \<and> parse_float exact ''7.5'' = Some (15 / 2)"
  using demo_no_products
  by (simp add: demo_files_def demo_orders_def exact_defs)

text \<open>
  Claim C2, amended. An order without items is not a key of \<^verbatim>\<open>order_totals\<close>, and the
  reconciliation writes its row back as it was: the \<^verbatim>\<open>total_amount\<close> stays the
  placeholder.
\<close>

theorem order_without_items_keeps_total:
  assumes gen: "generate_order_items F order_ids product_ids fs g = Inr (order_totals, fs', g')"
    and rows: "orders_csv fs = Some rows"
  shows "\<exists>its rows'.
           order_items_loop F order_ids product_ids g = Inr (its, order_totals, g') \<and>
           orders_csv fs' = Some rows' \<and> length rows' = length rows \<and>
           (\<forall>n < length rows. \<forall>order_id.
              py_int (o_order_id (rows ! n)) = Inr order_id \<longrightarrow> items_of order_id its = [] \<longrightarrow>
              rows' ! n = rows ! n)"
proof -
  obtain its where loop: "order_items_loop F order_ids product_ids g = Inr (its, order_totals, g')"
    and upd: "update_order_totals F order_totals
                (fs\<lparr>order_items_csv := Some (map (order_item_csv F) its)\<rparr>) = Inr fs'"
    using generate_order_items_Inr [OF gen] by blast
  let ?fs1 = "fs\<lparr>order_items_csv := Some (map (order_item_csv F) its)\<rparr>"
  have "orders_csv ?fs1 = Some rows" using rows by simp
  from update_order_totals_rows [OF upd this] obtain rows' where
    fs': "fs' = ?fs1\<lparr>orders_csv := Some rows'\<rparr>"
    and all2: "list_all2 (\<lambda>r r'. update_row F order_totals r = Inr r') rows rows'"
    by blast
  have agree: "totals_agree F its order_totals" by (rule loop_totals_agree [OF loop])
  have len: "length rows' = length rows" using all2 by (simp add: list_all2_lengthD)
  have main: "rows' ! n = rows ! n"
    if n: "n < length rows" and oid: "py_int (o_order_id (rows ! n)) = Inr order_id"
      and ne: "items_of order_id its = []" for n order_id
  proof -
    have u: "update_row F order_totals (rows ! n) = Inr (rows' ! n)"
      using list_all2_nthD [OF all2 n] by simp
    have t: "order_totals order_id = None"
      using agree ne by (simp add: totals_agree_def)
    show ?thesis using update_row_untouched [OF u oid t] .
  qed
  show ?thesis
    using loop fs' len main by (intro exI [of _ its] exI [of _ rows']) simp
qed

theorem order_without_items_keeps_total_witness:
  "orders_csv demo_files = Some demo_orders \<and>
   (\<exists>order_totals fs' g' rows'.
      generate_order_items exact [1, 2] [] demo_files demo_draws = Inr (order_totals, fs', g') \<and>
      orders_csv fs' = Some rows' \<and> rows' ! 1 = demo_orders ! 1 \<and>
      o_total_amount (rows' ! 1) = ''0'')"
proof -
  from order_without_items_keeps_total [OF demo_no_products demo_orders_csv]
  obtain its rows' where
    loop: "order_items_loop exact [1, 2] [] demo_draws = Inr (its, Map.empty, stl (stl demo_draws))"
    and rows': "orders_csv (demo_files\<lparr>order_items_csv := Some []\<rparr>) = Some rows'"
    and keep: "\<forall>n < length demo_orders. \<forall>order_id.
              py_int (o_order_id (demo_orders ! n)) = Inr order_id \<longrightarrow> items_of order_id its = [] \<longrightarrow>
              rows' ! n = demo_orders ! n"
    by blast
  have "order_items_loop exact [1, 2] [] demo_draws = Inr ([], Map.empty, stl (stl demo_draws))"
    by (simp add: loop_defs random_defs)
  with loop have its: "its = []" by simp
  have "rows' ! 1 = demo_orders ! 1"
    using keep [rule_format, of 1 2]
    by (simp add: its demo_orders_def items_of_def py_int_def py_nat_def digit_val_def
        strip_def is_space_def)
  then show ?thesis
    using demo_no_products demo_orders_csv rows' by (auto simp: demo_orders_def)
qed

text \<open>
  Claim C3. The reconciliation is idempotent: run again with the same
  \<^verbatim>\<open>order_totals\<close> on the file it has written, it writes the same file.
\<close>

theorem update_order_totals_idempotent:
  assumes "update_order_totals F order_totals fs = Inr fs'"
  shows "update_order_totals F order_totals fs' = Inr fs'"
proof -
  from assms obtain rows where rows: "orders_csv fs = Some rows"
    by (auto simp: update_order_totals_def split: option.splits)
  from update_order_totals_rows [OF assms rows] obtain rows' where
    fs': "fs' = fs\<lparr>orders_csv := Some rows'\<rparr>"
    and all2: "list_all2 (\<lambda>r r'. update_row F order_totals r = Inr r') rows rows'"
    by blast
  have "list_all2 (\<lambda>r r'. update_row F order_totals r = Inr r') rows' rows'"
    using all2 by (auto simp: list_all2_conv_all_nth dest: update_row_idem)
  then have "map_err (update_row F order_totals) rows' = Inr rows'"
    by (simp add: map_err_Inr_iff)
  then show ?thesis by (simp add: update_order_totals_def fs')
qed

theorem update_order_totals_idempotent_witness:
  "\<exists>fs'. update_order_totals exact [1 \<mapsto> 1285 / 2] demo_files = Inr fs' \<and>
         update_order_totals exact [1 \<mapsto> 1285 / 2] fs' = Inr fs' \<and>
         map o_total_amount (the (orders_csv fs')) = [''646.5'', ''0'']"
proof -
  have d: "demo_files\<lparr>order_items_csv := None\<rparr> = demo_files" by (simp add: demo_files_def)
  have u: "update_order_totals exact [1 \<mapsto> 1285 / 2] demo_files =
     Inr (demo_files\<lparr>order_items_csv := None,
            orders_csv := Some [(demo_orders ! 0)\<lparr>o_total_amount := ''646.5''\<rparr>, demo_orders ! 1]\<rparr>)"
    using demo_update [of None] by (simp add: d)
  show ?thesis
    using u update_order_totals_idempotent [OF u] by (simp add: demo_orders_def)
qed

text \<open>
  Claim C6. Every generated order item has the subtotal
  \<^verbatim>\<open>round(unit_price * quantity, 2)\<close>.
\<close>

theorem subtotal_is_rounded_product:
  assumes "order_items_loop F order_ids product_ids g = Inr (its, order_totals, g')"
  shows "\<forall>it \<in> set its.
           gi_subtotal it = round2 F (fmul F (gi_unit_price it) (flt F (of_int (gi_quantity it))))"
  using loop_subtotal_ok [OF assms] by (simp add: subtotal_ok_def)

theorem subtotal_is_rounded_product_witness:
  "order_items_loop exact [1] [1, 2] demo_draws = Inr (demo_items, [1 \<mapsto> 1285 / 2], sconst 0) \<and>
   list_all (\<lambda>it. gi_subtotal it =
        round2 exact (fmul exact (gi_unit_price it) (flt exact (of_int (gi_quantity it)))))
     demo_items \<and>
   map gi_subtotal demo_items = [510, 265 / 2]"
  using demo_loop subtotal_is_rounded_product [OF demo_loop]
  by (simp add: list_all_iff demo_items_def)

text \<open>
  Claim C8. The loops never raise, so the sample is never asked for more products than
  there are. Every order of a list without repetition gets \<open>min n (len(product_ids))\<close>
  items for a drawn \<open>n\<close> between 1 and 5: at most five, at least one when there is a
  product, and their products are pairwise distinct members of \<^verbatim>\<open>product_ids\<close> when
  that list has no repetition.
\<close>

theorem items_per_order:
  assumes "distinct order_ids"
  shows "\<exists>its order_totals g'.
           order_items_loop F order_ids product_ids g = Inr (its, order_totals, g') \<and>
           (\<forall>order_id \<in> set order_ids.
              set (map gi_product_id (items_of order_id its)) \<subseteq> set product_ids \<and>
              (distinct product_ids \<longrightarrow> distinct (map gi_product_id (items_of order_id its))) \<and>
              (\<exists>num_items \<in> {1 .. 5}.
                 length (items_of order_id its) = min num_items (length product_ids)) \<and>
              length (items_of order_id its) \<le> 5 \<and>
              (product_ids \<noteq> [] \<longrightarrow> 1 \<le> length (items_of order_id its)))"
proof -
  from loop_blocks [OF assms, of F product_ids "[]" Map.empty g] obtain its tot g' where
    r: "fold_err (order_step F product_ids) order_ids ([], Map.empty, g) = Inr (its, tot, g')"
    and b: "\<forall>oid. if oid \<in> set order_ids
            then \<exists>block. items_of oid its = items_of oid [] @ block \<and> block_ok product_ids oid block
            else items_of oid its = items_of oid []"
    by blast
  have ok: "block_ok product_ids oid (items_of oid its)" if "oid \<in> set order_ids" for oid
    using b [rule_format, of oid] that by (auto simp: items_of_def)
  have "\<forall>order_id \<in> set order_ids.
              set (map gi_product_id (items_of order_id its)) \<subseteq> set product_ids \<and>
              (distinct product_ids \<longrightarrow> distinct (map gi_product_id (items_of order_id its))) \<and>
              (\<exists>num_items \<in> {1 .. 5}.
                 length (items_of order_id its) = min num_items (length product_ids)) \<and>
              length (items_of order_id its) \<le> 5 \<and>
              (product_ids \<noteq> [] \<longrightarrow> 1 \<le> length (items_of order_id its))"
  proof
    fix oid assume "oid \<in> set order_ids"
    from ok [OF this] have k: "block_ok product_ids oid (items_of oid its)" .
    from k have
      "set (map gi_product_id (items_of oid its)) \<subseteq> set product_ids"
      "distinct product_ids \<longrightarrow> distinct (map gi_product_id (items_of oid its))"
      "\<exists>num_items \<in> {1 .. 5}. length (items_of oid its) = min num_items (length product_ids)"
      unfolding block_ok_def by blast+
    then show "set (map gi_product_id (items_of oid its)) \<subseteq> set product_ids \<and>
              (distinct product_ids \<longrightarrow> distinct (map gi_product_id (items_of oid its))) \<and>
              (\<exists>num_items \<in> {1 .. 5}.
                 length (items_of oid its) = min num_items (length product_ids)) \<and>
              length (items_of oid its) \<le> 5 \<and>
              (product_ids \<noteq> [] \<longrightarrow> 1 \<le> length (items_of oid its))"
      using block_ok_length [OF k] by blast
  qed
  with r show ?thesis unfolding order_items_loop_def by (intro exI conjI)
qed

theorem items_per_order_witness:
  "distinct [1 :: int] \<and>
   (\<exists>its order_totals g'.
      order_items_loop exact [1] [1, 2] demo_draws = Inr (its, order_totals, g') \<and>
      distinct (map gi_product_id (items_of 1 its)) \<and>
      set (map gi_product_id (items_of 1 its)) \<subseteq> {1, 2} \<and>
      length (items_of 1 its) = 2)"
proof -
  have d: "distinct [1 :: int]" by simp
  from items_per_order [OF d, of exact "[1, 2]" demo_draws] obtain its order_totals g' where
    loop: "order_items_loop exact [1] [1, 2] demo_draws = Inr (its, order_totals, g')"
    and p: "set (map gi_product_id (items_of 1 its)) \<subseteq> set [1, 2]"
      "distinct [1, 2 :: int] \<longrightarrow> distinct (map gi_product_id (items_of 1 its))"
    by auto
  have its: "its = demo_items" using loop demo_loop by simp
  have "length (items_of 1 its) = 2" by (simp add: its demo_items_def items_of_def)
  then show ?thesis using d loop p by auto
qed

section \<open>The load\<close>










lemma no_missing_files:
  "filter (\<lambda>f. \<not> path_exists fs f) csv_files = [] \<longleftrightarrow> (\<forall>f \<in> set csv_files. path_exists fs f)"
  by (simp add: filter_empty_conv)



lemmas int_defs = py_int_def py_nat_def digit_val_def strip_def is_space_def






text \<open>
  Claim C5, as the specification states it: with an input file missing the process
  exits non-zero. With four of the five files missing, \<^verbatim>\<open>main\<close> returns, and the
  interpreter ends with status 0.
\<close>

theorem missing_files_exit_status_counterexample:
  "filter (\<lambda>f. \<not> path_exists demo_files f) csv_files =
     [''customers.csv'', ''products.csv'', ''order_items.csv'', ''reviews.csv''] \<and>
   snd (snd (ingest_to_db_main exact demo_files)) = Inr () \<and>
   exit_status (snd (snd (ingest_to_db_main exact demo_files))) = 0"
  by (simp add: ingest_to_db_main_def Let_def exit_status_def csv_files_def path_exists_def
      demo_files_def)

text \<open>
  Claim C5, amended. When an input file is missing, \<^verbatim>\<open>main\<close> prints the names of
  the missing files and returns before it creates the database: no file is changed,
  and the process ends with status 0.
\<close>

theorem missing_files_abort:
  assumes "\<exists>f \<in> set csv_files. \<not> path_exists fs f"
  shows "ingest_to_db_main F fs =
           (fs, [MissingFiles (filter (\<lambda>f. \<not> path_exists fs f) csv_files), RunGenerateFirst],
            Inr ()) \<and>
         filter (\<lambda>f. \<not> path_exists fs f) csv_files \<noteq> [] \<and>
         exit_status (snd (snd (ingest_to_db_main F fs))) = 0"
proof -
  have "filter (\<lambda>f. \<not> path_exists fs f) csv_files \<noteq> []"
    using assms by (simp add: filter_empty_conv)
  then show ?thesis by (simp add: ingest_to_db_main_def Let_def exit_status_def)
qed

theorem missing_files_abort_witness:
  "ingest_to_db_main exact demo_files =
     (demo_files,
      [MissingFiles [''customers.csv'', ''products.csv'', ''order_items.csv'', ''reviews.csv''],
       RunGenerateFirst],
      Inr ()) \<and>
   ecom_db (fst (ingest_to_db_main exact demo_files)) = None"
proof -
  have m: "filter (\<lambda>f. \<not> path_exists demo_files f) csv_files =
     [''customers.csv'', ''products.csv'', ''order_items.csv'', ''reviews.csv'']"
    by (simp add: csv_files_def path_exists_def demo_files_def)
  then have "\<exists>f \<in> set csv_files. \<not> path_exists demo_files f"
    by (simp add: csv_files_def path_exists_def demo_files_def)
  from missing_files_abort [OF this, of exact] have
    "ingest_to_db_main exact demo_files =
       (demo_files,
        [MissingFiles [''customers.csv'', ''products.csv'', ''order_items.csv'', ''reviews.csv''],
         RunGenerateFirst],
        Inr ())"
    by (simp add: m)
  moreover have "ecom_db demo_files = None" by (simp add: demo_files_def)
  ultimately show ?thesis by simp
qed

lemma lower_char_cases:
  "lower_char c = CHR ''t'' \<longleftrightarrow> c = CHR ''t'' \<or> c = CHR ''T''"
  "lower_char c = CHR ''r'' \<longleftrightarrow> c = CHR ''r'' \<or> c = CHR ''R''"
  "lower_char c = CHR ''u'' \<longleftrightarrow> c = CHR ''u'' \<or> c = CHR ''U''"
  "lower_char c = CHR ''e'' \<longleftrightarrow> c = CHR ''e'' \<or> c = CHR ''E''"
  by (auto simp: lower_char_def split: if_splits)

lemma lower_true:
  "lower s = ''true'' \<longleftrightarrow>
     (\<exists>a b c d. s = [a, b, c, d] \<and> a \<in> {CHR ''t'', CHR ''T''} \<and> b \<in> {CHR ''r'', CHR ''R''} \<and>
        c \<in> {CHR ''u'', CHR ''U''} \<and> d \<in> {CHR ''e'', CHR ''E''})"
proof -
  have "lower s = ''true'' \<longleftrightarrow>
      (\<exists>a b c d. s = [a, b, c, d] \<and> lower_char a = CHR ''t'' \<and> lower_char b = CHR ''r'' \<and>
         lower_char c = CHR ''u'' \<and> lower_char d = CHR ''e'')"
    unfolding lower_def by (auto simp: map_eq_Cons_conv)
  then show ?thesis by (simp add: lower_char_cases)
qed

text \<open>
  Claim C10. The stored \<^verbatim>\<open>verified_purchase\<close> is 1 when the text in lower case is
  \<^verbatim>\<open>true\<close>, that is when it is one of the sixteen spellings of these four letters, and
  0 for every other text. The coercion has no failing case: a row converts whenever
  its four integer columns do, whatever the text of \<^verbatim>\<open>verified_purchase\<close> is.
\<close>

theorem verified_purchase_coercion:
  "verified_of s \<in> {0, 1} \<and>
   (verified_of s = 1 \<longleftrightarrow> lower s = ''true'') \<and>
   (verified_of s = 0 \<longleftrightarrow> lower s \<noteq> ''true'') \<and>
   (lower s = ''true'' \<longleftrightarrow>
     (\<exists>a b c d. s = [a, b, c, d] \<and> a \<in> {CHR ''t'', CHR ''T''} \<and> b \<in> {CHR ''r'', CHR ''R''} \<and>
        c \<in> {CHR ''u'', CHR ''U''} \<and> d \<in> {CHR ''e'', CHR ''E''})) \<and>
   (\<forall>row review_id product_id customer_id rating.
      r_verified_purchase row = s \<longrightarrow>
      py_int (r_review_id row) = Inr review_id \<longrightarrow> py_int (r_product_id row) = Inr product_id \<longrightarrow>
      py_int (r_customer_id row) = Inr customer_id \<longrightarrow> py_int (r_rating row) = Inr rating \<longrightarrow>
      review_of_row row =
        Inr (review_id, product_id, customer_id, rating, r_review_text row, r_review_date row,
             if lower s = ''true'' then 1 else 0))"
  by (simp add: verified_of_def review_of_row_def lower_true)

theorem verified_purchase_coercion_witness:
  "verified_of ''True'' = 1 \<and> verified_of ''TRUE'' = 1 \<and> verified_of ''False'' = 0 \<and>
   verified_of '''' = 0 \<and> verified_of ''maybe'' = 0 \<and> verified_of '' true'' = 0 \<and>
   review_of_row demo_review = Inr (1, 2, 1, 5, ''Works well.'', ''2024-07-04'', 0)"
proof -
  have l: "lower ''True'' = ''true''" "lower ''TRUE'' = ''true''" "lower ''False'' \<noteq> ''true''"
    "lower '''' \<noteq> ''true''" "lower ''maybe'' \<noteq> ''true''" "lower '' true'' \<noteq> ''true''"
    by (simp_all add: lower_def lower_char_def)
  have p: "py_int ''1'' = Inr 1" "py_int ''2'' = Inr 2" "py_int ''5'' = Inr 5"
    by (simp_all add: int_defs)
  have "review_of_row demo_review = Inr (1, 2, 1, 5, ''Works well.'', ''2024-07-04'', 0)"
    using verified_purchase_coercion [of "''maybe''"] l p
    by (simp add: demo_review_def)
  then show ?thesis
    using verified_purchase_coercion [of "''True''"] verified_purchase_coercion [of "''TRUE''"]
      verified_purchase_coercion [of "''False''"] verified_purchase_coercion [of "''''"]
      verified_purchase_coercion [of "''maybe''"] verified_purchase_coercion [of "'' true''"] l
    by simp
qed

section \<open>Products\<close>

lemma map_st_all2:
  "map_st f xs s = Inr (ys, s') \<Longrightarrow> list_all2 (\<lambda>x y. \<exists>t t'. f x t = Inr (y, t')) xs ys"
proof (induction xs arbitrary: s ys)
  case Nil
  then show ?case by simp
next
  case (Cons x xs)
  from Cons.prems obtain y s1 zs where
    fx: "f x s = Inr (y, s1)" and rest: "map_st f xs s1 = Inr (zs, s')" and ys: "ys = y # zs"
    by (auto split: sum.splits prod.splits)
  show ?case using fx Cons.IH [OF rest] ys by auto
qed

lemma round_half_even_close: "\<bar>of_int (round_half_even x) - x\<bar> \<le> 1 / 2"
proof -
  have "of_int \<lfloor>x\<rfloor> \<le> x" "x < of_int \<lfloor>x\<rfloor> + 1" by linarith+
  then show ?thesis by (auto simp: round_half_even_def Let_def)
qed

lemma exact_round2_close: "\<bar>exact_round2 x - x\<bar> \<le> 1 / 200"
proof -
  have "\<bar>of_int (round_half_even (x * 100)) - x * 100\<bar> \<le> 1 / 2" by (rule round_half_even_close)
  then show ?thesis by (simp add: exact_round2_def abs_le_iff field_simps)
qed

lemma exact_random_range: "0 \<le> exact_random n" "exact_random n < 1"
proof -
  show "0 \<le> exact_random n" by (simp add: exact_random_def)
  have "n mod 2 ^ 53 < 2 ^ 53" by simp
  then have "(of_nat (n mod 2 ^ 53) :: rat) < of_nat (2 ^ 53)" by (simp only: of_nat_less_iff)
  then show "exact_random n < 1" by (simp add: exact_random_def)
qed

lemma accurateD:
  assumes "accurate F val e"
  shows "0 \<le> e" "e \<le> 1 / 100"
    and "0 \<le> val (frandom F n)" "val (frandom F n) \<le> 1"
    and "\<bar>q\<bar> \<le> 1000 \<Longrightarrow> \<bar>val (flt F q) - q\<bar> \<le> e"
    and "\<bar>val a\<bar> \<le> 1000 \<Longrightarrow> \<bar>val b\<bar> \<le> 1000 \<Longrightarrow> \<bar>val (fadd F a b) - (val a + val b)\<bar> \<le> e"
    and "\<bar>val a\<bar> \<le> 1000 \<Longrightarrow> \<bar>val b\<bar> \<le> 1000 \<Longrightarrow> \<bar>val (fsub F a b) - (val a - val b)\<bar> \<le> e"
    and "\<bar>val a\<bar> \<le> 1000 \<Longrightarrow> \<bar>val b\<bar> \<le> 1000 \<Longrightarrow> \<bar>val (fmul F a b) - val a * val b\<bar> \<le> e"
    and "\<bar>val x\<bar> \<le> 1000 \<Longrightarrow> \<bar>val (round2 F x) - val x\<bar> \<le> 1 / 200 + e"
  using assms unfolding accurate_def by blast+

lemma exact_accurate: "accurate exact (\<lambda>x. x) 0"
  unfolding accurate_def exact_simps
  using exact_random_range exact_round2_close by (simp add: less_imp_le)

lemma uniform_val:
  assumes acc: "accurate F val e"
    and ab: "0 \<le> a" "a + 1 / 10 \<le> b" "b \<le> 500"
  shows "a - 3 * e \<le> val (fst (uniform F (flt F a) (flt F b) g))"
    and "val (fst (uniform F (flt F a) (flt F b) g)) \<le> b + 6 * e"
proof -
  note e = accurateD(1,2) [OF acc]
  let ?r = "frandom F (shd g)"
  let ?d = "fsub F (flt F b) (flt F a)"
  let ?m = "fmul F ?d ?r"
  have r: "0 \<le> val ?r" "val ?r \<le> 1" by (rule accurateD(3,4) [OF acc])+
  have "\<bar>a\<bar> \<le> 1000" "\<bar>b\<bar> \<le> 1000" using ab by simp_all
  then have "\<bar>val (flt F a) - a\<bar> \<le> e" "\<bar>val (flt F b) - b\<bar> \<le> e"
    using accurateD(5) [OF acc] by blast+
  then have la: "a - e \<le> val (flt F a)" "val (flt F a) \<le> a + e"
    and lb: "b - e \<le> val (flt F b)" "val (flt F b) \<le> b + e"
    by (simp_all only: abs_le_iff) linarith+
  have ra: "\<bar>val (flt F a)\<bar> \<le> 1000" and rb: "\<bar>val (flt F b)\<bar> \<le> 1000"
    using la lb ab e by (simp_all only: abs_le_iff) linarith+
  have "\<bar>val ?d - (val (flt F b) - val (flt F a))\<bar> \<le> e"
    by (rule accurateD(7) [OF acc rb ra])
  then have d: "b - a - 3 * e \<le> val ?d" "val ?d \<le> b - a + 3 * e"
    using la lb by (simp_all only: abs_le_iff) linarith+
  have d0: "0 \<le> val ?d" using d(1) ab e by linarith
  have rd: "\<bar>val ?d\<bar> \<le> 1000" using d d0 ab e by (simp only: abs_le_iff) linarith
  have rr: "\<bar>val ?r\<bar> \<le> 1000" using r by (simp only: abs_le_iff) linarith
  have p0: "0 \<le> val ?d * val ?r" using d0 r(1) by (rule mult_nonneg_nonneg)
  have "val ?d * val ?r \<le> val ?d * 1" using r(2) d0 by (rule mult_left_mono)
  then have p1: "val ?d * val ?r \<le> val ?d" by simp
  have "\<bar>val ?m - val ?d * val ?r\<bar> \<le> e" by (rule accurateD(8) [OF acc rd rr])
  then have m: "- e \<le> val ?m" "val ?m \<le> b - a + 4 * e"
    using p0 p1 d by (simp_all only: abs_le_iff) linarith+
  have rm: "\<bar>val ?m\<bar> \<le> 1000" using m ab e by (simp only: abs_le_iff) linarith
  have "\<bar>val (fadd F (flt F a) ?m) - (val (flt F a) + val ?m)\<bar> \<le> e"
    by (rule accurateD(6) [OF acc ra rm])
  then have "a - 3 * e \<le> val (fadd F (flt F a) ?m)" "val (fadd F (flt F a) ?m) \<le> b + 6 * e"
    using la m by (simp_all only: abs_le_iff) linarith+
  then show "a - 3 * e \<le> val (fst (uniform F (flt F a) (flt F b) g))"
    and "val (fst (uniform F (flt F a) (flt F b) g)) \<le> b + 6 * e"
    by (simp_all add: uniform_def random_def)
qed

lemma product_row_cost:
  assumes "product_row F fake i st = Inr (p, st')"
  shows "\<exists>g g'. gp_price p = round2 F (fst (uniform F (flt F 10) (flt F 500) g)) \<and>
           gp_cost p =
             round2 F (fmul F (gp_price p) (fst (uniform F (flt F (3 / 10)) (flt F (7 / 10)) g')))"
proof -
  obtain g k where st: "st = (g, k)" by (cases st)
  let ?u = "uniform F (flt F 10) (flt F 500) g"
  let ?v = "uniform F (flt F (3 / 10)) (flt F (7 / 10)) (snd ?u)"
  have "gp_price p = round2 F (fst ?u) \<and>
        gp_cost p = round2 F (fmul F (gp_price p) (fst ?v))"
    using assms unfolding st
    by (auto simp: product_row_def Let_def split: prod.splits sum.splits)
  then show ?thesis by blast
qed

lemma cost_val:
  assumes acc: "accurate F val e"
    and price: "price = round2 F (fst (uniform F (flt F 10) (flt F 500) g))"
    and factor: "factor = fst (uniform F (flt F (3 / 10)) (flt F (7 / 10)) g')"
    and cost: "cost = round2 F (fmul F price factor)"
  shows "3 / 10 - 3 * e \<le> val factor \<and> val factor \<le> 7 / 10 + 6 * e \<and>
         \<bar>val cost - val price * val factor\<bar> \<le> 1 / 200 + 2 * e \<and>
         3 / 10 * val price - (1 / 200 + 3008 * e) \<le> val cost \<and>
         val cost \<le> 7 / 10 * val price + (1 / 200 + 3008 * e)"
proof -
  note e = accurateD(1,2) [OF acc]
  let ?u = "fst (uniform F (flt F 10) (flt F 500) g)"
  have u: "10 - 3 * e \<le> val ?u" "val ?u \<le> 500 + 6 * e"
    by (rule uniform_val [OF acc]; simp)+
  have ru: "\<bar>val ?u\<bar> \<le> 1000" using u e by (simp only: abs_le_iff) linarith
  have "\<bar>val price - val ?u\<bar> \<le> 1 / 200 + e"
    unfolding price by (rule accurateD(9) [OF acc ru])
  then have P: "9 \<le> val price" "val price \<le> 501"
    using u e by (simp_all only: abs_le_iff) linarith+
  have f: "3 / 10 - 3 * e \<le> val factor" "val factor \<le> 7 / 10 + 6 * e"
    unfolding factor by (rule uniform_val [OF acc]; simp)+
  have f01: "0 \<le> val factor" "val factor \<le> 1" using f e by linarith+
  have rP: "\<bar>val price\<bar> \<le> 1000" using P by (simp only: abs_le_iff) linarith
  have rf: "\<bar>val factor\<bar> \<le> 1000" using f01 by (simp only: abs_le_iff) linarith
  let ?x = "fmul F price factor"
  have x: "\<bar>val ?x - val price * val factor\<bar> \<le> e" by (rule accurateD(8) [OF acc rP rf])
  have P0: "0 \<le> val price" using P(1) by linarith
  have pf0: "0 \<le> val price * val factor" using P0 f01(1) by (rule mult_nonneg_nonneg)
  have "val price * val factor \<le> val price * 1" using f01(2) P0 by (rule mult_left_mono)
  then have pf1: "val price * val factor \<le> 501" using P(2) by simp
  have rx: "\<bar>val ?x\<bar> \<le> 1000" using x pf0 pf1 e by (simp only: abs_le_iff) linarith
  have c: "\<bar>val cost - val ?x\<bar> \<le> 1 / 200 + e"
    unfolding cost by (rule accurateD(9) [OF acc rx])
  have close: "\<bar>val cost - val price * val factor\<bar> \<le> 1 / 200 + 2 * e"
    using c x by (simp only: abs_le_iff) linarith
  have "val price * (3 / 10 - 3 * e) \<le> val price * val factor"
    using f(1) P0 by (rule mult_left_mono)
  then have lo1: "3 / 10 * val price - 3 * (e * val price) \<le> val price * val factor"
    by (simp add: algebra_simps)
  have "val price * val factor \<le> val price * (7 / 10 + 6 * e)"
    using f(2) P0 by (rule mult_left_mono)
  then have hi1: "val price * val factor \<le> 7 / 10 * val price + 6 * (e * val price)"
    by (simp add: algebra_simps)
  have "e * val price \<le> e * 501" using P(2) e(1) by (rule mult_left_mono)
  then have eP: "e * val price \<le> 501 * e" by simp
  have "3 / 10 * val price - (1 / 200 + 3008 * e) \<le> val cost"
    "val cost \<le> 7 / 10 * val price + (1 / 200 + 3008 * e)"
    using close lo1 hi1 eP e by (simp_all only: abs_le_iff) linarith+
  then show ?thesis using f close by blast
qed

lemma product_row_total: "\<exists>p st'. product_row F fake i st = Inr (p, st')"
  by (simp add: product_row_def Let_def choice_def randint_def categories_def
      split: prod.splits)

lemma map_st_total:
  assumes "\<And>x s. \<exists>y s'. f x s = Inr (y, s')"
  shows "\<exists>ys s'. map_st f xs s = Inr (ys, s')"
proof (induction xs arbitrary: s)
  case Nil
  show ?case by simp
next
  case (Cons x xs)
  from assms obtain y s1 where fx: "f x s = Inr (y, s1)" by blast
  from Cons.IH obtain ys s2 where "map_st f xs s1 = Inr (ys, s2)" by blast
  then show ?case using fx by simp
qed

lemma floor_rat_numeral: "\<lfloor>numeral a / numeral b :: rat\<rfloor> = numeral a div numeral b"
  by (metis floor_divide_of_int_eq of_int_numeral)

lemma cheap_product_loop:
  "products_loop small_config exact demo_fake (2 ^ 37 ## 2 ^ 41 ## sconst 0, 0) =
     Inr ([cheap_product], sconst 0, 5)"
  by (simp add: products_loop_def small_config_def product_row_def uniform_def random_def
      choice_def randint_def categories_def exact_simps exact_round2_def round_half_even_def
      exact_random_def demo_fake_def str_nat.simps cheap_product_def Let_def upto.simps
      floor_rat_numeral)

text \<open>
  Claim C7, as the specification states it: the cost lies between 0.3 and 0.7 times
  the price. When \<^verbatim>\<open>random()\<close> returns 1/65536 and then 1/4096, the price is 10.01
  and the factor 0.30009765625; their product 3.00397... is rounded to the cost 3.00,
  below 0.3 times the price, which is 3.003.
\<close>

theorem cost_bounds_counterexample:
  "products_loop small_config exact demo_fake (2 ^ 37 ## 2 ^ 41 ## sconst 0, 0) =
     Inr ([cheap_product], sconst 0, 5) \<and>
   gp_price cheap_product = 1001 / 100 \<and> gp_cost cheap_product = 3 \<and>
   gp_cost cheap_product < 3 / 10 * gp_price cheap_product"
  using cheap_product_loop by (simp add: cheap_product_def)

text \<open>
  Claim C7, amended. \<^verbatim>\<open>generate_products\<close> always returns, and the cost of every
  product is \<^verbatim>\<open>round(price * factor, 2)\<close> for the factor that
  \<^verbatim>\<open>random.uniform(0.3, 0.7)\<close> drew. This holds for every interpretation \<open>F\<close> of the
  float operations. When the operations of \<open>F\<close> are accurate to \<open>e\<close>, the factor lies
  between \<open>0.3 - 3 * e\<close> and \<open>0.7 + 6 * e\<close>, the cost is within \<open>0.005 + 2 * e\<close> of price
  times factor, and
  \<open>0.3 * price - (0.005 + 3008 * e) \<le> cost \<le> 0.7 * price + (0.005 + 3008 * e)\<close>:
  the rounding to cents can put the cost up to half a cent, and the error of the float
  operations, outside 0.3 to 0.7 times the price.
\<close>

theorem cost_is_rounded_fraction_of_price:
  "(\<exists>ps st'. products_loop cfg F fake st = Inr (ps, st')) \<and>
   (\<forall>ps st'. products_loop cfg F fake st = Inr (ps, st') \<longrightarrow>
      (\<forall>p \<in> set ps.
         \<exists>factor g. factor = fst (uniform F (flt F (3 / 10)) (flt F (7 / 10)) g) \<and>
           gp_cost p = round2 F (fmul F (gp_price p) factor) \<and>
           (accurate F val e \<longrightarrow>
              3 / 10 - 3 * e \<le> val factor \<and> val factor \<le> 7 / 10 + 6 * e \<and>
              \<bar>val (gp_cost p) - val (gp_price p) * val factor\<bar> \<le> 1 / 200 + 2 * e \<and>
              3 / 10 * val (gp_price p) - (1 / 200 + 3008 * e) \<le> val (gp_cost p) \<and>
              val (gp_cost p) \<le> 7 / 10 * val (gp_price p) + (1 / 200 + 3008 * e))))"
proof (intro conjI allI impI ballI)
  show "\<exists>ps st'. products_loop cfg F fake st = Inr (ps, st')"
    unfolding products_loop_def by (rule map_st_total) (rule product_row_total)
next
  fix ps st' p
  assume loop: "products_loop cfg F fake st = Inr (ps, st')" and p: "p \<in> set ps"
  have "list_all2 (\<lambda>i p. \<exists>t t'. product_row F fake i t = Inr (p, t'))
      [1 .. NUM_PRODUCTS cfg] ps"
    using loop unfolding products_loop_def by (rule map_st_all2)
  with p obtain i t t' where "product_row F fake i t = Inr (p, t')"
    by (auto simp: list_all2_conv_all_nth in_set_conv_nth)
  from product_row_cost [OF this] obtain g g' where
    price: "gp_price p = round2 F (fst (uniform F (flt F 10) (flt F 500) g))"
    and cost: "gp_cost p =
      round2 F (fmul F (gp_price p) (fst (uniform F (flt F (3 / 10)) (flt F (7 / 10)) g')))"
    by blast
  let ?f = "fst (uniform F (flt F (3 / 10)) (flt F (7 / 10)) g')"
  have "accurate F val e \<longrightarrow>
      3 / 10 - 3 * e \<le> val ?f \<and> val ?f \<le> 7 / 10 + 6 * e \<and>
      \<bar>val (gp_cost p) - val (gp_price p) * val ?f\<bar> \<le> 1 / 200 + 2 * e \<and>
      3 / 10 * val (gp_price p) - (1 / 200 + 3008 * e) \<le> val (gp_cost p) \<and>
      val (gp_cost p) \<le> 7 / 10 * val (gp_price p) + (1 / 200 + 3008 * e)"
    using cost_val [OF _ price refl cost] by blast
  with cost show "\<exists>factor g. factor = fst (uniform F (flt F (3 / 10)) (flt F (7 / 10)) g) \<and>
           gp_cost p = round2 F (fmul F (gp_price p) factor) \<and>
           (accurate F val e \<longrightarrow>
              3 / 10 - 3 * e \<le> val factor \<and> val factor \<le> 7 / 10 + 6 * e \<and>
              \<bar>val (gp_cost p) - val (gp_price p) * val factor\<bar> \<le> 1 / 200 + 2 * e \<and>
              3 / 10 * val (gp_price p) - (1 / 200 + 3008 * e) \<le> val (gp_cost p) \<and>
              val (gp_cost p) \<le> 7 / 10 * val (gp_price p) + (1 / 200 + 3008 * e))"
    by blast
qed

theorem cost_is_rounded_fraction_of_price_witness:
  "products_loop small_config exact demo_fake (2 ^ 37 ## 2 ^ 41 ## sconst 0, 0) =
     Inr ([cheap_product], sconst 0, 5) \<and>
   accurate exact (\<lambda>x. x) 0 \<and>
   (\<exists>factor. 3 / 10 \<le> factor \<and> factor \<le> 7 / 10 \<and>
      gp_cost cheap_product = round2 exact (fmul exact (gp_price cheap_product) factor) \<and>
      \<bar>gp_cost cheap_product - gp_price cheap_product * factor\<bar> \<le> 1 / 200) \<and>
   3 / 10 * gp_price cheap_product - 1 / 200 \<le> gp_cost cheap_product \<and>
   gp_cost cheap_product \<le> 7 / 10 * gp_price cheap_product + 1 / 200"
proof -
  have "\<forall>p \<in> set [cheap_product].
         \<exists>factor g. factor = fst (uniform exact (flt exact (3 / 10)) (flt exact (7 / 10)) g) \<and>
           gp_cost p = round2 exact (fmul exact (gp_price p) factor) \<and>
           (accurate exact (\<lambda>x. x) 0 \<longrightarrow>
              3 / 10 - 3 * 0 \<le> factor \<and> factor \<le> 7 / 10 + 6 * 0 \<and>
              \<bar>gp_cost p - gp_price p * factor\<bar> \<le> 1 / 200 + 2 * 0 \<and>
              3 / 10 * gp_price p - (1 / 200 + 3008 * 0) \<le> gp_cost p \<and>
              gp_cost p \<le> 7 / 10 * gp_price p + (1 / 200 + 3008 * 0))"
    using cost_is_rounded_fraction_of_price
      [of small_config exact demo_fake "(2 ^ 37 ## 2 ^ 41 ## sconst 0, 0)" "\<lambda>x. x" 0]
      cheap_product_loop by blast
  then show ?thesis using cheap_product_loop exact_accurate by auto
qed

section \<open>References\<close>

lemma choice_in: "choice xs g = Inr (x, g') \<Longrightarrow> x \<in> set xs"
  by (auto simp: choice_def split: if_splits)

lemma customer_row_id: "customer_row fake i k = Inr (c, k') \<Longrightarrow> gc_customer_id c = i"
  by (auto simp: customer_row_def case_prod_beta)

lemma product_row_id: "product_row F fake i st = Inr (p, st') \<Longrightarrow> gp_product_id p = i"
  by (auto simp: product_row_def Let_def case_prod_beta split: sum.splits)

lemma order_row_ids:
  "order_row F fake customer_ids i st = Inr (ord, st') \<Longrightarrow>
   go_order_id ord = i \<and> go_customer_id ord \<in> set customer_ids"
  by (auto simp: order_row_def case_prod_beta split: sum.splits dest: choice_in)

lemma review_row_ids:
  "review_row fake customer_ids product_ids i st = Inr (r, st') \<Longrightarrow>
   gr_customer_id r \<in> set customer_ids \<and> gr_product_id r \<in> set product_ids"
  by (auto simp: review_row_def case_prod_beta split: sum.splits dest: choice_in)

lemma all2_map_eq:
  "list_all2 (\<lambda>x y. h y = x) xs ys \<Longrightarrow> map h ys = xs"
  by (induction xs ys rule: list_all2_induct) auto

lemma all2_all:
  "list_all2 (\<lambda>x y. P y) xs ys \<Longrightarrow> \<forall>y \<in> set ys. P y"
  by (induction xs ys rule: list_all2_induct) auto

lemma customers_loop_ids:
  assumes "customers_loop cfg fake k = Inr (cs, k')"
  shows "map gc_customer_id cs = [1 .. NUM_CUSTOMERS cfg]"
proof -
  have "list_all2 (\<lambda>i c. \<exists>t t'. customer_row fake i t = Inr (c, t')) [1 .. NUM_CUSTOMERS cfg] cs"
    using assms unfolding customers_loop_def by (rule map_st_all2)
  then have "list_all2 (\<lambda>i c. gc_customer_id c = i) [1 .. NUM_CUSTOMERS cfg] cs"
    by (rule list_all2_mono) (auto dest: customer_row_id)
  then show ?thesis by (rule all2_map_eq)
qed

lemma products_loop_ids:
  assumes "products_loop cfg F fake st = Inr (ps, st')"
  shows "map gp_product_id ps = [1 .. NUM_PRODUCTS cfg]"
proof -
  have "list_all2 (\<lambda>i p. \<exists>t t'. product_row F fake i t = Inr (p, t')) [1 .. NUM_PRODUCTS cfg] ps"
    using assms unfolding products_loop_def by (rule map_st_all2)
  then have "list_all2 (\<lambda>i p. gp_product_id p = i) [1 .. NUM_PRODUCTS cfg] ps"
    by (rule list_all2_mono) (auto dest: product_row_id)
  then show ?thesis by (rule all2_map_eq)
qed

lemma orders_loop_ids:
  assumes "orders_loop cfg F fake customer_ids st = Inr (os, st')"
  shows "map go_order_id os = [1 .. NUM_ORDERS cfg]"
    and "\<forall>ord \<in> set os. go_customer_id ord \<in> set customer_ids"
proof -
  have a: "list_all2 (\<lambda>i ord. \<exists>t t'. order_row F fake customer_ids i t = Inr (ord, t'))
      [1 .. NUM_ORDERS cfg] os"
    using assms unfolding orders_loop_def by (rule map_st_all2)
  then have "list_all2 (\<lambda>i ord. go_order_id ord = i) [1 .. NUM_ORDERS cfg] os"
    by (rule list_all2_mono) (auto dest: order_row_ids)
  then show "map go_order_id os = [1 .. NUM_ORDERS cfg]" by (rule all2_map_eq)
  from a have "list_all2 (\<lambda>i ord. go_customer_id ord \<in> set customer_ids) [1 .. NUM_ORDERS cfg] os"
    by (rule list_all2_mono) (auto dest: order_row_ids)
  then show "\<forall>ord \<in> set os. go_customer_id ord \<in> set customer_ids" by (rule all2_all)
qed

lemma reviews_loop_ids:
  assumes "reviews_loop cfg fake customer_ids product_ids st = Inr (rs, st')"
  shows "\<forall>r \<in> set rs. gr_customer_id r \<in> set customer_ids \<and> gr_product_id r \<in> set product_ids"
proof -
  have "list_all2 (\<lambda>i r. \<exists>t t'. review_row fake customer_ids product_ids i t = Inr (r, t'))
      [1 .. NUM_REVIEWS cfg] rs"
    using assms unfolding reviews_loop_def by (rule map_st_all2)
  then have "list_all2 (\<lambda>i r. gr_customer_id r \<in> set customer_ids \<and> gr_product_id r \<in> set product_ids)
      [1 .. NUM_REVIEWS cfg] rs"
    by (rule list_all2_mono) (auto dest: review_row_ids)
  then show ?thesis by (rule all2_all)
qed

lemma order_step_ids:
  assumes "order_step F pids oid (its, tot, g) = Inr (its', tot', g')"
    and "\<forall>it \<in> set its. P (gi_order_id it) \<and> gi_product_id it \<in> set pids"
    and "P oid"
  shows "\<forall>it \<in> set its'. P (gi_order_id it) \<and> gi_product_id it \<in> set pids"
proof -
  obtain block t2 g2 where
    s: "order_step F pids oid (its, tot, g) = Inr (its @ block, t2, g2)"
    and b: "block_ok pids oid block"
    using order_step_block [of F pids oid its tot g] by blast
  from s assms(1) have its': "its' = its @ block" by simp
  have blk: "\<forall>it \<in> set block. gi_order_id it = oid \<and> gi_product_id it \<in> set pids"
    using b unfolding block_ok_def list_all_iff by auto
  show ?thesis
  proof
    fix it assume "it \<in> set its'"
    then consider "it \<in> set its" | "it \<in> set block" unfolding its' by auto
    then show "P (gi_order_id it) \<and> gi_product_id it \<in> set pids"
    proof cases
      case 1
      then show ?thesis using assms(2) by blast
    next
      case 2
      then show ?thesis using blk assms(3) by simp
    qed
  qed
qed

lemma order_items_loop_ids:
  assumes "order_items_loop F oids pids g = Inr (its, tot, g')"
  shows "\<forall>it \<in> set its. gi_order_id it \<in> set oids \<and> gi_product_id it \<in> set pids"
proof -
  let ?I = "\<lambda>(a, b, c). \<forall>it \<in> set a. gi_order_id it \<in> set oids \<and> gi_product_id it \<in> set pids"
  have "?I (its, tot, g')"
  proof (rule fold_err_inv [OF assms [unfolded order_items_loop_def]])
    show "?I ([], Map.empty, g)" by simp
  next
    fix x t t'
    assume x: "x \<in> set oids" and i: "?I t" and s: "order_step F pids x t = Inr t'"
    obtain a b c where t: "t = (a, b, c)" by (cases t)
    obtain a' b' c' where t': "t' = (a', b', c')" by (cases t')
    have "\<forall>it \<in> set a. gi_order_id it \<in> set oids \<and> gi_product_id it \<in> set pids"
      using i unfolding t by simp
    from order_step_ids [OF s [unfolded t t'], where P = "\<lambda>k. k \<in> set oids", OF this x]
    show "?I t'" unfolding t' by simp
  qed
  then show ?thesis by simp
qed

lemma update_row_keys:
  assumes "update_row F tot r = Inr r'"
  shows "o_order_id r' = o_order_id r \<and> o_customer_id r' = o_customer_id r"
proof (cases "py_int (o_order_id r)")
  case (Inl e)
  then show ?thesis using assms by (simp add: update_row_def)
next
  case (Inr oid)
  show ?thesis
  proof (cases "tot oid")
    case None
    from update_row_untouched [OF assms Inr None] show ?thesis by simp
  next
    case (Some t)
    from update_row_total [OF assms Inr Some] show ?thesis by auto
  qed
qed

lemma generate_data_main_Inr:
  assumes "generate_data_main cfg F fake fs (g, k) = Inr (fs', st')"
  shows "\<exists>cs k1 ps g2 k2 os g3 k3 its tot g4 rows' rs.
     customers_loop cfg fake k = Inr (cs, k1) \<and>
     products_loop cfg F fake (g, k1) = Inr (ps, g2, k2) \<and>
     orders_loop cfg F fake [1 .. NUM_CUSTOMERS cfg] (g2, k2) = Inr (os, g3, k3) \<and>
     order_items_loop F [1 .. NUM_ORDERS cfg] [1 .. NUM_PRODUCTS cfg] g3 = Inr (its, tot, g4) \<and>
     list_all2 (\<lambda>r r'. update_row F tot r = Inr r') (map (order_csv F) os) rows' \<and>
     reviews_loop cfg fake [1 .. NUM_CUSTOMERS cfg] [1 .. NUM_PRODUCTS cfg] (g4, k3) = Inr (rs, st') \<and>
     fs' = fs\<lparr>customers_csv := Some (map customer_csv cs),
             products_csv := Some (map (product_csv F) ps),
             orders_csv := Some rows',
             order_items_csv := Some (map (order_item_csv F) its),
             reviews_csv := Some (map review_csv rs)\<rparr>"
proof -
  from assms obtain fs1 k1 where
    gc: "generate_customers cfg fake fs k = Inr (fs1, k1)"
    by (auto simp: generate_data_main_def split: sum.splits)
  then obtain cs where cs: "customers_loop cfg fake k = Inr (cs, k1)"
    and fs1: "fs1 = fs\<lparr>customers_csv := Some (map customer_csv cs)\<rparr>"
    by (auto simp: generate_customers_def split: sum.splits)
  from assms gc obtain fs2 g2 k2 where
    gp: "generate_products cfg F fake fs1 (g, k1) = Inr (fs2, g2, k2)"
    by (auto simp: generate_data_main_def Let_def split: sum.splits)
  then obtain ps where ps: "products_loop cfg F fake (g, k1) = Inr (ps, g2, k2)"
    and fs2: "fs2 = fs1\<lparr>products_csv := Some (map (product_csv F) ps)\<rparr>"
    by (auto simp: generate_products_def split: sum.splits)
  from assms gc gp obtain fs3 g3 k3 where
    go: "generate_orders cfg F fake [1 .. NUM_CUSTOMERS cfg] fs2 (g2, k2) = Inr (fs3, g3, k3)"
    by (auto simp: generate_data_main_def Let_def split: sum.splits)
  then obtain os where os: "orders_loop cfg F fake [1 .. NUM_CUSTOMERS cfg] (g2, k2) = Inr (os, g3, k3)"
    and fs3: "fs3 = fs2\<lparr>orders_csv := Some (map (order_csv F) os)\<rparr>"
    by (auto simp: generate_orders_def split: sum.splits)
  from assms gc gp go obtain tot fs4 g4 where
    gi: "generate_order_items F [1 .. NUM_ORDERS cfg] [1 .. NUM_PRODUCTS cfg] fs3 g3 =
           Inr (tot, fs4, g4)"
    by (auto simp: generate_data_main_def Let_def split: sum.splits)
  from generate_order_items_Inr [OF gi] obtain its where
    its: "order_items_loop F [1 .. NUM_ORDERS cfg] [1 .. NUM_PRODUCTS cfg] g3 = Inr (its, tot, g4)"
    and upd: "update_order_totals F tot
                (fs3\<lparr>order_items_csv := Some (map (order_item_csv F) its)\<rparr>) = Inr fs4"
    by blast
  have "orders_csv (fs3\<lparr>order_items_csv := Some (map (order_item_csv F) its)\<rparr>) =
      Some (map (order_csv F) os)"
    by (simp add: fs3)
  from update_order_totals_rows [OF upd this] obtain rows' where
    fs4: "fs4 = fs3\<lparr>order_items_csv := Some (map (order_item_csv F) its),
                    orders_csv := Some rows'\<rparr>"
    and all2: "list_all2 (\<lambda>r r'. update_row F tot r = Inr r') (map (order_csv F) os) rows'"
    by blast
  from assms gc gp go gi have
    gr: "generate_reviews cfg fake [1 .. NUM_CUSTOMERS cfg] [1 .. NUM_PRODUCTS cfg] fs4 (g4, k3) =
           Inr (fs', st')"
    by (simp add: generate_data_main_def Let_def)
  then obtain rs where
    rs: "reviews_loop cfg fake [1 .. NUM_CUSTOMERS cfg] [1 .. NUM_PRODUCTS cfg] (g4, k3) = Inr (rs, st')"
    and fs': "fs' = fs4\<lparr>reviews_csv := Some (map review_csv rs)\<rparr>"
    by (auto simp: generate_reviews_def split: sum.splits)
  have "fs' = fs\<lparr>customers_csv := Some (map customer_csv cs),
             products_csv := Some (map (product_csv F) ps),
             orders_csv := Some rows',
             order_items_csv := Some (map (order_item_csv F) its),
             reviews_csv := Some (map review_csv rs)\<rparr>"
    by (simp add: fs' fs4 fs3 fs2 fs1)
  with cs ps os its all2 rs show ?thesis by blast
qed

lemma generated_references:
  assumes "generate_data_main cfg F fake fs (g, k) = Inr (fs', st')"
  shows "references_on_file fs'"
proof -
  from generate_data_main_Inr [OF assms] obtain cs k1 ps g2 k2 os g3 k3 its tot g4 rows' rs where
    cs: "customers_loop cfg fake k = Inr (cs, k1)"
    and ps: "products_loop cfg F fake (g, k1) = Inr (ps, g2, k2)"
    and os: "orders_loop cfg F fake [1 .. NUM_CUSTOMERS cfg] (g2, k2) = Inr (os, g3, k3)"
    and its: "order_items_loop F [1 .. NUM_ORDERS cfg] [1 .. NUM_PRODUCTS cfg] g3 = Inr (its, tot, g4)"
    and all2: "list_all2 (\<lambda>r r'. update_row F tot r = Inr r') (map (order_csv F) os) rows'"
    and rs: "reviews_loop cfg fake [1 .. NUM_CUSTOMERS cfg] [1 .. NUM_PRODUCTS cfg] (g4, k3) = Inr (rs, st')"
    and fs': "fs' = fs\<lparr>customers_csv := Some (map customer_csv cs),
             products_csv := Some (map (product_csv F) ps),
             orders_csv := Some rows',
             order_items_csv := Some (map (order_item_csv F) its),
             reviews_csv := Some (map review_csv rs)\<rparr>"
    by blast
  have "map c_customer_id (map customer_csv cs) = map py_str (map gc_customer_id cs)"
    by (simp add: customer_csv_def comp_def)
  then have cids: "map c_customer_id (map customer_csv cs) = map py_str [1 .. NUM_CUSTOMERS cfg]"
    using customers_loop_ids [OF cs] by simp
  have "map p_product_id (map (product_csv F) ps) = map py_str (map gp_product_id ps)"
    by (simp add: product_csv_def comp_def)
  then have pids: "map p_product_id (map (product_csv F) ps) = map py_str [1 .. NUM_PRODUCTS cfg]"
    using products_loop_ids [OF ps] by simp
  have keys: "list_all2 (\<lambda>r r'. o_order_id r' = o_order_id r \<and> o_customer_id r' = o_customer_id r)
      (map (order_csv F) os) rows'"
    using all2 by (rule list_all2_mono) (auto dest: update_row_keys)
  have oids: "map o_order_id rows' = map py_str [1 .. NUM_ORDERS cfg]"
  proof -
    have "map o_order_id rows' = map o_order_id (map (order_csv F) os)"
      using keys by (induction rule: list_all2_induct) auto
    also have "\<dots> = map py_str (map go_order_id os)" by (simp add: order_csv_def comp_def)
    finally show ?thesis using orders_loop_ids(1) [OF os] by simp
  qed
  have ocust: "map o_customer_id rows' = map py_str (map go_customer_id os)"
  proof -
    have "map o_customer_id rows' = map o_customer_id (map (order_csv F) os)"
      using keys by (induction rule: list_all2_induct) auto
    then show ?thesis by (simp add: order_csv_def comp_def)
  qed
  have a: "list_all (\<lambda>r. o_customer_id r \<in> set (map c_customer_id (map customer_csv cs))) rows'"
  proof -
    have "set (map o_customer_id rows') \<subseteq> py_str ` set [1 .. NUM_CUSTOMERS cfg]"
      unfolding ocust using orders_loop_ids(2) [OF os] by auto
    then show ?thesis unfolding cids by (auto simp: list_all_iff)
  qed
  have b: "list_all (\<lambda>r. i_order_id r \<in> set (map o_order_id rows') \<and>
                      i_product_id r \<in> set (map p_product_id (map (product_csv F) ps)))
             (map (order_item_csv F) its)"
    unfolding oids pids using order_items_loop_ids [OF its]
    by (auto simp: list_all_iff order_item_csv_def)
  have c: "list_all (\<lambda>r. r_customer_id r \<in> set (map c_customer_id (map customer_csv cs)) \<and>
                      r_product_id r \<in> set (map p_product_id (map (product_csv F) ps)))
             (map review_csv rs)"
    unfolding cids pids using reviews_loop_ids [OF rs]
    by (auto simp: list_all_iff review_csv_def)
  have f: "customers_csv fs' = Some (map customer_csv cs)"
    "products_csv fs' = Some (map (product_csv F) ps)"
    "orders_csv fs' = Some rows'"
    "order_items_csv fs' = Some (map (order_item_csv F) its)"
    "reviews_csv fs' = Some (map review_csv rs)"
    by (simp_all add: fs')
  show ?thesis
    unfolding references_on_file_def
    by (intro exI conjI) (rule f a b c)+
qed

lemma executemany_None:
  assumes "executemany ins ts db = (None, db')"
    and "\<And>t d d'. ins t d = Inr d' \<Longrightarrow> tbl d' = tbl d @ [st t] \<and> rest d' = rest d"
  shows "tbl db' = tbl db @ map st ts \<and> rest db' = rest db"
  using assms(1)
proof (induction ts arbitrary: db)
  case Nil
  then show ?case by simp
next
  case (Cons t ts)
  from Cons.prems obtain d1 where i: "ins t db = Inr d1" and r: "executemany ins ts d1 = (None, db')"
    by (auto split: sum.splits)
  from assms(2) [OF i] Cons.IH [OF r] show ?case by simp
qed

lemma insert_rows_None:
  assumes "insert_rows fn tb file of_row ins conn = (None, conn', out)"
  shows "\<exists>rows ts db'. file = Some rows \<and> map_err of_row rows = Inr ts \<and>
           executemany ins ts (txn conn) = (None, db') \<and> conn' = conn\<lparr>txn := db'\<rparr>"
  using assms
  by (auto simp: insert_rows_def split: option.splits sum.splits prod.splits)

lemma run_steps_None:
  assumes "run_steps (s # ss) c = (None, c', out)"
  shows "\<exists>c1 o1 o2. s c = (None, c1, o1) \<and> run_steps ss c1 = (None, c', o2) \<and> out = o1 @ o2"
  using assms by (auto split: prod.splits option.splits)

lemma insert_customers_None:
  assumes "insert_customers fs conn = (None, conn', out)"
  shows "\<exists>rows new. customers_csv fs = Some rows \<and>
           t_customers (txn conn') = t_customers (txn conn) @ new \<and>
           list_all2 (\<lambda>row t. py_int (c_customer_id row) = Inr (fst t)) rows new \<and>
           t_products (txn conn') = t_products (txn conn) \<and>
           t_orders (txn conn') = t_orders (txn conn) \<and>
           t_order_items (txn conn') = t_order_items (txn conn) \<and>
           t_reviews (txn conn') = t_reviews (txn conn)"
proof -
  from insert_rows_None [OF assms [unfolded insert_customers_def]] obtain rows ts db' where
    rows: "customers_csv fs = Some rows" and ts: "map_err customer_of_row rows = Inr ts"
    and ex: "executemany insert_customer ts (txn conn) = (None, db')"
    and conn': "conn' = conn\<lparr>txn := db'\<rparr>"
    by blast
  have "t_customers db' = t_customers (txn conn) @ map (\<lambda>t. t) ts \<and>
        (t_products db', t_orders db', t_order_items db', t_reviews db') =
        (t_products (txn conn), t_orders (txn conn), t_order_items (txn conn), t_reviews (txn conn))"
    by (rule executemany_None [OF ex, where st = "\<lambda>t. t"
          and rest = "\<lambda>d. (t_products d, t_orders d, t_order_items d, t_reviews d)"])
      (auto simp: insert_customer_def split: if_splits)
  moreover have "list_all2 (\<lambda>row t. py_int (c_customer_id row) = Inr (fst t)) rows ts"
    using map_err_Inr [OF ts]
    by (rule list_all2_mono) (auto simp: customer_of_row_def split: sum.splits)
  ultimately show ?thesis using rows conn' by simp
qed

lemma insert_products_None:
  assumes "insert_products F fs conn = (None, conn', out)"
  shows "\<exists>rows new. products_csv fs = Some rows \<and>
           t_products (txn conn') = t_products (txn conn) @ new \<and>
           list_all2 (\<lambda>row t. py_int (p_product_id row) = Inr (fst t)) rows new \<and>
           t_customers (txn conn') = t_customers (txn conn) \<and>
           t_orders (txn conn') = t_orders (txn conn) \<and>
           t_order_items (txn conn') = t_order_items (txn conn) \<and>
           t_reviews (txn conn') = t_reviews (txn conn)"
proof -
  from insert_rows_None [OF assms [unfolded insert_products_def]] obtain rows ts db' where
    rows: "products_csv fs = Some rows" and ts: "map_err (product_of_row F) rows = Inr ts"
    and ex: "executemany (insert_product F) ts (txn conn) = (None, db')"
    and conn': "conn' = conn\<lparr>txn := db'\<rparr>"
    by blast
  define st :: "'a product_params \<Rightarrow> 'a product_tuple" where
    "st = (\<lambda>(product_id, name, description, category, price, cost, stock_quantity, brand, sku,
            created_at).
          (product_id, name, description, category, bind_real F price, bind_real F cost,
           stock_quantity, brand, sku, created_at))"
  have "t_products db' = t_products (txn conn) @ map st ts \<and>
        (t_customers db', t_orders db', t_order_items db', t_reviews db') =
        (t_customers (txn conn), t_orders (txn conn), t_order_items (txn conn), t_reviews (txn conn))"
    by (rule executemany_None [OF ex, where st = st
          and rest = "\<lambda>d. (t_customers d, t_orders d, t_order_items d, t_reviews d)"])
      (auto simp: insert_product_def st_def split: if_splits)
  moreover have "list_all2 (\<lambda>row t. py_int (p_product_id row) = Inr (fst (st t))) rows ts"
    using map_err_Inr [OF ts]
    by (rule list_all2_mono) (auto simp: product_of_row_def st_def split: sum.splits)
  then have "list_all2 (\<lambda>row t. py_int (p_product_id row) = Inr (fst t)) rows (map st ts)"
    by (simp add: list_all2_map2)
  ultimately show ?thesis using rows conn' by simp
qed

lemma insert_orders_None:
  assumes "insert_orders F fs conn = (None, conn', out)"
  shows "\<exists>rows new. orders_csv fs = Some rows \<and>
           t_orders (txn conn') = t_orders (txn conn) @ new \<and>
           list_all2 (\<lambda>row t. py_int (o_order_id row) = Inr (fst t) \<and>
                        py_int (o_customer_id row) = Inr (order_customer t)) rows new \<and>
           t_customers (txn conn') = t_customers (txn conn) \<and>
           t_products (txn conn') = t_products (txn conn) \<and>
           t_order_items (txn conn') = t_order_items (txn conn) \<and>
           t_reviews (txn conn') = t_reviews (txn conn)"
proof -
  from insert_rows_None [OF assms [unfolded insert_orders_def]] obtain rows ts db' where
    rows: "orders_csv fs = Some rows" and ts: "map_err (order_of_row F) rows = Inr ts"
    and ex: "executemany (insert_order F) ts (txn conn) = (None, db')"
    and conn': "conn' = conn\<lparr>txn := db'\<rparr>"
    by blast
  define st :: "'a order_params \<Rightarrow> 'a order_tuple" where
    "st = (\<lambda>(order_id, customer_id, order_date, status, shipping_address, shipping_city,
            shipping_state, shipping_zip, shipping_cost, total_amount).
          (order_id, customer_id, order_date, status, shipping_address, shipping_city,
           shipping_state, shipping_zip, bind_real F shipping_cost, bind_real F total_amount))"
  have "t_orders db' = t_orders (txn conn) @ map st ts \<and>
        (t_customers db', t_products db', t_order_items db', t_reviews db') =
        (t_customers (txn conn), t_products (txn conn), t_order_items (txn conn), t_reviews (txn conn))"
    by (rule executemany_None [OF ex, where st = st
          and rest = "\<lambda>d. (t_customers d, t_products d, t_order_items d, t_reviews d)"])
      (auto simp: insert_order_def st_def split: if_splits)
  moreover have "list_all2 (\<lambda>row t. py_int (o_order_id row) = Inr (fst (st t)) \<and>
                        py_int (o_customer_id row) = Inr (order_customer (st t))) rows ts"
    using map_err_Inr [OF ts]
    by (rule list_all2_mono)
      (auto simp: order_of_row_def st_def order_customer_def split: sum.splits)
  then have "list_all2 (\<lambda>row t. py_int (o_order_id row) = Inr (fst t) \<and>
                        py_int (o_customer_id row) = Inr (order_customer t)) rows (map st ts)"
    by (simp add: list_all2_map2)
  ultimately show ?thesis using rows conn' by simp
qed

lemma insert_order_items_None:
  assumes "insert_order_items F fs conn = (None, conn', out)"
  shows "\<exists>rows new. order_items_csv fs = Some rows \<and>
           t_order_items (txn conn') = t_order_items (txn conn) @ new \<and>
           list_all2 (\<lambda>row t. py_int (i_order_id row) = Inr (item_order t) \<and>
                        py_int (i_product_id row) = Inr (item_product t)) rows new \<and>
           t_customers (txn conn') = t_customers (txn conn) \<and>
           t_products (txn conn') = t_products (txn conn) \<and>
           t_orders (txn conn') = t_orders (txn conn) \<and>
           t_reviews (txn conn') = t_reviews (txn conn)"
proof -
  from insert_rows_None [OF assms [unfolded insert_order_items_def]] obtain rows ts db' where
    rows: "order_items_csv fs = Some rows" and ts: "map_err (order_item_of_row F) rows = Inr ts"
    and ex: "executemany (insert_order_item F) ts (txn conn) = (None, db')"
    and conn': "conn' = conn\<lparr>txn := db'\<rparr>"
    by blast
  define st :: "'a order_item_params \<Rightarrow> 'a order_item_tuple" where
    "st = (\<lambda>(order_item_id, order_id, product_id, quantity, unit_price, subtotal).
          (order_item_id, order_id, product_id, quantity, bind_real F unit_price,
           bind_real F subtotal))"
  have "t_order_items db' = t_order_items (txn conn) @ map st ts \<and>
        (t_customers db', t_products db', t_orders db', t_reviews db') =
        (t_customers (txn conn), t_products (txn conn), t_orders (txn conn), t_reviews (txn conn))"
    by (rule executemany_None [OF ex, where st = st
          and rest = "\<lambda>d. (t_customers d, t_products d, t_orders d, t_reviews d)"])
      (auto simp: insert_order_item_def st_def split: if_splits)
  moreover have "list_all2 (\<lambda>row t. py_int (i_order_id row) = Inr (item_order (st t)) \<and>
                        py_int (i_product_id row) = Inr (item_product (st t))) rows ts"
    using map_err_Inr [OF ts]
    by (rule list_all2_mono)
      (auto simp: order_item_of_row_def st_def item_order_def item_product_def split: sum.splits)
  then have "list_all2 (\<lambda>row t. py_int (i_order_id row) = Inr (item_order t) \<and>
                        py_int (i_product_id row) = Inr (item_product t)) rows (map st ts)"
    by (simp add: list_all2_map2)
  ultimately show ?thesis using rows conn' by simp
qed

lemma insert_reviews_None:
  assumes "insert_reviews fs conn = (None, conn', out)"
  shows "\<exists>rows new. reviews_csv fs = Some rows \<and>
           t_reviews (txn conn') = t_reviews (txn conn) @ new \<and>
           list_all2 (\<lambda>row t. py_int (r_product_id row) = Inr (review_product t) \<and>
                        py_int (r_customer_id row) = Inr (review_customer t)) rows new \<and>
           t_customers (txn conn') = t_customers (txn conn) \<and>
           t_products (txn conn') = t_products (txn conn) \<and>
           t_orders (txn conn') = t_orders (txn conn) \<and>
           t_order_items (txn conn') = t_order_items (txn conn)"
proof -
  from insert_rows_None [OF assms [unfolded insert_reviews_def]] obtain rows ts db' where
    rows: "reviews_csv fs = Some rows" and ts: "map_err review_of_row rows = Inr ts"
    and ex: "executemany insert_review ts (txn conn) = (None, db')"
    and conn': "conn' = conn\<lparr>txn := db'\<rparr>"
    by blast
  have "t_reviews db' = t_reviews (txn conn) @ map (\<lambda>t. t) ts \<and>
        (t_customers db', t_products db', t_orders db', t_order_items db') =
        (t_customers (txn conn), t_products (txn conn), t_orders (txn conn), t_order_items (txn conn))"
    by (rule executemany_None [OF ex, where st = "\<lambda>t. t"
          and rest = "\<lambda>d. (t_customers d, t_products d, t_orders d, t_order_items d)"])
      (auto simp: insert_review_def split: if_splits)
  moreover have "list_all2 (\<lambda>row t. py_int (r_product_id row) = Inr (review_product t) \<and>
                        py_int (r_customer_id row) = Inr (review_customer t)) rows ts"
    using map_err_Inr [OF ts]
    by (rule list_all2_mono)
      (auto simp: review_of_row_def review_product_def review_customer_def Let_def
        split: sum.splits)
  ultimately show ?thesis using rows conn' by simp
qed

lemma insert_all_loaded:
  assumes "insert_all F fs conn = (None, conn', out)" and "txn conn = empty_database"
  shows "loaded fs (txn conn')"
proof -
  from run_steps_None [OF assms(1) [unfolded insert_all_def]] obtain c1 o1 p1 where
    s1: "insert_customers fs conn = (None, c1, o1)"
    and r1: "run_steps [insert_products F fs, insert_orders F fs, insert_order_items F fs,
               insert_reviews fs] c1 = (None, conn', p1)"
    by blast
  from run_steps_None [OF r1] obtain c2 o2 p2 where
    s2: "insert_products F fs c1 = (None, c2, o2)"
    and r2: "run_steps [insert_orders F fs, insert_order_items F fs, insert_reviews fs] c2 =
               (None, conn', p2)"
    by blast
  from run_steps_None [OF r2] obtain c3 o3 p3 where
    s3: "insert_orders F fs c2 = (None, c3, o3)"
    and r3: "run_steps [insert_order_items F fs, insert_reviews fs] c3 = (None, conn', p3)"
    by blast
  from run_steps_None [OF r3] obtain c4 o4 p4 where
    s4: "insert_order_items F fs c3 = (None, c4, o4)"
    and r4: "run_steps [insert_reviews fs] c4 = (None, conn', p4)"
    by blast
  from run_steps_None [OF r4] obtain c5 o5 p5 where
    s5: "insert_reviews fs c4 = (None, c5, o5)" and r5: "run_steps [] c5 = (None, conn', p5)"
    by blast
  from r5 have c5: "c5 = conn'" by simp
  have e: "t_customers (txn conn) = []" "t_products (txn conn) = []" "t_orders (txn conn) = []"
    "t_order_items (txn conn) = []" "t_reviews (txn conn) = []"
    by (simp_all add: assms(2) empty_database_def)
  from insert_customers_None [OF s1] obtain cs nc where
    cs: "customers_csv fs = Some cs" "t_customers (txn c1) = nc"
      "list_all2 (\<lambda>row t. py_int (c_customer_id row) = Inr (fst t)) cs nc"
    and k1: "t_products (txn c1) = []" "t_orders (txn c1) = []" "t_order_items (txn c1) = []"
      "t_reviews (txn c1) = []"
    by (auto simp: e)
  from insert_products_None [OF s2] obtain ps np where
    ps: "products_csv fs = Some ps" "t_products (txn c2) = np"
      "list_all2 (\<lambda>row t. py_int (p_product_id row) = Inr (fst t)) ps np"
    and k2: "t_customers (txn c2) = nc" "t_orders (txn c2) = []" "t_order_items (txn c2) = []"
      "t_reviews (txn c2) = []"
    by (auto simp: k1 cs(2))
  from insert_orders_None [OF s3] obtain os no where
    os: "orders_csv fs = Some os" "t_orders (txn c3) = no"
      "list_all2 (\<lambda>row t. py_int (o_order_id row) = Inr (fst t) \<and>
                    py_int (o_customer_id row) = Inr (order_customer t)) os no"
    and k3: "t_customers (txn c3) = nc" "t_products (txn c3) = np" "t_order_items (txn c3) = []"
      "t_reviews (txn c3) = []"
    by (auto simp: k2 ps(2))
  from insert_order_items_None [OF s4] obtain its ni where
    its: "order_items_csv fs = Some its" "t_order_items (txn c4) = ni"
      "list_all2 (\<lambda>row t. py_int (i_order_id row) = Inr (item_order t) \<and>
                    py_int (i_product_id row) = Inr (item_product t)) its ni"
    and k4: "t_customers (txn c4) = nc" "t_products (txn c4) = np" "t_orders (txn c4) = no"
      "t_reviews (txn c4) = []"
    by (auto simp: k3 os(2))
  from insert_reviews_None [OF s5] obtain rs nr where
    rs: "reviews_csv fs = Some rs" "t_reviews (txn c5) = nr"
      "list_all2 (\<lambda>row t. py_int (r_product_id row) = Inr (review_product t) \<and>
                    py_int (r_customer_id row) = Inr (review_customer t)) rs nr"
    and k5: "t_customers (txn c5) = nc" "t_products (txn c5) = np" "t_orders (txn c5) = no"
      "t_order_items (txn c5) = ni"
    by (auto simp: k4 its(2))
  show ?thesis
    unfolding loaded_def c5 [symmetric]
    using cs(1,3) ps(1,3) os(1,3) its(1,3) rs(1,3) by (simp add: k5 rs(2))
qed

lemma main_success:
  assumes "ingest_to_db_main F fs = (fs2, out, Inr ())"
    and "\<forall>f \<in> set csv_files. path_exists fs f"
  shows "\<exists>conn1 out1. insert_all F fs (fst (create_database fs)) = (None, conn1, out1) \<and>
           fs2 = fs\<lparr>ecom_db := Some (txn conn1)\<rparr> \<and>
           out = snd (create_database fs) @ [InsertingData] @ out1 @ [AllInserted] @
                 verify_data (commit conn1) @ [IngestionComplete]"
proof -
  have nm: "filter (\<lambda>f. \<not> path_exists fs f) csv_files = []"
    using assms(2) by (simp add: no_missing_files)
  obtain r c1 o1 where ia: "insert_all F fs (fst (create_database fs)) = (r, c1, o1)"
    by (cases "insert_all F fs (fst (create_database fs))")
  show ?thesis
  proof (cases r)
    case None
    then show ?thesis
      using assms(1) nm ia
      by (auto simp: ingest_to_db_main_def Let_def commit_def split: prod.splits)
  next
    case (Some e)
    then show ?thesis
      using assms(1) nm ia by (simp add: ingest_to_db_main_def Let_def split: prod.splits)
  qed
qed

lemma verify_data_verdict:
  "ConstraintsValid \<in> set (verify_data conn) \<longleftrightarrow>
     list_all (\<lambda>ord. order_customer ord \<in> set (map fst (t_customers (txn conn))))
       (t_orders (txn conn)) \<and>
     list_all (\<lambda>oi. item_order oi \<in> set (map fst (t_orders (txn conn))) \<and>
                   item_product oi \<in> set (map fst (t_products (txn conn))))
       (t_order_items (txn conn))"
  by (auto simp: verify_data_def Let_def orphan_orders_def orphan_items_def
      invalid_products_def filter_empty_conv list_all_iff)

lemma no_orphans:
  assumes "\<forall>x \<in> set xs. ref x \<in> set (map key ys)"
  shows "length (filter (\<lambda>x. ref x \<notin> set (map key ys)) xs) = 0"
  using assms by (simp add: filter_empty_conv)

lemma resolved:
  assumes refs: "list_all (\<lambda>r. a r \<in> set (map b targets)) rows"
    and rows: "list_all2 (\<lambda>row t. py_int (a row) = Inr (ref t)) rows ts"
    and targets: "list_all2 (\<lambda>row t. py_int (b row) = Inr (key t)) targets us"
  shows "\<forall>t \<in> set ts. ref t \<in> set (map key us)"
proof
  fix t assume "t \<in> set ts"
  then obtain n where n: "n < length ts" and t: "t = ts ! n" by (auto simp: in_set_conv_nth)
  have len: "length rows = length ts" using rows by (rule list_all2_lengthD)
  have p: "py_int (a (rows ! n)) = Inr (ref t)"
    using list_all2_nthD2 [OF rows n] t by simp
  have "rows ! n \<in> set rows" using n len by simp
  then have "a (rows ! n) \<in> set (map b targets)" using refs by (simp add: list_all_iff)
  then obtain m where m: "m < length targets" and eq: "a (rows ! n) = b (targets ! m)"
    by (auto simp: in_set_conv_nth)
  have q: "py_int (b (targets ! m)) = Inr (key (us ! m))"
    using list_all2_nthD [OF targets m] by simp
  have "m < length us" using m targets by (simp add: list_all2_lengthD)
  then have "key (us ! m) \<in> set (map key us)" by simp
  moreover have "ref t = key (us ! m)" using p q eq by simp
  ultimately show "ref t \<in> set (map key us)" by simp
qed

lemma loaded_references:
  assumes "references_on_file fs" and "loaded fs db"
  shows "orphan_orders db = 0" and "orphan_items db = 0" and "invalid_products db = 0"
    and "list_all (\<lambda>r. review_product r \<in> set (map fst (t_products db)) \<and>
                      review_customer r \<in> set (map fst (t_customers db))) (t_reviews db)"
proof -
  from assms(1) obtain cs ps os its rs where
    f: "customers_csv fs = Some cs" "products_csv fs = Some ps" "orders_csv fs = Some os"
      "order_items_csv fs = Some its" "reviews_csv fs = Some rs"
    and ro: "list_all (\<lambda>r. o_customer_id r \<in> set (map c_customer_id cs)) os"
    and ri: "list_all (\<lambda>r. i_order_id r \<in> set (map o_order_id os) \<and>
                      i_product_id r \<in> set (map p_product_id ps)) its"
    and rr: "list_all (\<lambda>r. r_customer_id r \<in> set (map c_customer_id cs) \<and>
                      r_product_id r \<in> set (map p_product_id ps)) rs"
    unfolding references_on_file_def by blast
  from assms(2) f have
    lc: "list_all2 (\<lambda>row t. py_int (c_customer_id row) = Inr (fst t)) cs (t_customers db)"
    and lp: "list_all2 (\<lambda>row t. py_int (p_product_id row) = Inr (fst t)) ps (t_products db)"
    and lo: "list_all2 (\<lambda>row t. py_int (o_order_id row) = Inr (fst t) \<and>
                     py_int (o_customer_id row) = Inr (order_customer t)) os (t_orders db)"
    and li: "list_all2 (\<lambda>row t. py_int (i_order_id row) = Inr (item_order t) \<and>
                     py_int (i_product_id row) = Inr (item_product t)) its (t_order_items db)"
    and lr: "list_all2 (\<lambda>row t. py_int (r_product_id row) = Inr (review_product t) \<and>
                     py_int (r_customer_id row) = Inr (review_customer t)) rs (t_reviews db)"
    unfolding loaded_def by auto
  have lo1: "list_all2 (\<lambda>row t. py_int (o_order_id row) = Inr (fst t)) os (t_orders db)"
    and lo2: "list_all2 (\<lambda>row t. py_int (o_customer_id row) = Inr (order_customer t)) os (t_orders db)"
    using lo by (auto elim: list_all2_mono)
  have li1: "list_all2 (\<lambda>row t. py_int (i_order_id row) = Inr (item_order t)) its (t_order_items db)"
    and li2: "list_all2 (\<lambda>row t. py_int (i_product_id row) = Inr (item_product t)) its (t_order_items db)"
    using li by (auto elim: list_all2_mono)
  have lr1: "list_all2 (\<lambda>row t. py_int (r_product_id row) = Inr (review_product t)) rs (t_reviews db)"
    and lr2: "list_all2 (\<lambda>row t. py_int (r_customer_id row) = Inr (review_customer t)) rs (t_reviews db)"
    using lr by (auto elim: list_all2_mono)
  have ri1: "list_all (\<lambda>r. i_order_id r \<in> set (map o_order_id os)) its"
    and ri2: "list_all (\<lambda>r. i_product_id r \<in> set (map p_product_id ps)) its"
    using ri by (simp_all add: list_all_iff)
  have rr1: "list_all (\<lambda>r. r_customer_id r \<in> set (map c_customer_id cs)) rs"
    and rr2: "list_all (\<lambda>r. r_product_id r \<in> set (map p_product_id ps)) rs"
    using rr by (simp_all add: list_all_iff)
  show "orphan_orders db = 0"
    unfolding orphan_orders_def by (rule no_orphans) (rule resolved [OF ro lo2 lc])
  show "orphan_items db = 0"
    unfolding orphan_items_def by (rule no_orphans) (rule resolved [OF ri1 li1 lo1])
  show "invalid_products db = 0"
    unfolding invalid_products_def by (rule no_orphans) (rule resolved [OF ri2 li2 lp])
  show "list_all (\<lambda>r. review_product r \<in> set (map fst (t_products db)) \<and>
                      review_customer r \<in> set (map fst (t_customers db))) (t_reviews db)"
    using resolved [OF rr2 lr1 lp] resolved [OF rr1 lr2 lc] by (simp add: list_all_iff)
qed

lemma references_on_file_exist:
  "references_on_file fs \<Longrightarrow> \<forall>f \<in> set csv_files. path_exists fs f"
  by (auto simp: references_on_file_def csv_files_def path_exists_def)

section \<open>Evaluation of the small run\<close>

lemmas gen_defs = generate_customers_def customers_loop_def
  customer_row_def generate_products_def products_loop_def product_row_def generate_orders_def
  orders_loop_def order_row_def generate_reviews_def reviews_loop_def review_row_def
  categories_def statuses_def customer_csv_def product_csv_def order_csv_def review_csv_def
  order_item_csv_def str_bool_def

lemmas round_defs = exact_simps exact_round2_def round_half_even_def exact_random_def
  floor_rat_numeral

lemma small_ids:
  "[1 .. NUM_CUSTOMERS small_config] = [1]" "[1 .. NUM_PRODUCTS small_config] = [1]"
  "[1 .. NUM_ORDERS small_config] = [1]" "[1 .. NUM_REVIEWS small_config] = [1]"
  by (simp_all add: small_config_def upto.simps)

lemma small_run_customers:
  "generate_customers small_config demo_fake fs 100 =
     Inr (fs\<lparr>customers_csv := customers_csv small_run_files\<rparr>, 110)"
  by (simp add: gen_defs small_ids demo_fake_def str_nat.simps py_str_def small_run_files_def)

lemma small_run_products:
  "generate_products small_config exact demo_fake fs (demo_draws, 110) =
     Inr (fs\<lparr>products_csv := products_csv small_run_files\<rparr>,
          2 ^ 52 ## 0 ## 2 ^ 51 ## sconst 0, 115)"
  by (simp add: gen_defs small_ids demo_fake_def str_nat.simps py_str_def small_run_files_def
      demo_draws_def random_defs round_defs exact_repr_def Let_def)

lemma small_run_orders:
  "generate_orders small_config exact demo_fake [1] fs (2 ^ 52 ## 0 ## 2 ^ 51 ## sconst 0, 115) =
     Inr (fs\<lparr>orders_csv :=
            Some (map (\<lambda>r. r\<lparr>o_total_amount := ''0''\<rparr>) (the (orders_csv small_run_files)))\<rparr>,
          sconst 0, 120)"
  by (simp add: gen_defs small_ids demo_fake_def str_nat.simps py_str_def small_run_files_def
      random_defs round_defs exact_repr_def Let_def)

lemma small_run_items_loop:
  "order_items_loop exact [1] [1] (sconst 0) =
     Inr ([\<lparr>gi_order_item_id = 1, gi_order_id = 1, gi_product_id = 1, gi_quantity = 1,
            gi_unit_price = 10, gi_subtotal = 10\<rparr>], [1 \<mapsto> 10], sconst 0)"
  by (simp add: loop_defs random_defs round_defs)

lemma small_run_order_items:
  assumes "orders_csv fs =
      Some (map (\<lambda>r. r\<lparr>o_total_amount := ''0''\<rparr>) (the (orders_csv small_run_files)))"
  shows "generate_order_items exact [1] [1] fs (sconst 0) =
     Inr ([1 \<mapsto> 10],
          fs\<lparr>order_items_csv := order_items_csv small_run_files,
             orders_csv := orders_csv small_run_files\<rparr>,
          sconst 0)"
  using assms
  by (simp add: generate_order_items_def small_run_items_loop update_order_totals_def
      update_row_def order_item_csv_def small_run_files_def exact_defs floor_rat_numeral)

lemma small_run_reviews:
  "generate_reviews small_config demo_fake [1] [1] fs (sconst 0, 120) =
     Inr (fs\<lparr>reviews_csv := reviews_csv small_run_files\<rparr>, sconst 0, 122)"
  by (simp add: gen_defs small_ids demo_fake_def str_nat.simps py_str_def small_run_files_def
      random_defs)

lemma small_run_generate:
  "generate_data_main small_config exact demo_fake no_files (demo_draws, 100) =
     Inr (small_run_files, sconst 0, 122)"
proof -
  let ?g = "2 ^ 52 ## 0 ## 2 ^ 51 ## sconst 0 :: rng"
  let ?f1 = "no_files\<lparr>customers_csv := customers_csv small_run_files\<rparr>"
  let ?f2 = "?f1\<lparr>products_csv := products_csv small_run_files\<rparr>"
  let ?f3 = "?f2\<lparr>orders_csv :=
            Some (map (\<lambda>r. r\<lparr>o_total_amount := ''0''\<rparr>) (the (orders_csv small_run_files)))\<rparr>"
  let ?f4 = "?f3\<lparr>order_items_csv := order_items_csv small_run_files,
             orders_csv := orders_csv small_run_files\<rparr>"
  let ?f5 = "?f4\<lparr>reviews_csv := reviews_csv small_run_files\<rparr>"
  have c: "generate_customers small_config demo_fake no_files 100 = Inr (?f1, 110)"
    by (rule small_run_customers)
  have p: "generate_products small_config exact demo_fake ?f1 (demo_draws, 110) =
      Inr (?f2, ?g, 115)"
    by (rule small_run_products)
  have o: "generate_orders small_config exact demo_fake [1] ?f2 (?g, 115) =
      Inr (?f3, sconst 0, 120)"
    by (rule small_run_orders)
  have i: "generate_order_items exact [1] [1] ?f3 (sconst 0) = Inr ([1 \<mapsto> 10], ?f4, sconst 0)"
    by (rule small_run_order_items) simp
  have r: "generate_reviews small_config demo_fake [1] [1] ?f4 (sconst 0, 120) =
      Inr (?f5, sconst 0, 122)"
    by (rule small_run_reviews)
  have f: "?f5 = small_run_files" by (simp add: no_files_def small_run_files_def)
  show ?thesis
    unfolding generate_data_main_def
    by (simp only: prod.case sum.case Let_def small_ids c p o i r f)
qed

lemmas row_defs = insert_rows_def customer_of_row_def product_of_row_def order_of_row_def
  order_item_of_row_def review_of_row_def insert_customer_def insert_product_def
  insert_order_def insert_order_item_def insert_review_def fits_int64_def bind_real_def
  customer_email_def product_sku_def verified_of_def lower_def lower_char_def

lemma small_run_insert_customers:
  "insert_customers small_run_files \<lparr>disk = d, txn = empty_database\<rparr> =
     (None, \<lparr>disk = d, txn = empty_database\<lparr>t_customers := t_customers small_run_db\<rparr>\<rparr>,
      [Reading ''customers.csv'', Inserted 1 ''customers''])"
  by (simp add: insert_customers_def row_defs int_defs small_run_files_def small_run_db_def
      empty_database_def)

lemma small_run_insert_products:
  "insert_products exact small_run_files \<lparr>disk = d, txn = empty_database\<lparr>t_customers := c\<rparr>\<rparr> =
     (None,
      \<lparr>disk = d,
       txn = empty_database\<lparr>t_customers := c, t_products := t_products small_run_db\<rparr>\<rparr>,
      [Reading ''products.csv'', Inserted 1 ''products''])"
  by (simp add: insert_products_def row_defs exact_defs small_run_files_def small_run_db_def
      empty_database_def)

lemma small_run_insert_orders:
  "insert_orders exact small_run_files
     \<lparr>disk = d, txn = empty_database\<lparr>t_customers := c, t_products := p\<rparr>\<rparr> =
     (None,
      \<lparr>disk = d,
       txn = empty_database\<lparr>t_customers := c, t_products := p,
               t_orders := t_orders small_run_db\<rparr>\<rparr>,
      [Reading ''orders.csv'', Inserted 1 ''orders''])"
  by (simp add: insert_orders_def row_defs exact_defs small_run_files_def small_run_db_def
      empty_database_def)

lemma small_run_insert_order_items:
  "insert_order_items exact small_run_files
     \<lparr>disk = d, txn = empty_database\<lparr>t_customers := c, t_products := p, t_orders := q\<rparr>\<rparr> =
     (None,
      \<lparr>disk = d,
       txn = empty_database\<lparr>t_customers := c, t_products := p, t_orders := q,
               t_order_items := t_order_items small_run_db\<rparr>\<rparr>,
      [Reading ''order_items.csv'', Inserted 1 ''order items''])"
  by (simp add: insert_order_items_def row_defs exact_defs small_run_files_def small_run_db_def
      empty_database_def)

lemma small_run_insert_reviews:
  "insert_reviews small_run_files
     \<lparr>disk = d,
      txn = empty_database\<lparr>t_customers := c, t_products := p, t_orders := q,
              t_order_items := i\<rparr>\<rparr> =
     (None,
      \<lparr>disk = d,
       txn = empty_database\<lparr>t_customers := c, t_products := p, t_orders := q,
               t_order_items := i, t_reviews := t_reviews small_run_db\<rparr>\<rparr>,
      [Reading ''reviews.csv'', Inserted 1 ''reviews''])"
  by (simp add: insert_reviews_def row_defs int_defs small_run_files_def small_run_db_def
      empty_database_def)

lemma small_run_insert_all:
  "insert_all exact small_run_files \<lparr>disk = empty_database, txn = empty_database\<rparr> =
     (None, \<lparr>disk = empty_database, txn = small_run_db\<rparr>,
      [Reading ''customers.csv'', Inserted 1 ''customers'',
       Reading ''products.csv'', Inserted 1 ''products'',
       Reading ''orders.csv'', Inserted 1 ''orders'',
       Reading ''order_items.csv'', Inserted 1 ''order items'',
       Reading ''reviews.csv'', Inserted 1 ''reviews''])"
proof -
  have "empty_database\<lparr>t_customers := t_customers small_run_db,
          t_products := t_products small_run_db, t_orders := t_orders small_run_db,
          t_order_items := t_order_items small_run_db, t_reviews := t_reviews small_run_db\<rparr> =
        (small_run_db :: rat database)"
    by (simp add: empty_database_def small_run_db_def)
  then show ?thesis
    by (simp add: insert_all_def small_run_insert_customers small_run_insert_products
        small_run_insert_orders small_run_insert_order_items small_run_insert_reviews)
qed

lemma small_run_verify:
  "verify_data \<lparr>disk = small_run_db, txn = small_run_db\<rparr> =
     [Verifying, TableCount ''customers'' 1, TableCount ''products'' 1, TableCount ''orders'' 1,
      TableCount ''order_items'' 1, TableCount ''reviews'' 1, ConstraintsValid]"
  by (simp add: verify_data_def Let_def orphan_orders_def orphan_items_def invalid_products_def
      order_customer_def item_order_def item_product_def small_run_db_def)

lemma small_run_load:
  "ingest_to_db_main exact small_run_files =
     (small_run_files\<lparr>ecom_db := Some small_run_db\<rparr>, small_run_output, Inr ())"
proof -
  have nm: "filter (\<lambda>f. \<not> path_exists small_run_files f) csv_files = []"
    by (simp add: csv_files_def path_exists_def small_run_files_def)
  have cd: "create_database small_run_files =
      (\<lparr>disk = empty_database, txn = empty_database\<rparr>, [CreatedDatabase])"
    by (simp add: create_database_def small_run_files_def)
  show ?thesis
    by (simp add: ingest_to_db_main_def Let_def nm cd small_run_insert_all commit_def
        small_run_verify small_run_output_def)
qed

lemma stray_review_load:
  "ingest_to_db_main exact stray_review_files =
     (stray_review_files\<lparr>ecom_db :=
        Some (empty_database\<lparr>t_reviews := [(1, 2, 1, 5, ''Works well.'', ''2024-07-04'', 0)]\<rparr>)\<rparr>,
      [CreatedDatabase, InsertingData,
       Reading ''customers.csv'', Inserted 0 ''customers'',
       Reading ''products.csv'', Inserted 0 ''products'',
       Reading ''orders.csv'', Inserted 0 ''orders'',
       Reading ''order_items.csv'', Inserted 0 ''order items'',
       Reading ''reviews.csv'', Inserted 1 ''reviews'',
       AllInserted, Verifying,
       TableCount ''customers'' 0, TableCount ''products'' 0, TableCount ''orders'' 0,
       TableCount ''order_items'' 0, TableCount ''reviews'' 1,
       ConstraintsValid, IngestionComplete],
      Inr ())"
proof -
  have nm: "filter (\<lambda>f. \<not> path_exists stray_review_files f) csv_files = []"
    by (simp add: csv_files_def path_exists_def stray_review_files_def)
  have cd: "create_database stray_review_files =
      (\<lparr>disk = empty_database, txn = empty_database\<rparr>, [CreatedDatabase])"
    by (simp add: create_database_def stray_review_files_def)
  have r: "review_of_row demo_review = Inr (1, 2, 1, 5, ''Works well.'', ''2024-07-04'', 0)"
    by (simp add: review_of_row_def demo_review_def int_defs verified_of_def lower_def
        lower_char_def)
  have ia: "insert_all exact stray_review_files \<lparr>disk = empty_database, txn = empty_database\<rparr> =
      (None,
       \<lparr>disk = empty_database,
        txn = empty_database\<lparr>t_reviews := [(1, 2, 1, 5, ''Works well.'', ''2024-07-04'', 0)]\<rparr>\<rparr>,
       [Reading ''customers.csv'', Inserted 0 ''customers'',
        Reading ''products.csv'', Inserted 0 ''products'',
        Reading ''orders.csv'', Inserted 0 ''orders'',
        Reading ''order_items.csv'', Inserted 0 ''order items'',
        Reading ''reviews.csv'', Inserted 1 ''reviews''])"
    by (simp add: insert_all_def insert_customers_def insert_products_def insert_orders_def
        insert_order_items_def insert_reviews_def insert_rows_def stray_review_files_def r
        insert_review_def fits_int64_def empty_database_def)
  have v: "verify_data
      \<lparr>disk = empty_database\<lparr>t_reviews := [(1, 2, 1, 5, ''Works well.'', ''2024-07-04'', 0)]\<rparr>,
       txn = empty_database\<lparr>t_reviews := [(1, 2, 1, 5, ''Works well.'', ''2024-07-04'', 0)]\<rparr>\<rparr> =
      [Verifying,
       TableCount ''customers'' 0, TableCount ''products'' 0, TableCount ''orders'' 0,
       TableCount ''order_items'' 0, TableCount ''reviews'' 1, ConstraintsValid]"
    by (simp add: verify_data_def Let_def orphan_orders_def orphan_items_def
        invalid_products_def empty_database_def)
  show ?thesis
    by (simp add: ingest_to_db_main_def Let_def nm cd ia commit_def v)
qed

text \<open>
  Claim C9, as the specification states it: after the load the verifier confirms every
  kind of reference, those of the reviews among them. In a directory whose only record
  is a review of product 2 by customer 1, the load succeeds with empty tables of
  customers and products, and the verifier reports all constraints valid.
\<close>

theorem review_references_unchecked_counterexample:
  "ingest_to_db_main exact stray_review_files =
     (stray_review_files\<lparr>ecom_db :=
        Some (empty_database\<lparr>t_reviews := [(1, 2, 1, 5, ''Works well.'', ''2024-07-04'', 0)]\<rparr>)\<rparr>,
      [CreatedDatabase, InsertingData,
       Reading ''customers.csv'', Inserted 0 ''customers'',
       Reading ''products.csv'', Inserted 0 ''products'',
       Reading ''orders.csv'', Inserted 0 ''orders'',
       Reading ''order_items.csv'', Inserted 0 ''order items'',
       Reading ''reviews.csv'', Inserted 1 ''reviews'',
       AllInserted, Verifying,
       TableCount ''customers'' 0, TableCount ''products'' 0, TableCount ''orders'' 0,
       TableCount ''order_items'' 0, TableCount ''reviews'' 1,
       ConstraintsValid, IngestionComplete],
      Inr ()) \<and>
   review_product (1, 2, 1, 5, ''Works well.'', ''2024-07-04'', 0) = 2 \<and>
   review_customer (1, 2, 1, 5, ''Works well.'', ''2024-07-04'', 0) = 1 \<and>
   t_products (empty_database :: rat database) = [] \<and>
   t_customers (empty_database :: rat database) = []"
  using stray_review_load
  by (simp add: review_product_def review_customer_def empty_database_def)

text \<open>
  Claim C9, amended. Every order that the generator writes names a customer on file,
  every order item an order and a product on file, every review a customer and a
  product on file. When the load of the generated files succeeds, the tables hold the
  identifiers of the files, none of the three counts of the verifier finds a dangling
  reference, and its report is that the constraints are valid; the references of the
  reviews resolve as well. The verdict of the verifier depends on three kinds of
  reference only: order to customer, order item to order, order item to product. It
  does not look at the reviews.
\<close>

theorem generated_references_resolve:
  assumes "generate_data_main cfg F fake fs (g, k) = Inr (fs1, st1)"
  shows "references_on_file fs1 \<and>
         (\<forall>fs2 out.
            ingest_to_db_main F fs1 = (fs2, out, Inr ()) \<longrightarrow>
            (\<exists>db pre.
               ecom_db fs2 = Some db \<and> loaded fs1 db \<and>
               orphan_orders db = 0 \<and> orphan_items db = 0 \<and> invalid_products db = 0 \<and>
               out = pre @ [ConstraintsValid, IngestionComplete] \<and>
               list_all (\<lambda>r. review_product r \<in> set (map fst (t_products db)) \<and>
                             review_customer r \<in> set (map fst (t_customers db)))
                 (t_reviews db))) \<and>
         (\<forall>conn :: 'a connection.
            ConstraintsValid \<in> set (verify_data conn) \<longleftrightarrow>
            list_all (\<lambda>ord. order_customer ord \<in> set (map fst (t_customers (txn conn))))
              (t_orders (txn conn)) \<and>
            list_all (\<lambda>oi. item_order oi \<in> set (map fst (t_orders (txn conn))) \<and>
                          item_product oi \<in> set (map fst (t_products (txn conn))))
              (t_order_items (txn conn)))"
proof -
  have refs: "references_on_file fs1" by (rule generated_references [OF assms])
  have verdict: "ConstraintsValid \<in> set (verify_data conn) \<longleftrightarrow>
            list_all (\<lambda>ord. order_customer ord \<in> set (map fst (t_customers (txn conn))))
              (t_orders (txn conn)) \<and>
            list_all (\<lambda>oi. item_order oi \<in> set (map fst (t_orders (txn conn))) \<and>
                          item_product oi \<in> set (map fst (t_products (txn conn))))
              (t_order_items (txn conn))" for conn :: "'a connection"
    by (rule verify_data_verdict)
  have "\<exists>db pre.
               ecom_db fs2 = Some db \<and> loaded fs1 db \<and>
               orphan_orders db = 0 \<and> orphan_items db = 0 \<and> invalid_products db = 0 \<and>
               out = pre @ [ConstraintsValid, IngestionComplete] \<and>
               list_all (\<lambda>r. review_product r \<in> set (map fst (t_products db)) \<and>
                             review_customer r \<in> set (map fst (t_customers db)))
                 (t_reviews db)"
    if m: "ingest_to_db_main F fs1 = (fs2, out, Inr ())" for fs2 out
  proof -
    from main_success [OF m references_on_file_exist [OF refs]] obtain conn1 out1 where
      ia: "insert_all F fs1 (fst (create_database fs1)) = (None, conn1, out1)"
      and fs2: "fs2 = fs1\<lparr>ecom_db := Some (txn conn1)\<rparr>"
      and out: "out = snd (create_database fs1) @ [InsertingData] @ out1 @ [AllInserted] @
                 verify_data (commit conn1) @ [IngestionComplete]"
      by blast
    have "txn (fst (create_database fs1)) = empty_database" by (simp add: create_database_def)
    from insert_all_loaded [OF ia this] have l: "loaded fs1 (txn conn1)" .
    note z = loaded_references [OF refs l]
    have v: "verify_data (commit conn1) =
        [Verifying,
         TableCount ''customers'' (length (t_customers (txn conn1))),
         TableCount ''products'' (length (t_products (txn conn1))),
         TableCount ''orders'' (length (t_orders (txn conn1))),
         TableCount ''order_items'' (length (t_order_items (txn conn1))),
         TableCount ''reviews'' (length (t_reviews (txn conn1)))] @ [ConstraintsValid]"
      using z(1,2,3) by (simp add: verify_data_def Let_def commit_def)
    have "out = (snd (create_database fs1) @ [InsertingData] @ out1 @ [AllInserted] @
        [Verifying,
         TableCount ''customers'' (length (t_customers (txn conn1))),
         TableCount ''products'' (length (t_products (txn conn1))),
         TableCount ''orders'' (length (t_orders (txn conn1))),
         TableCount ''order_items'' (length (t_order_items (txn conn1))),
         TableCount ''reviews'' (length (t_reviews (txn conn1)))]) @
        [ConstraintsValid, IngestionComplete]"
      unfolding out v by simp
    then show ?thesis using fs2 l z by (intro exI [of _ "txn conn1"] exI conjI) simp_all
  qed
  with refs verdict show ?thesis by blast
qed

theorem generated_references_resolve_witness:
  "generate_data_main small_config exact demo_fake no_files (demo_draws, 100) =
     Inr (small_run_files, sconst 0, 122) \<and>
   ingest_to_db_main exact small_run_files =
     (small_run_files\<lparr>ecom_db := Some small_run_db\<rparr>, small_run_output, Inr ()) \<and>
   references_on_file small_run_files \<and> loaded small_run_files small_run_db \<and>
   orphan_orders small_run_db = 0 \<and> orphan_items small_run_db = 0 \<and>
   invalid_products small_run_db = 0 \<and>
   last (butlast small_run_output) = ConstraintsValid \<and>
   list_all (\<lambda>r. review_product r \<in> set (map fst (t_products small_run_db)) \<and>
                 review_customer r \<in> set (map fst (t_customers small_run_db)))
     (t_reviews small_run_db)"
proof -
  from generated_references_resolve [OF small_run_generate] have
    refs: "references_on_file small_run_files"
    and load: "\<forall>fs2 out.
            ingest_to_db_main exact small_run_files = (fs2, out, Inr ()) \<longrightarrow>
            (\<exists>db pre.
               ecom_db fs2 = Some db \<and> loaded small_run_files db \<and>
               orphan_orders db = 0 \<and> orphan_items db = 0 \<and> invalid_products db = 0 \<and>
               out = pre @ [ConstraintsValid, IngestionComplete] \<and>
               list_all (\<lambda>r. review_product r \<in> set (map fst (t_products db)) \<and>
                             review_customer r \<in> set (map fst (t_customers db)))
                 (t_reviews db))"
    by blast+
  from load [rule_format, OF small_run_load] obtain db pre where
    db: "ecom_db (small_run_files\<lparr>ecom_db := Some small_run_db\<rparr>) = Some db"
    and rest: "loaded small_run_files db" "orphan_orders db = 0" "orphan_items db = 0"
      "invalid_products db = 0" "small_run_output = pre @ [ConstraintsValid, IngestionComplete]"
      "list_all (\<lambda>r. review_product r \<in> set (map fst (t_products db)) \<and>
                             review_customer r \<in> set (map fst (t_customers db)))
                 (t_reviews db)"
    by blast
  from db have "db = small_run_db" by simp
  moreover have "last (butlast small_run_output) = ConstraintsValid"
    by (simp add: small_run_output_def)
  ultimately show ?thesis
    using small_run_generate small_run_load refs rest by simp
qed

end
